(* ===== verification/Prelude.thy ===== *)
theory Prelude
  imports Main "HOL-Library.Multiset" "HOL-Library.Word" "HOL-Library.List_Lexorder"
    "HOL-Library.Char_ord"
begin

section \<open>Prelude: results, comparators, paging, keyed stores\<close>

text \<open>
  What every component shares. \<open>Result<T, E>\<close> is the sum type \<open>'e + 'a\<close> with
  \<open>Err\<close> and \<open>Ok\<close> for its injections; the operator \<open>?\<close> is \<open>rbind\<close>. The
  comparator interface is what \<open>slice::sort_by\<close> relies on, the keyed store
  interface what every process-global \<open>HashMap\<close> of the program promises its callers.
\<close>

named_theorems result_simps "unfolding of the result combinators"
named_theorems store_simps "lookups after the operations of a store"
named_theorems wf_intros "operations keep the well-formedness of their state"

subsection \<open>Results\<close>

abbreviation Ok :: "'a \<Rightarrow> 'e + 'a" where "Ok \<equiv> Inr"
abbreviation Err :: "'e \<Rightarrow> 'e + 'a" where "Err \<equiv> Inl"

definition rbind :: "'e + 'a \<Rightarrow> ('a \<Rightarrow> 'e + 'b) \<Rightarrow> 'e + 'b" where
  "rbind r f = (case r of Err e \<Rightarrow> Err e | Ok x \<Rightarrow> f x)"

definition map_err :: "('e \<Rightarrow> 'f) \<Rightarrow> 'e + 'a \<Rightarrow> 'f + 'a" where
  "map_err f r = (case r of Err e \<Rightarrow> Err (f e) | Ok x \<Rightarrow> Ok x)"

definition ok_or :: "'e \<Rightarrow> 'a option \<Rightarrow> 'e + 'a" where
  "ok_or e v = (case v of None \<Rightarrow> Err e | Some x \<Rightarrow> Ok x)"

lemma rbind_simps [simp, result_simps]:
  "rbind (Err e) f = Err e"
  "rbind (Ok x) f = f x"
  by (simp_all add: rbind_def)

lemma map_err_simps [simp, result_simps]:
  "map_err g (Err e) = Err (g e)"
  "map_err g (Ok x) = Ok x"
  by (simp_all add: map_err_def)

lemma ok_or_simps [simp, result_simps]:
  "ok_or e None = Err e"
  "ok_or e (Some x) = Ok x"
  by (simp_all add: ok_or_def)

lemma rbind_eq_Ok: "rbind r f = Ok y \<longleftrightarrow> (\<exists>x. r = Ok x \<and> f x = Ok y)"
  by (cases r) auto

lemma rbind_eq_Err: "rbind r f = Err e \<longleftrightarrow> r = Err e \<or> (\<exists>x. r = Ok x \<and> f x = Err e)"
  by (cases r) auto

lemma map_err_eq_Ok [simp]: "map_err g r = Ok x \<longleftrightarrow> r = Ok x"
  by (cases r) auto

lemma map_err_eq_Err: "map_err g r = Err e \<longleftrightarrow> (\<exists>d. r = Err d \<and> e = g d)"
  by (cases r) auto

lemma ok_or_eq_Ok [simp]: "ok_or e v = Ok x \<longleftrightarrow> v = Some x"
  by (cases v) auto

lemma ok_or_eq_Err: "ok_or e v = Err d \<longleftrightarrow> v = None \<and> d = e"
  by (cases v) auto

lemmas result_eqs = rbind_eq_Ok rbind_eq_Err map_err_eq_Err ok_or_eq_Err

text \<open>The outcome of a call that may panic: the value it returned, or nothing.\<close>

datatype 'a outcome = Returned 'a | Panicked

subsection \<open>Comparators and the stable sort of the standard library\<close>

datatype ordering = Less | Equal | Greater

fun reverse_ordering :: "ordering \<Rightarrow> ordering" where
  "reverse_ordering Less = Greater"
| "reverse_ordering Equal = Equal"
| "reverse_ordering Greater = Less"

fun then_with :: "ordering \<Rightarrow> ordering \<Rightarrow> ordering" where
  "then_with Equal o2 = o2"
| "then_with o1 o2 = o1"

definition cmp_of :: "'a::linorder \<Rightarrow> 'a \<Rightarrow> ordering" where
  "cmp_of x y = (if x < y then Less else if x = y then Equal else Greater)"

lemma reverse_ordering_simps [simp]: "reverse_ordering (reverse_ordering c) = c"
  by (cases c) auto

lemma cmp_of_refl [simp]: "cmp_of x x = Equal"
  by (simp add: cmp_of_def)

lemma cmp_of_iffs [simp]:
  "cmp_of x y = Less \<longleftrightarrow> x < y"
  "cmp_of x y = Equal \<longleftrightarrow> x = y"
  "cmp_of x y = Greater \<longleftrightarrow> y < x"
  by (auto simp: cmp_of_def)

lemma cmp_of_flip: "cmp_of y x = reverse_ordering (cmp_of x y)"
  by (auto simp: cmp_of_def)

fun insert_by :: "('a \<Rightarrow> 'a \<Rightarrow> ordering) \<Rightarrow> 'a \<Rightarrow> 'a list \<Rightarrow> 'a list" where
  "insert_by cmp x [] = [x]"
| "insert_by cmp x (y # ys) =
     (if cmp x y = Greater then y # insert_by cmp x ys else x # y # ys)"

fun sort_by :: "('a \<Rightarrow> 'a \<Rightarrow> ordering) \<Rightarrow> 'a list \<Rightarrow> 'a list" where
  "sort_by cmp [] = []"
| "sort_by cmp (x # xs) = insert_by cmp x (sort_by cmp xs)"

lemma mset_insert_by [simp]: "mset (insert_by cmp x xs) = add_mset x (mset xs)"
  by (induction xs) auto

lemma mset_sort_by [simp]: "mset (sort_by cmp xs) = mset xs"
  by (induction xs) auto

lemma set_sort_by [simp]: "set (sort_by cmp xs) = set xs"
  by (metis mset_sort_by set_mset_mset)

lemma length_sort_by [simp]: "length (sort_by cmp xs) = length xs"
  by (metis mset_sort_by size_mset)

text \<open>
  The contract of \<open>sort_by\<close>'s argument: a total preorder. Under it the result is sorted
  and elements that compare equal keep their order.
\<close>

locale comparator =
  fixes cmp :: "'a \<Rightarrow> 'a \<Rightarrow> ordering"
  assumes cmp_flip: "cmp y x = reverse_ordering (cmp x y)"
    and cmp_trans: "cmp x y \<noteq> Greater \<Longrightarrow> cmp y z \<noteq> Greater \<Longrightarrow> cmp x z \<noteq> Greater"
begin

abbreviation le :: "'a \<Rightarrow> 'a \<Rightarrow> bool" where
  "le x y \<equiv> cmp x y \<noteq> Greater"

lemma cmp_self: "cmp x x = Equal"
  using cmp_flip [of x x] by (cases "cmp x x") auto

lemma le_total: "le x y \<or> le y x"
  using cmp_flip [of x y] by (cases "cmp x y") auto

lemma sorted_insert_by: "sorted_wrt le xs \<Longrightarrow> sorted_wrt le (insert_by cmp x xs)"
proof (induction xs)
  case Nil
  then show ?case by simp
next
  case (Cons y ys)
  have set_ins: "set (insert_by cmp x ys) = insert x (set ys)"
    by (metis mset_insert_by set_mset_add_mset_insert set_mset_mset)
  show ?case
  proof (cases "cmp x y = Greater")
    case True
    then have "le y x" using cmp_flip [of y x] by auto
    with Cons True set_ins show ?thesis by auto
  next
    case False
    have "le x z" if "z \<in> set ys" for z
      using that False Cons.prems cmp_trans [of x y z] by simp
    with Cons.prems False show ?thesis by simp
  qed
qed

lemma sorted_sort_by: "sorted_wrt le (sort_by cmp xs)"
  by (induction xs) (simp_all add: sorted_insert_by)

lemma insert_by_front: "\<forall>y \<in> set ys. le x y \<Longrightarrow> insert_by cmp x ys = x # ys"
  by (cases ys) auto

lemma sort_by_sorted_id: "sorted_wrt le xs \<Longrightarrow> sort_by cmp xs = xs"
  by (induction xs) (auto simp: insert_by_front)

lemma Equal_iff_le: "cmp x y = Equal \<longleftrightarrow> le x y \<and> le y x"
  using cmp_flip [of y x] by (cases "cmp x y") auto

lemma eq_class_cong: "cmp x y = Equal \<Longrightarrow> cmp z x = Equal \<longleftrightarrow> cmp z y = Equal"
  unfolding Equal_iff_le using cmp_trans by blast

lemma filter_insert_by:
  "filter (\<lambda>y. cmp z y = Equal) (insert_by cmp x xs) =
     (if cmp z x = Equal then x # filter (\<lambda>y. cmp z y = Equal) xs
      else filter (\<lambda>y. cmp z y = Equal) xs)"
proof (induction xs)
  case Nil
  then show ?case by simp
next
  case (Cons y ys)
  have "\<not> (cmp z x = Equal \<and> cmp z y = Equal)" if "cmp x y = Greater"
    using that eq_class_cong [of z x y] cmp_trans [of x z y] cmp_flip [of x z] by auto
  with Cons.IH show ?case by auto
qed

lemma sort_by_stable:
  "filter (\<lambda>y. cmp z y = Equal) (sort_by cmp xs) = filter (\<lambda>y. cmp z y = Equal) xs"
  by (induction xs) (simp_all add: filter_insert_by)

end

interpretation linorder_cmp: comparator "cmp_of :: 'a::linorder \<Rightarrow> 'a \<Rightarrow> ordering"
  by unfold_locales (auto simp: cmp_of_def split: if_splits)

subsection \<open>Keyed stores\<close>

text \<open>
  The contract of a process-global map behind its lock: under the store's invariant an
  insertion replaces the value of its key and of no other, clearing forgets everything.
  Clients write batches of entries; the last entry for a key wins.
\<close>

locale keyed_store =
  fixes lookup :: "'s \<Rightarrow> 'k \<Rightarrow> 'v option"
    and put :: "'k \<Rightarrow> 'v \<Rightarrow> 's \<Rightarrow> 's"
    and wipe :: "'s \<Rightarrow> 's"
    and inv :: "'s \<Rightarrow> bool"
    and key_ok :: "'k \<Rightarrow> bool"
  assumes lookup_put: "inv s \<Longrightarrow> key_ok k \<Longrightarrow> lookup (put k v s) = (lookup s)(k \<mapsto> v)"
    and inv_put: "inv s \<Longrightarrow> key_ok k \<Longrightarrow> inv (put k v s)"
    and lookup_wipe: "inv s \<Longrightarrow> lookup (wipe s) = Map.empty"
    and inv_wipe: "inv s \<Longrightarrow> inv (wipe s)"
begin

fun put_all :: "('k \<times> 'v) list \<Rightarrow> 's \<Rightarrow> 's" where
  "put_all [] s = s"
| "put_all ((k, v) # kvs) s = put_all kvs (put k v s)"

lemma lookup_put_same: "inv s \<Longrightarrow> key_ok k \<Longrightarrow> lookup (put k v s) k = Some v"
  by (simp add: lookup_put)

lemma lookup_put_other:
  "inv s \<Longrightarrow> key_ok k \<Longrightarrow> k' \<noteq> k \<Longrightarrow> lookup (put k v s) k' = lookup s k'"
  by (simp add: lookup_put)

lemma last_put_wins:
  "inv s \<Longrightarrow> key_ok k \<Longrightarrow> lookup (put k w (put k v s)) = lookup (put k w s)"
  by (simp add: lookup_put inv_put)

lemma puts_commute:
  "inv s \<Longrightarrow> key_ok j \<Longrightarrow> key_ok k \<Longrightarrow> j \<noteq> k \<Longrightarrow>
     lookup (put j v (put k w s)) = lookup (put k w (put j v s))"
  by (simp add: lookup_put inv_put fun_upd_twist)

lemma inv_put_all: "inv s \<Longrightarrow> \<forall>(k, v) \<in> set kvs. key_ok k \<Longrightarrow> inv (put_all kvs s)"
  by (induction kvs arbitrary: s) (auto simp: inv_put)

lemma lookup_put_all:
  "inv s \<Longrightarrow> \<forall>(k, v) \<in> set kvs. key_ok k \<Longrightarrow>
     lookup (put_all kvs s) = lookup s ++ map_of (rev kvs)"
  by (induction kvs arbitrary: s) (auto simp: lookup_put inv_put map_add_upd_left)

lemma lookup_put_all_distinct:
  assumes "inv s" and "\<forall>(k, v) \<in> set kvs. key_ok k" and "distinct (map fst kvs)"
  shows "lookup (put_all kvs s) = lookup s ++ map_of kvs"
proof -
  from assms have "distinct (map fst (rev kvs))" by (simp add: rev_map [symmetric])
  then have "map_of (rev kvs) = map_of kvs"
    by (metis assms(3) ext map_of_eq_None_iff map_of_eq_Some_iff not_Some_eq set_rev)
  then show ?thesis using assms by (simp add: lookup_put_all)
qed

end

end
