(* ===== verification/Machine_Int.thy ===== *)
theory Machine_Int
  imports Prelude
begin

section \<open>Machine integers\<close>

text \<open>
  Rust's \<open>u16\<close>, \<open>u32\<close>, \<open>u64\<close> and \<open>i64\<close> as words: \<open>unat\<close> reads an unsigned value,
  \<open>sint\<close> a signed one. \<open>usize\<close> is 64 bits wide. The plain operators \<open>+\<close> and \<open>*\<close> wrap
  around, as in a release build (the manifest \<open>Cargo.toml\<close> does not switch overflow
  checks on); the saturating, checked and converting operations of the standard library
  that the program calls are below, each with its value in unbounded arithmetic.
\<close>

type_synonym u16 = "16 word"
type_synonym u32 = "32 word"
type_synonym u64 = "64 word"
type_synonym i64 = "64 word"
type_synonym usize = "64 word"

named_theorems int_values "values of the machine operations in unbounded arithmetic"

subsection \<open>Unsigned operations\<close>

definition U64_MAX :: u64 where "U64_MAX = 0xFFFFFFFFFFFFFFFF"

definition u64_saturating_add :: "u64 \<Rightarrow> u64 \<Rightarrow> u64" where
  "u64_saturating_add a b = (if unat a + unat b < 2 ^ 64 then a + b else U64_MAX)"

definition u64_saturating_sub :: "u64 \<Rightarrow> u64 \<Rightarrow> u64" where
  "u64_saturating_sub a b = (if a < b then 0 else a - b)"

definition u64_saturating_mul :: "u64 \<Rightarrow> u64 \<Rightarrow> u64" where
  "u64_saturating_mul a b = (if unat a * unat b < 2 ^ 64 then a * b else U64_MAX)"

definition u64_checked_add :: "u64 \<Rightarrow> u64 \<Rightarrow> u64 option" where
  "u64_checked_add a b = (if unat a + unat b < 2 ^ 64 then Some (a + b) else None)"

definition u64_checked_mul :: "u64 \<Rightarrow> u64 \<Rightarrow> u64 option" where
  "u64_checked_mul a b = (if unat a * unat b < 2 ^ 64 then Some (a * b) else None)"

definition u32_try_from_u64 :: "u64 \<Rightarrow> u32 option" where
  "u32_try_from_u64 a = (if unat a < 2 ^ 32 then Some (ucast a) else None)"

lemma unat_U64_MAX [simp, int_values]: "unat U64_MAX = 2 ^ 64 - 1"
  by (simp add: U64_MAX_def)

lemma unat_u64_less: "unat (a :: u64) < 2 ^ 64"
proof -
  have "unat a < 2 ^ LENGTH(64)" by (rule unsigned_less)
  then show ?thesis by simp
qed

lemma unat_u32_less: "unat (a :: u32) < 2 ^ 32"
proof -
  have "unat a < 2 ^ LENGTH(32)" by (rule unsigned_less)
  then show ?thesis by simp
qed

lemma unat_u64_saturating_add [int_values]:
  "unat (u64_saturating_add a b) = min (2 ^ 64 - 1) (unat a + unat b)"
  by (simp add: u64_saturating_add_def unat_word_ariths)

lemma unat_u64_saturating_sub [int_values]:
  "unat (u64_saturating_sub a b) = unat a - unat b"
  by (auto simp: u64_saturating_sub_def word_less_nat_alt unat_sub_if')

lemma unat_u64_saturating_mul [int_values]:
  "unat (u64_saturating_mul a b) = min (2 ^ 64 - 1) (unat a * unat b)"
  by (simp add: u64_saturating_mul_def unat_word_ariths)

lemma u64_checked_add_Some [int_values]:
  "u64_checked_add a b = Some c \<longleftrightarrow> unat c = unat a + unat b"
  using unat_u64_less [of c]
  by (auto simp: u64_checked_add_def unat_word_ariths unsigned_word_eqI word_unat_eq_iff)

lemma u64_checked_mul_Some [int_values]:
  "u64_checked_mul a b = Some c \<longleftrightarrow> unat c = unat a * unat b"
  using unat_u64_less [of c]
  by (auto simp: u64_checked_mul_def unat_word_ariths word_unat_eq_iff)

lemma u64_checked_add_None: "u64_checked_add a b = None \<longleftrightarrow> 2 ^ 64 \<le> unat a + unat b"
  by (simp add: u64_checked_add_def not_less)

lemma u64_checked_mul_None: "u64_checked_mul a b = None \<longleftrightarrow> 2 ^ 64 \<le> unat a * unat b"
  by (simp add: u64_checked_mul_def not_less)

lemma u32_try_from_u64_Some [int_values]:
  "u32_try_from_u64 a = Some c \<longleftrightarrow> unat c = unat a"
  using unat_u32_less [of c]
  by (auto simp: u32_try_from_u64_def word_unat_eq_iff unsigned_ucast_eq take_bit_nat_eq_self)

subsection \<open>Signed operations\<close>

definition I64_MAX :: i64 where "I64_MAX = 0x7FFFFFFFFFFFFFFF"

definition i64_of_int :: "int \<Rightarrow> i64" where
  "i64_of_int i = word_of_int i"

definition i64_clamp :: "int \<Rightarrow> int" where
  "i64_clamp i = max (- (2 ^ 63)) (min (2 ^ 63 - 1) i)"

definition i64_saturating_add :: "i64 \<Rightarrow> i64 \<Rightarrow> i64" where
  "i64_saturating_add a b = i64_of_int (i64_clamp (sint a + sint b))"

definition i64_saturating_sub :: "i64 \<Rightarrow> i64 \<Rightarrow> i64" where
  "i64_saturating_sub a b = i64_of_int (i64_clamp (sint a - sint b))"

definition i64_less :: "i64 \<Rightarrow> i64 \<Rightarrow> bool" where
  "i64_less a b \<longleftrightarrow> sint a < sint b"

definition i64_min :: "i64 \<Rightarrow> i64 \<Rightarrow> i64" where
  "i64_min a b = (if i64_less b a then b else a)"

definition i64_try_from_u64 :: "u64 \<Rightarrow> i64 option" where
  "i64_try_from_u64 a = (if unat a < 2 ^ 63 then Some a else None)"

lemma sint_i64_range: "- (2 ^ 63) \<le> sint (a :: i64)" "sint a < 2 ^ 63"
  using sint_ge [of a] sint_lt [of a] by simp_all

lemma sint_i64_of_int [simp]:
  assumes "- (2 ^ 63) \<le> i" and "i < 2 ^ 63"
  shows "sint (i64_of_int i) = i"
  using assms by (simp add: i64_of_int_def sint_sbintrunc' signed_take_bit_int_eq_self)

lemma i64_clamp_range: "- (2 ^ 63) \<le> i64_clamp i" "i64_clamp i < 2 ^ 63"
  by (simp_all add: i64_clamp_def)

lemma i64_clamp_id: "- (2 ^ 63) \<le> i \<Longrightarrow> i < 2 ^ 63 \<Longrightarrow> i64_clamp i = i"
  by (simp add: i64_clamp_def)

lemma sint_I64_MAX [simp, int_values]: "sint I64_MAX = 2 ^ 63 - 1"
  by (simp add: I64_MAX_def)

lemma sint_i64_saturating_add [int_values]:
  "sint (i64_saturating_add a b) = i64_clamp (sint a + sint b)"
  unfolding i64_saturating_add_def by (rule sint_i64_of_int) (rule i64_clamp_range)+

lemma sint_i64_saturating_sub [int_values]:
  "sint (i64_saturating_sub a b) = i64_clamp (sint a - sint b)"
  unfolding i64_saturating_sub_def by (rule sint_i64_of_int) (rule i64_clamp_range)+

lemma sint_i64_min [int_values]: "sint (i64_min a b) = min (sint a) (sint b)"
  by (simp add: i64_min_def i64_less_def min_def)

lemma sint_of_small_u64:
  assumes "unat (a :: u64) < 2 ^ 63"
  shows "sint a = int (unat a)"
proof -
  have "int (unat a) < int (2 ^ 63)"
    using assms by (simp only: of_nat_less_iff)
  then have bound: "uint a < 2 ^ 63" by simp
  have "- (2 ^ 63) \<le> uint a"
    by (rule order_trans [OF _ uint_ge_0]) simp
  with bound have "signed_take_bit 63 (uint a) = uint a"
    by (rule signed_take_bit_int_eq_self [rotated])
  moreover have "sint a = signed_take_bit 63 (uint a)"
    by (subst sint_uint) simp
  ultimately have "sint a = uint a" by simp
  then show ?thesis by (simp only: uint_nat)
qed

lemma int_unat_less_63: "int (unat a) < 2 ^ 63 \<longleftrightarrow> unat a < 2 ^ 63"
  by (metis of_nat_less_iff of_nat_numeral of_nat_power)

lemma i64_try_from_u64_None [int_values]: "i64_try_from_u64 a = None \<longleftrightarrow> 2 ^ 63 \<le> unat a"
  by (simp add: i64_try_from_u64_def not_less)

lemma i64_try_from_u64_Some:
  "i64_try_from_u64 a = Some b \<Longrightarrow> sint b = int (unat a) \<and> unat a < 2 ^ 63"
  by (auto simp: i64_try_from_u64_def sint_of_small_u64 split: if_splits)

lemma sint_inject: "sint a = sint b \<longleftrightarrow> a = (b :: i64)"
  by (auto intro: signed_word_eqI)

end
