(* ===== verification/Rust_String.thy ===== *)
theory Rust_String
  imports Machine_Int
begin

section \<open>Strings as the program uses them\<close>

text \<open>
  A Rust \<open>String\<close> is its UTF-8 bytes, one \<open>char\<close> per byte, so that \<open>len\<close> is
  \<open>length\<close> and the order of strings is the lexicographic order of bytes. Here are the
  operations of the standard library that the program applies to strings: \<open>trim\<close> (only
  to ask whether anything is left), \<open>to_lowercase\<close>, \<open>split\<close>, \<open>splitn\<close>, decimal
  output and \<open>str::parse::<u64>\<close>, with the facts the codecs need.
\<close>

abbreviation byte_of :: "char \<Rightarrow> nat" where "byte_of c \<equiv> of_char c"

subsection \<open>White space\<close>

text \<open>The bytes of the white-space character at the front of a string, 0 for none.\<close>

definition whitespace_len :: "string \<Rightarrow> nat" where
  "whitespace_len s =
     (case s of
        [] \<Rightarrow> 0
      | c # r \<Rightarrow>
         if byte_of c = 32 \<or> 9 \<le> byte_of c \<and> byte_of c \<le> 13 then 1
         else (case r of
            [] \<Rightarrow> 0
          | d # r' \<Rightarrow>
             if byte_of c = 0xC2 \<and> (byte_of d = 0x85 \<or> byte_of d = 0xA0) then 2
             else (case r' of
                [] \<Rightarrow> 0
              | e # _ \<Rightarrow>
                 if byte_of c = 0xE1 \<and> byte_of d = 0x9A \<and> byte_of e = 0x80
                  \<or> byte_of c = 0xE2 \<and> byte_of d = 0x80 \<and>
                      (0x80 \<le> byte_of e \<and> byte_of e \<le> 0x8A \<or> byte_of e \<in> {0xA8, 0xA9, 0xAF})
                  \<or> byte_of c = 0xE2 \<and> byte_of d = 0x81 \<and> byte_of e = 0x9F
                  \<or> byte_of c = 0xE3 \<and> byte_of d = 0x80 \<and> byte_of e = 0x80
                 then 3 else 0)))"

function trim_is_empty :: "string \<Rightarrow> bool" where
  "trim_is_empty s =
     (if s = [] then True
      else if whitespace_len s = 0 then False
      else trim_is_empty (drop (whitespace_len s) s))"
  by pat_completeness auto
termination
  by (relation "measure length") auto

declare trim_is_empty.simps [simp del]

lemma trim_is_empty_Nil [simp]: "trim_is_empty []"
  by (simp add: trim_is_empty.simps)

lemma trim_is_empty_Cons [simp]:
  "trim_is_empty (c # r) \<longleftrightarrow>
     (if whitespace_len (c # r) = 0 then False
      else trim_is_empty (drop (whitespace_len (c # r)) (c # r)))"
  by (subst trim_is_empty.simps) simp

subsection \<open>Lower case\<close>

text \<open>
  \<open>to_lowercase\<close> on the ASCII letters. The program lowers the network name and the text of a
  note, to look for ASCII words none of whose letters another character lowers to.
\<close>

definition char_to_lowercase :: "char \<Rightarrow> char" where
  "char_to_lowercase c = (if 65 \<le> byte_of c \<and> byte_of c \<le> 90 then char_of (byte_of c + 32) else c)"

definition to_lowercase :: "string \<Rightarrow> string" where
  "to_lowercase s = List.map char_to_lowercase s"

subsection \<open>Splitting\<close>

fun split_on :: "char \<Rightarrow> string \<Rightarrow> string list" where
  "split_on c [] = [[]]"
| "split_on c (d # s) =
     (if d = c then [] # split_on c s
      else (case split_on c s of [] \<Rightarrow> [[d]] | p # ps \<Rightarrow> (d # p) # ps))"

text \<open>\<open>splitn(2, c)\<close>: what stands before the first separator and, if there is one, the rest.\<close>

fun splitn2 :: "char \<Rightarrow> string \<Rightarrow> string list" where
  "splitn2 c [] = [[]]"
| "splitn2 c (d # s) =
     (if d = c then [[], s]
      else (case splitn2 c s of [] \<Rightarrow> [[d]] | p # ps \<Rightarrow> (d # p) # ps))"

lemma split_on_no_sep: "c \<notin> set p \<Longrightarrow> split_on c p = [p]"
  by (induction p) auto

lemma split_on_append_sep: "c \<notin> set p \<Longrightarrow> split_on c (p @ c # s) = p # split_on c s"
  by (induction p) auto

lemma splitn2_no_sep: "c \<notin> set p \<Longrightarrow> splitn2 c p = [p]"
  by (induction p) auto

lemma splitn2_append_sep: "c \<notin> set p \<Longrightarrow> splitn2 c (p @ c # s) = [p, s]"
  by (induction p) auto

lemma splitn2_pieces:
  "(\<exists>p. splitn2 c s = [p] \<and> s = p \<and> c \<notin> set p) \<or>
   (\<exists>p r. splitn2 c s = [p, r] \<and> s = p @ c # r \<and> c \<notin> set p)"
  by (induction s) auto

subsection \<open>Decimal numbers\<close>

definition digit_char :: "nat \<Rightarrow> char" where
  "digit_char d = char_of (48 + d)"

definition digit_value :: "char \<Rightarrow> nat option" where
  "digit_value c = (if 48 \<le> byte_of c \<and> byte_of c \<le> 57 then Some (byte_of c - 48) else None)"

fun show_nat :: "nat \<Rightarrow> string" where
  "show_nat n = (if n < 10 then [digit_char n] else show_nat (n div 10) @ [digit_char (n mod 10)])"

declare show_nat.simps [simp del]

fun parse_digits :: "nat \<Rightarrow> string \<Rightarrow> nat option" where
  "parse_digits acc [] = Some acc"
| "parse_digits acc (c # s) =
     (case digit_value c of None \<Rightarrow> None | Some d \<Rightarrow> parse_digits (10 * acc + d) s)"

text \<open>\<open>str::parse::<u64>\<close>: an optional plus sign, at least one digit, no overflow.\<close>

definition parse_u64 :: "string \<Rightarrow> u64 option" where
  "parse_u64 s =
     (let ds = (case s of c # r \<Rightarrow> if c = CHR ''+'' then r else s | [] \<Rightarrow> s)
      in if ds = [] then None
         else (case parse_digits 0 ds of
                 None \<Rightarrow> None
               | Some n \<Rightarrow> if n < 2 ^ 64 then Some (word_of_nat n) else None))"

definition show_u64 :: "u64 \<Rightarrow> string" where
  "show_u64 w = show_nat (unat w)"

lemma digit_value_digit_char: "d < 10 \<Longrightarrow> digit_value (digit_char d) = Some d"
  by (simp add: digit_value_def digit_char_def)

lemma parse_digits_append:
  "parse_digits acc (s @ t) =
     (case parse_digits acc s of None \<Rightarrow> None | Some v \<Rightarrow> parse_digits v t)"
  by (induction acc s rule: parse_digits.induct) (auto split: option.splits)

lemma parse_digits_show_nat: "parse_digits 0 (show_nat n) = Some n"
proof (induction n rule: show_nat.induct)
  case (1 n)
  show ?case
  proof (cases "n < 10")
    case True
    then show ?thesis by (subst show_nat.simps) (simp add: digit_value_digit_char)
  next
    case False
    with 1 have "parse_digits 0 (show_nat (n div 10)) = Some (n div 10)" by simp
    with False show ?thesis
      by (subst show_nat.simps)
        (simp add: parse_digits_append digit_value_digit_char)
  qed
qed

lemma show_nat_digits: "c \<in> set (show_nat n) \<Longrightarrow> 48 \<le> byte_of c \<and> byte_of c \<le> 57"
proof (induction n rule: show_nat.induct)
  case (1 n)
  have digit: "48 \<le> byte_of (digit_char d) \<and> byte_of (digit_char d) \<le> 57" if "d < 10" for d
    using that by (simp add: digit_char_def)
  show ?case
    using 1 digit [of n] digit [of "n mod 10"]
    by (subst (asm) (2) show_nat.simps) (auto split: if_splits)
qed

lemma show_nat_nonempty [simp]: "show_nat n \<noteq> []"
  by (subst show_nat.simps) simp

lemma show_nat_no_char: "\<not> (48 \<le> byte_of c \<and> byte_of c \<le> 57) \<Longrightarrow> c \<notin> set (show_nat n)"
  using show_nat_digits by blast

lemma parse_u64_show_nat: "n < 2 ^ 64 \<Longrightarrow> parse_u64 (show_nat n) = Some (word_of_nat n)"
proof -
  assume n: "n < 2 ^ 64"
  obtain c r where s: "show_nat n = c # r" by (cases "show_nat n") auto
  have "CHR ''+'' \<notin> set (show_nat n)" by (rule show_nat_no_char) simp
  with s have "c \<noteq> CHR ''+''" by auto
  with s n parse_digits_show_nat [of n] show ?thesis
    by (simp add: parse_u64_def)
qed

subsection \<open>Text codecs\<close>

text \<open>
  What a pair of a printer and a parser promises its users: printing loses nothing. An
  identifier that is printed for a client can be resolved again, and two values never
  share their text.
\<close>

locale text_codec =
  fixes enc :: "'a \<Rightarrow> string"
    and dec :: "string \<Rightarrow> 'a option"
  assumes dec_enc: "dec (enc x) = Some x"
begin

lemma enc_inject: "enc x = enc y \<longleftrightarrow> x = y"
  by (metis dec_enc option.inject)

lemma find_by_enc:
  "find (\<lambda>x. enc x = enc y) xs = (if y \<in> set xs then Some y else None)"
  by (induction xs) (auto simp: enc_inject)

lemma resolve_all: "map dec (map enc xs) = map Some xs"
  by (simp add: dec_enc)

end

interpretation decimal: text_codec show_u64 parse_u64
proof unfold_locales
  fix x :: u64
  show "parse_u64 (show_u64 x) = Some x"
    using parse_u64_show_nat [OF unat_u64_less [of x]] by (simp add: show_u64_def)
qed

end
