(* ===== verification/Codecs.thy ===== *)
theory Codecs
  imports Rust_String
begin

section \<open>Identifiers as text: \<open>format_scid\<close>, \<open>parse_scid\<close>, \<open>hex_string\<close>, \<open>decode_hex\<close>\<close>

text \<open>
  Short channel ids and hashes travel as text. The functions are at the end of
  \<open>src/lightning/ldk_service.rs\<close>; \<open>hex_payment_hash\<close> of \<open>src/lib.rs\<close> is
  \<open>hex_string\<close> again.
\<close>

unbundle bit_operations_syntax

subsection \<open>Short channel ids\<close>

definition format_scid :: "u64 \<Rightarrow> string" where
  "format_scid scid =
     (let block = drop_bit 40 scid;
          tx = drop_bit 16 scid AND 0xFFFFFF;
          vout = scid AND 0xFFFF
      in show_u64 block @ ''x'' @ show_u64 tx @ ''x'' @ show_u64 vout)"

definition parse_scid :: "string \<Rightarrow> u64 option" where
  "parse_scid s =
     (case split_on CHR ''x'' s of
        [p0, p1, p2] \<Rightarrow>
          (case parse_u64 p0 of None \<Rightarrow> None | Some block \<Rightarrow>
          (case parse_u64 p1 of None \<Rightarrow> None | Some tx \<Rightarrow>
          (case parse_u64 p2 of None \<Rightarrow> None | Some vout \<Rightarrow>
             Some (push_bit 40 block OR push_bit 16 tx OR vout))))
      | _ \<Rightarrow> None)"

lemma show_u64_no_x: "CHR ''x'' \<notin> set (show_u64 w)"
  unfolding show_u64_def by (rule show_nat_no_char) simp

lemma split_three:
  "split_on CHR ''x'' (show_u64 a @ CHR ''x'' # show_u64 b @ CHR ''x'' # show_u64 c) =
     [show_u64 a, show_u64 b, show_u64 c]"
  by (simp add: split_on_append_sep split_on_no_sep show_u64_no_x)

lemma scid_fields_join:
  "push_bit 40 (drop_bit 40 scid) OR push_bit 16 (drop_bit 16 scid AND 0xFFFFFF)
     OR (scid AND 0xFFFF) = (scid :: u64)"
proof (rule bit_word_eqI)
  fix n
  assume "n < LENGTH(64)"
  have "drop_bit 16 scid AND 0xFFFFFF = take_bit 24 (drop_bit 16 scid)"
    and "scid AND 0xFFFF = take_bit 16 scid"
    by (simp_all add: take_bit_eq_mask mask_eq_exp_minus_1)
  then show "bit (push_bit 40 (drop_bit 40 scid) OR push_bit 16 (drop_bit 16 scid AND 0xFFFFFF)
      OR (scid AND 0xFFFF)) n = bit scid n"
    using \<open>n < LENGTH(64)\<close>
    by (cases "n < 40") (auto simp: bit_or_iff bit_take_bit_iff bit_push_bit_iff bit_drop_bit_eq)
qed

interpretation scid: text_codec format_scid parse_scid
  by unfold_locales
    (simp only: parse_scid_def format_scid_def Let_def append.simps split_three list.case
      decimal.dec_enc option.case scid_fields_join)

subsection \<open>Hexadecimal\<close>

type_synonym u8 = "8 word"

definition hex_digit :: "nat \<Rightarrow> char" where
  "hex_digit d = (if d < 10 then char_of (48 + d) else char_of (87 + d))"

definition hex_byte :: "u8 \<Rightarrow> string" where
  "hex_byte b = [hex_digit (unat b div 16), hex_digit (unat b mod 16)]"

definition hex_string :: "u8 list \<Rightarrow> string" where
  "hex_string bytes = concat (List.map hex_byte bytes)"

definition hex_value :: "char \<Rightarrow> nat option" where
  "hex_value c =
     (let b = byte_of c in
      if 48 \<le> b \<and> b \<le> 57 then Some (b - 48)
      else if 97 \<le> b \<and> b \<le> 102 then Some (b - 87)
      else if 65 \<le> b \<and> b \<le> 70 then Some (b - 55)
      else None)"

text \<open>\<open>u8::from_str_radix\<close> on two bytes, base 16: a leading plus sign is accepted.\<close>

definition u8_from_hex :: "char \<Rightarrow> char \<Rightarrow> string + u8" where
  "u8_from_hex c d =
     (case (if c = CHR ''+'' then Some 0 else hex_value c, hex_value d) of
        (Some h, Some l) \<Rightarrow> Ok (word_of_nat (16 * h + l))
      | _ \<Rightarrow> Err ''invalid digit found in string'')"

definition continuation_byte :: "char \<Rightarrow> bool" where
  "continuation_byte c \<longleftrightarrow> 128 \<le> byte_of c \<and> byte_of c < 192"

text \<open>
  The slice \<open>s[i..i + 2]\<close> panics when a character of several bytes reaches across its
  end; the first pair that is no number ends the collection.
\<close>

fun decode_pairs :: "string \<Rightarrow> (string + u8 list) outcome" where
  "decode_pairs (c # d # s) =
     (if (case s of [] \<Rightarrow> False | e # _ \<Rightarrow> continuation_byte e) then Panicked
      else (case u8_from_hex c d of
              Err e \<Rightarrow> Returned (Err e)
            | Ok b \<Rightarrow>
               (case decode_pairs s of
                  Returned (Ok bs) \<Rightarrow> Returned (Ok (b # bs))
                | r \<Rightarrow> r)))"
| "decode_pairs _ = Returned (Ok [])"

definition decode_hex :: "string \<Rightarrow> (string + u8 list) outcome" where
  "decode_hex s =
     (if length s mod 2 \<noteq> 0 then Returned (Err ''odd-length hex string'')
      else decode_pairs s)"

definition decode_hex_value :: "string \<Rightarrow> u8 list option" where
  "decode_hex_value s = (case decode_hex s of Returned (Ok bs) \<Rightarrow> Some bs | _ \<Rightarrow> None)"

lemma unat_u8_less: "unat (b :: u8) < 256"
proof -
  have "unat b < 2 ^ LENGTH(8)" by (rule unsigned_less)
  then show ?thesis by simp
qed

lemma hex_value_hex_digit: "d < 16 \<Longrightarrow> hex_value (hex_digit d) = Some d"
  by (auto simp: hex_value_def hex_digit_def Let_def)

lemma byte_of_hex_digit: "d < 16 \<Longrightarrow> byte_of (hex_digit d) < 128 \<and> hex_digit d \<noteq> CHR ''+''"
proof -
  assume "d < 16"
  then have b: "byte_of (hex_digit d) = (if d < 10 then 48 + d else 87 + d)"
    by (simp add: hex_digit_def)
  have "byte_of (hex_digit d) \<noteq> byte_of CHR ''+''"
    using b by simp
  then show ?thesis using b \<open>d < 16\<close> by (auto split: if_splits)
qed

lemma u8_from_hex_byte:
  "u8_from_hex (hex_digit (unat b div 16)) (hex_digit (unat b mod 16)) = Ok b"
proof -
  have "unat b div 16 < 16" using unat_u8_less [of b] by simp
  moreover have "16 * (unat b div 16) + unat b mod 16 = unat b" by simp
  ultimately show ?thesis
    using byte_of_hex_digit [of "unat b div 16"]
    by (simp add: u8_from_hex_def hex_value_hex_digit)
qed

lemma decode_pairs_hex_string: "decode_pairs (hex_string bs) = Returned (Ok bs)"
proof (induction bs)
  case Nil
  then show ?case by (simp add: hex_string_def)
next
  case (Cons b bs)
  have ascii: "\<not> (case hex_string bs of [] \<Rightarrow> False | e # _ \<Rightarrow> continuation_byte e)"
  proof (cases bs)
    case Nil
    then show ?thesis by (simp add: hex_string_def)
  next
    case (Cons b' bs')
    have "unat b' div 16 < 16" using unat_u8_less [of b'] by simp
    with Cons show ?thesis
      using byte_of_hex_digit [of "unat b' div 16"]
      by (simp add: hex_string_def hex_byte_def continuation_byte_def)
  qed
  have "hex_string (b # bs) =
      hex_digit (unat b div 16) # hex_digit (unat b mod 16) # hex_string bs"
    by (simp add: hex_string_def hex_byte_def)
  with ascii Cons.IH show ?case by (simp add: u8_from_hex_byte)
qed

lemma length_hex_string: "length (hex_string bs) = 2 * length bs"
  by (induction bs) (simp_all add: hex_string_def hex_byte_def)

lemma decode_hex_string: "decode_hex (hex_string bs) = Returned (Ok bs)"
  by (simp add: decode_hex_def length_hex_string decode_pairs_hex_string)

interpretation hex: text_codec hex_string decode_hex_value
  by unfold_locales (simp add: decode_hex_value_def decode_hex_string)

end
