(* ===== verification/Nip47.thy ===== *)
theory Nip47
  imports Machine_Int Rust_String
begin

section \<open>The wallet protocol's vocabulary\<close>

text \<open>
  The types of the \<open>nip47\<close> crate as \<open>src/lib.rs\<close> uses them: its constructors, and of
  its structs the fields that the program reads or fills in. \<open>Method_Unknown\<close> stands
  for every method name the program does not name itself. \<open>Method::as_str\<close> belongs to
  the crate and is an argument of the definitions that call it.
\<close>

type_synonym pubkey = string

datatype nip47_method =
    Method_GetInfo | Method_GetBalance | Method_PayInvoice | Method_PayKeysend
  | Method_MakeInvoice | Method_LookupInvoice | Method_ListTransactions
  | Method_MakeHoldInvoice | Method_CancelHoldInvoice | Method_SettleHoldInvoice
  | Method_PayOnchain | Method_MakeNewAddress | Method_PayOffer | Method_MakeOffer
  | Method_LookupOffer | Method_LookupAddress | Method_ListInvoices | Method_ListOffers
  | Method_DisableOffer | Method_ListAddresses | Method_PayBip321 | Method_MakeBip321
  | Method_SubscribeNotifications | Method_EstimateOnchainFees | Method_EstimateRoutingFees
  | Method_Unknown string

datatype error_code =
    Restricted | Unauthorized | RateLimited | QuotaExceeded | Other | NotFound
  | NotImplemented | PaymentFailed | UnsupportedEncryption

record nip47_error =
  code :: error_code
  message :: string

datatype transaction_type = Incoming | Outgoing
datatype transaction_state = Pending | Settled | Failed | Accepted
datatype payment_method = Bolt11 | Bolt12 | Keysend

subsection \<open>Requests\<close>

record bip321_method_entry =
  entry_method :: string
  entry_expiry :: "u64 option"
  entry_address_type :: "string option"

datatype request_params =
    Params_GetInfo
  | Params_GetBalance
  | Params_PayInvoice string "u64 option"
      \<comment> \<open>invoice, amount\<close>
  | Params_PayKeysend pubkey u64
      \<comment> \<open>pubkey, amount\<close>
  | Params_MakeInvoice u64 "string option" "string option" "u64 option"
      \<comment> \<open>amount, description, description hash, expiry\<close>
  | Params_LookupInvoice "string option" "string option"
      \<comment> \<open>payment hash, invoice\<close>
  | Params_ListTransactions "u64 option" "u64 option" "u64 option" "u64 option"
      "bool option" "transaction_type option" "payment_method option"
      \<comment> \<open>from, until, limit, offset, unpaid, type, payment method\<close>
  | Params_MakeHoldInvoice string u64
      \<comment> \<open>payment hash, amount\<close>
  | Params_CancelHoldInvoice string
      \<comment> \<open>payment hash\<close>
  | Params_SettleHoldInvoice string
      \<comment> \<open>preimage\<close>
  | Params_PayOnchain string u64 "u64 option"
      \<comment> \<open>address, amount in sats, fee rate\<close>
  | Params_MakeNewAddress
  | Params_PayOffer string "u64 option" "string option"
      \<comment> \<open>offer, amount, payer note\<close>
  | Params_MakeOffer u64 string "u32 option"
      \<comment> \<open>amount, description, expiry\<close>
  | Params_LookupOffer string
  | Params_LookupAddress string
  | Params_ListInvoices "u64 option" "u64 option" "u64 option" "u64 option" "string option"
      \<comment> \<open>from, until, limit, offset, state\<close>
  | Params_ListOffers "bool option" "u64 option" "u64 option"
      \<comment> \<open>active only, limit, offset\<close>
  | Params_DisableOffer string
  | Params_ListAddresses "u64 option" "u64 option"
      \<comment> \<open>limit, offset\<close>
  | Params_PayBip321 string
  | Params_MakeBip321 "u64 option" "string option" "string option"
      "bip321_method_entry list option"
      \<comment> \<open>amount, label, message, methods\<close>
  | Params_SubscribeNotifications "string list"
  | Params_EstimateOnchainFees
  | Params_EstimateRoutingFees pubkey u64
      \<comment> \<open>destination, amount\<close>

record nip47_request =
  req_method :: nip47_method
  req_params :: request_params

subsection \<open>Responses\<close>

record bip321_method_info =
  info_method :: string
  info_address_types :: "string list option"

record get_info_response =
  gi_alias :: "string option"
  gi_color :: "string option"
  gi_pubkey :: "string option"
  gi_network :: "string option"
  gi_block_height :: "u32 option"
  gi_block_hash :: "string option"
  gi_methods :: "nip47_method list"
  gi_notifications :: "string list"
  gi_bip321_methods :: "bip321_method_info list option"

record get_balance_response =
  gb_balance :: u64
  gb_lightning_balance :: "u64 option"
  gb_onchain_balance_sats :: "u64 option"

record make_invoice_response =
  mi_invoice :: string
  mi_payment_hash :: "string option"
  mi_description :: "string option"
  mi_description_hash :: "string option"
  mi_preimage :: "string option"
  mi_amount :: "u64 option"
  mi_created_at :: "u64 option"
  mi_expires_at :: "u64 option"

record lookup_invoice_response =
  li_transaction_type :: "transaction_type option"
  li_state :: "transaction_state option"
  li_invoice :: "string option"
  li_description :: "string option"
  li_description_hash :: "string option"
  li_preimage :: "string option"
  li_payment_hash :: string
  li_amount :: u64
  li_fees_paid :: u64
  li_created_at :: "u64 option"
  li_expires_at :: "u64 option"
  li_settled_at :: "u64 option"
  li_payment_method :: "payment_method option"

record make_hold_invoice_response =
  mh_transaction_type :: transaction_type
  mh_invoice :: "string option"
  mh_description :: "string option"
  mh_description_hash :: "string option"
  mh_payment_hash :: string
  mh_amount :: u64
  mh_created_at :: u64
  mh_expires_at :: u64

record offer_entry =
  oe_offer :: string
  oe_description :: "string option"
  oe_amount :: "u64 option"
  oe_active :: bool
  oe_num_payments_received :: u64
  oe_total_received :: u64

record address_tx_entry =
  at_txid :: string
  at_amount_sats :: u64
  at_timestamp :: u64

record lookup_address_response =
  la_address :: string
  la_total_received_sats :: u64
  la_transactions :: "address_tx_entry list"

record invoice_entry =
  ie_invoice :: "string option"
  ie_description :: "string option"
  ie_payment_hash :: string
  ie_amount :: u64
  ie_state :: string
  ie_preimage :: "string option"
  ie_created_at :: "u64 option"
  ie_expires_at :: "u64 option"
  ie_settled_at :: "u64 option"

record pay_bip321_response =
  pb_preimage :: "string option"
  pb_txid :: "string option"
  pb_fees_paid :: "u64 option"
  pb_payment_method :: string

datatype response_result =
    Result_GetInfo get_info_response
  | Result_GetBalance get_balance_response
  | Result_PayInvoice string "u64 option"
      \<comment> \<open>preimage, fees paid\<close>
  | Result_PayKeysend string "u64 option"
  | Result_MakeInvoice make_invoice_response
  | Result_LookupInvoice lookup_invoice_response
  | Result_ListTransactions "lookup_invoice_response list"
  | Result_MakeHoldInvoice make_hold_invoice_response
  | Result_CancelHoldInvoice
  | Result_SettleHoldInvoice
  | Result_MakeNewAddress string
  | Result_PayOnchain string
  | Result_MakeOffer string "string option" "u64 option"
      \<comment> \<open>offer, description, amount\<close>
  | Result_PayOffer "string option" "u64 option"
  | Result_LookupOffer offer_entry
  | Result_LookupAddress lookup_address_response
  | Result_ListInvoices "invoice_entry list"
  | Result_ListOffers "offer_entry list"
  | Result_DisableOffer
  | Result_ListAddresses "(string \<times> u64) list"
      \<comment> \<open>address, total received in sats\<close>
  | Result_PayBip321 pay_bip321_response
  | Result_MakeBip321 string
  | Result_EstimateRoutingFees u64 u32
      \<comment> \<open>fee, time lock\<close>
  | Result_SubscribeNotifications

record nip47_response =
  result_type :: nip47_method
  error :: "nip47_error option"
  result :: "response_result option"

definition error_response :: "nip47_method \<Rightarrow> nip47_error \<Rightarrow> nip47_response" where
  "error_response m e = \<lparr>result_type = m, error = Some e, result = None\<rparr>"

definition ok_response :: "nip47_method \<Rightarrow> response_result \<Rightarrow> nip47_response" where
  "ok_response m r = \<lparr>result_type = m, error = None, result = Some r\<rparr>"

definition nip47_err :: "error_code \<Rightarrow> string \<Rightarrow> nip47_error" where
  "nip47_err c msg = \<lparr>code = c, message = msg\<rparr>"

lemma response_simps [simp]:
  "result_type (error_response m e) = m"
  "error (error_response m e) = Some e"
  "result (error_response m e) = None"
  "result_type (ok_response m r) = m"
  "error (ok_response m r) = None"
  "result (ok_response m r) = Some r"
  "code (nip47_err c msg) = c"
  "message (nip47_err c msg) = msg"
  by (simp_all add: error_response_def ok_response_def nip47_err_def)

lemma error_response_inject [simp]:
  "error_response m e = error_response m' e' \<longleftrightarrow> m = m' \<and> e = e'"
  "nip47_err c msg = nip47_err c' msg' \<longleftrightarrow> c = c' \<and> msg = msg'"
  by (auto simp: error_response_def nip47_err_def)

end
