(* ===== verification/Ldk_Node.thy ===== *)
theory Ldk_Node
  imports Codecs Nip47
begin

section \<open>The Lightning node as the program sees it\<close>

text \<open>
  The \<open>ldk_node\<close> crate is no part of this repository. What the service reads of its types
  are the records below; what it calls is the record \<open>ldk_api\<close> of functions, an argument
  of every definition that talks to the node. The node has a state of its own, a type
  variable, which a call may change; errors come as their printed text. Public keys and
  node ids are their bytes, so that they compare as in the crate.
\<close>

type_synonym node_id = "u8 list"
type_synonym payment_id = "u8 list"

datatype network = Regtest | Testnet | Bitcoin | Signet | Other_Network

subsection \<open>Payments\<close>

datatype payment_direction = Inbound | Outbound
datatype payment_status = Status_Pending | Status_Succeeded | Status_Failed

datatype payment_kind =
    Kind_Onchain
  | Kind_Bolt11 "u8 list" "u8 list option"
      \<comment> \<open>hash, preimage\<close>
  | Kind_Bolt11Jit "u8 list" "u8 list option"
  | Kind_Spontaneous "u8 list" "u8 list option"
  | Kind_Bolt12Offer "u8 list option" "u8 list option" "u8 list"
      \<comment> \<open>hash, preimage, offer id\<close>
  | Kind_Bolt12Refund "u8 list option" "u8 list option"

record payment_details =
  pd_id :: payment_id
  pd_kind :: payment_kind
  pd_amount_msat :: "u64 option"
  pd_fee_paid_msat :: "u64 option"
  pd_direction :: payment_direction
  pd_status :: payment_status
  pd_latest_update_timestamp :: u64

record bolt11_invoice =
  inv_text :: string
  inv_payment_hash :: string
  inv_amount_msat :: "u64 option"
  inv_expires_at :: "u64 option"

record parsed_offer =
  po_text :: string
  po_id :: "u8 list"

subsection \<open>Channels, peers and the network graph\<close>

record channel_config =
  forwarding_fee_base_msat :: u32
  forwarding_fee_proportional_millionths :: u32

record channel_details =
  cd_channel_id :: string
  cd_user_channel_id :: nat
  cd_counterparty :: node_id
  cd_is_channel_ready :: bool
  cd_is_usable :: bool
  cd_is_announced :: bool
  cd_short_channel_id :: "u64 option"
  cd_funding_txo :: "(string \<times> u32) option"
  cd_outbound_capacity_msat :: u64
  cd_inbound_capacity_msat :: u64
  cd_channel_value_sats :: u64
  cd_inbound_htlc_minimum_msat :: u64
  cd_inbound_htlc_maximum_msat :: "u64 option"
  cd_config :: channel_config

record peer_details =
  peer_node_id :: node_id
  peer_address :: string
  peer_is_connected :: bool

record channel_update =
  up_base_msat :: u32
  up_proportional_millionths :: u32
  up_htlc_minimum_msat :: u64
  up_htlc_maximum_msat :: u64
  up_cltv_expiry_delta :: u16
  up_enabled :: bool
  up_last_update :: u32

record graph_channel =
  gc_node_one :: node_id
  gc_node_two :: node_id
  gc_one_to_two :: "channel_update option"
  gc_two_to_one :: "channel_update option"
  gc_capacity_sats :: "u64 option"

record node_announcement =
  ann_alias :: string
  ann_rgb :: "u8 \<times> u8 \<times> u8"
  ann_addresses :: "string list"
  ann_last_update :: u32

record graph_node =
  gn_channels :: "u64 list"
  gn_announcement :: "node_announcement option"

subsection \<open>The calls\<close>

text \<open>
  The first group reads, the second parses and prints, the third acts. \<open>api_sleep\<close> is what
  happens to the node while the program sleeps: how many nanoseconds longer than asked it
  slept (\<open>thread::sleep\<close> sleeps at least as long as asked) and the node afterwards.
\<close>

record 'n ldk_api =
  api_node_id :: node_id
  api_best_block_height :: "'n \<Rightarrow> u32"
  api_list_balances :: "'n \<Rightarrow> u64 \<times> u64"
    \<comment> \<open>spendable on-chain sats, total lightning sats\<close>
  api_list_payments :: "'n \<Rightarrow> payment_details list"
  api_payment :: "payment_id \<Rightarrow> 'n \<Rightarrow> payment_details option"
  api_list_channels :: "'n \<Rightarrow> channel_details list"
  api_list_peers :: "'n \<Rightarrow> peer_details list"
  api_graph_nodes :: "'n \<Rightarrow> node_id list"
  api_graph_node :: "node_id \<Rightarrow> 'n \<Rightarrow> graph_node option"
  api_graph_channels :: "'n \<Rightarrow> u64 list"
  api_graph_channel :: "u64 \<Rightarrow> 'n \<Rightarrow> graph_channel option"
  api_parse_pubkey :: "string \<Rightarrow> string + node_id"
  api_show_pubkey :: "node_id \<Rightarrow> string"
  api_show_node_id :: "node_id \<Rightarrow> string"
  api_parse_socket :: "string \<Rightarrow> string + string"
  api_parse_invoice :: "string \<Rightarrow> string + bolt11_invoice"
  api_parse_offer :: "string \<Rightarrow> string + parsed_offer"
  api_parse_address :: "string \<Rightarrow> string + string"
  api_require_network :: "network \<Rightarrow> string \<Rightarrow> string + string"
  api_new_description :: "string \<Rightarrow> string + string"
  api_sync_wallets :: "'n \<Rightarrow> (string + unit) \<times> 'n"
  api_new_address :: "'n \<Rightarrow> (string + string) \<times> 'n"
  api_bolt11_receive :: "u64 \<Rightarrow> string \<Rightarrow> u32 \<Rightarrow> 'n \<Rightarrow> (string + bolt11_invoice) \<times> 'n"
  api_bolt11_send :: "bolt11_invoice \<Rightarrow> 'n \<Rightarrow> (string + payment_id) \<times> 'n"
  api_bolt11_send_using_amount :: "bolt11_invoice \<Rightarrow> u64 \<Rightarrow> 'n \<Rightarrow> (string + payment_id) \<times> 'n"
  api_spontaneous_send :: "u64 \<Rightarrow> node_id \<Rightarrow> 'n \<Rightarrow> (string + payment_id) \<times> 'n"
  api_bolt12_receive :: "u64 \<Rightarrow> string \<Rightarrow> u32 option \<Rightarrow> 'n \<Rightarrow> (string + string) \<times> 'n"
  api_bolt12_send :: "parsed_offer \<Rightarrow> string option \<Rightarrow> 'n \<Rightarrow> (string + payment_id) \<times> 'n"
  api_send_to_address :: "string \<Rightarrow> u64 \<Rightarrow> 'n \<Rightarrow> (string + string) \<times> 'n"
  api_open_channel :: "node_id \<Rightarrow> string \<Rightarrow> u64 \<Rightarrow> u64 option \<Rightarrow> 'n \<Rightarrow> (string + unit) \<times> 'n"
  api_connect :: "node_id \<Rightarrow> string \<Rightarrow> 'n \<Rightarrow> (string + unit) \<times> 'n"
  api_disconnect :: "node_id \<Rightarrow> 'n \<Rightarrow> (string + unit) \<times> 'n"
  api_close_channel :: "nat \<Rightarrow> node_id \<Rightarrow> 'n \<Rightarrow> (string + unit) \<times> 'n"
  api_force_close_channel :: "nat \<Rightarrow> node_id \<Rightarrow> string option \<Rightarrow> 'n \<Rightarrow> (string + unit) \<times> 'n"
  api_update_channel_config :: "nat \<Rightarrow> node_id \<Rightarrow> channel_config \<Rightarrow> 'n \<Rightarrow> (string + unit) \<times> 'n"
  api_stop :: "'n \<Rightarrow> (string + unit) \<times> 'n"
  api_sleep :: "'n \<Rightarrow> nat \<times> 'n"

text \<open>Sequencing of fallible calls that change the state.\<close>

definition sbind :: "('e + 'a) \<times> 'n \<Rightarrow> ('a \<Rightarrow> 'n \<Rightarrow> ('e + 'b) \<times> 'n) \<Rightarrow> ('e + 'b) \<times> 'n" where
  "sbind call f = (case call of (Err e, n) \<Rightarrow> (Err e, n) | (Ok x, n) \<Rightarrow> f x n)"

definition smap_err :: "('e \<Rightarrow> 'f) \<Rightarrow> ('e + 'a) \<times> 'n \<Rightarrow> ('f + 'a) \<times> 'n" where
  "smap_err f call = (map_err f (fst call), snd call)"

lemma sbind_simps [simp, result_simps]:
  "sbind (Err e, n) f = (Err e, n)"
  "sbind (Ok x, n) f = f x n"
  by (simp_all add: sbind_def)

lemma smap_err_simps [simp, result_simps]:
  "smap_err g (Err e, n) = (Err (g e), n)"
  "smap_err g (Ok x, n) = (Ok x, n)"
  by (simp_all add: smap_err_def)

lemma sbind_cases:
  obtains (err) e n where "call = (Err e, n)" "sbind call f = (Err e, n)"
  | (ok) x n where "call = (Ok x, n)" "sbind call f = f x n"
  by (cases call; cases "fst call") auto

end
