(* ===== verification/Demo_Node.thy ===== *)
theory Demo_Node
  imports Ldk_Node
begin

section \<open>A small node for examples\<close>

text \<open>
  An instance of the node's interface on which the theorems are tried out: a node that
  knows one channel, prints what it parses, and whose state is its list of payments. Every
  payment it sends succeeds at the second look.
\<close>

definition demo_bytes :: "string \<Rightarrow> u8 list" where
  "demo_bytes s = map (\<lambda>c. word_of_nat (byte_of c)) s"

definition demo_update :: channel_update where
  "demo_update = \<lparr>up_base_msat = 1, up_proportional_millionths = 100, up_htlc_minimum_msat = 1,
     up_htlc_maximum_msat = 1000000, up_cltv_expiry_delta = 40, up_enabled = True, up_last_update = 0\<rparr>"

definition demo_channel :: graph_channel where
  "demo_channel = \<lparr>gc_node_one = demo_bytes ''us'', gc_node_two = demo_bytes ''bob'',
     gc_one_to_two = Some demo_update, gc_two_to_one = None, gc_capacity_sats = Some 1000\<rparr>"

definition demo_invoice :: "string \<Rightarrow> bolt11_invoice" where
  "demo_invoice s = \<lparr>inv_text = s, inv_payment_hash = ''00'', inv_amount_msat = Some 9000, inv_expires_at = None\<rparr>"

definition demo_payment :: "payment_status \<Rightarrow> payment_details" where
  "demo_payment st = \<lparr>pd_id = [7], pd_kind = Kind_Bolt11 [1] (Some [2]), pd_amount_msat = Some 9000,
     pd_fee_paid_msat = Some 3, pd_direction = Outbound, pd_status = st, pd_latest_update_timestamp = 5\<rparr>"

definition demo_api :: "payment_details list ldk_api" where
  "demo_api =
     \<lparr>api_node_id = demo_bytes ''us'',
      api_best_block_height = (\<lambda>n. 100),
      api_list_balances = (\<lambda>n. (5, 7)),
      api_list_payments = (\<lambda>n. n),
      api_payment = (\<lambda>pid n. find (\<lambda>p. pd_id p = pid) n),
      api_list_channels = (\<lambda>n. []),
      api_list_peers = (\<lambda>n. []),
      api_graph_nodes = (\<lambda>n. []),
      api_graph_node = (\<lambda>nid n. None),
      api_graph_channels = (\<lambda>n. [42]),
      api_graph_channel = (\<lambda>scid n. if scid = 42 then Some demo_channel else None),
      api_parse_pubkey = (\<lambda>s. if s = [] then Err ''malformed public key'' else Ok (demo_bytes s)),
      api_show_pubkey = hex_string,
      api_show_node_id = hex_string,
      api_parse_socket = (\<lambda>s. Ok s),
      api_parse_invoice = (\<lambda>s. if s = [] then Err ''parse error'' else Ok (demo_invoice s)),
      api_parse_offer = (\<lambda>s. Ok \<lparr>po_text = s, po_id = demo_bytes s\<rparr>),
      api_parse_address = (\<lambda>s. Ok s),
      api_require_network = (\<lambda>net s. Ok s),
      api_new_description = (\<lambda>s. Ok s),
      api_sync_wallets = (\<lambda>n. (Ok (), n)),
      api_new_address = (\<lambda>n. (Ok ''bcrt1q'', n)),
      api_bolt11_receive = (\<lambda>a d e n. (Ok (demo_invoice d), n)),
      api_bolt11_send = (\<lambda>i n. (Ok [7], demo_payment Status_Pending # n)),
      api_bolt11_send_using_amount = (\<lambda>i a n. (Ok [7], demo_payment Status_Pending # n)),
      api_spontaneous_send = (\<lambda>a d n. (Ok [7], demo_payment Status_Pending # n)),
      api_bolt12_receive = (\<lambda>a d e n. (Ok ''lno1'', n)),
      api_bolt12_send = (\<lambda>po note n. (Ok [7], demo_payment Status_Pending # n)),
      api_send_to_address = (\<lambda>addr a n. (Ok ''txid'', n)),
      api_open_channel = (\<lambda>nid addr a push n. (Ok (), n)),
      api_connect = (\<lambda>nid addr n. (Ok (), n)),
      api_disconnect = (\<lambda>nid n. (Ok (), n)),
      api_close_channel = (\<lambda>u nid n. (Ok (), n)),
      api_force_close_channel = (\<lambda>u nid reason n. (Ok (), n)),
      api_update_channel_config = (\<lambda>u nid c n. (Ok (), n)),
      api_stop = (\<lambda>n. (Ok (), n)),
      api_sleep = (\<lambda>n. (0, map (\<lambda>p. p\<lparr>pd_status := Status_Succeeded\<rparr>) n))\<rparr>"

end
