(* ===== verification/Hash_Map.thy ===== *)
theory Hash_Map
  imports Prelude "HOL-Library.AList"
begin

section \<open>Hash maps that the program iterates over\<close>

text \<open>
  A \<open>HashMap\<close> whose entries the program also walks through is a list of entries with
  distinct keys. The standard library leaves the order of iteration open; here it is the
  order of the list, and what is proved about a walk holds whatever that order is.
\<close>

type_synonym ('k, 'v) hash_map = "('k \<times> 'v) list"

definition wf_hash_map :: "('k, 'v) hash_map \<Rightarrow> bool" where
  "wf_hash_map m \<longleftrightarrow> distinct (map fst m)"

definition hm_get :: "('k, 'v) hash_map \<Rightarrow> 'k \<Rightarrow> 'v option" where
  "hm_get m k = map_of m k"

definition hm_insert :: "'k \<Rightarrow> 'v \<Rightarrow> ('k, 'v) hash_map \<Rightarrow> ('k, 'v) hash_map" where
  "hm_insert k v m = AList.update k v m"

definition hm_remove :: "'k \<Rightarrow> ('k, 'v) hash_map \<Rightarrow> ('k, 'v) hash_map" where
  "hm_remove k m = AList.delete k m"

definition hm_contains_key :: "('k, 'v) hash_map \<Rightarrow> 'k \<Rightarrow> bool" where
  "hm_contains_key m k \<longleftrightarrow> map_of m k \<noteq> None"

definition hm_values :: "('k, 'v) hash_map \<Rightarrow> 'v list" where
  "hm_values m = map snd m"

text \<open>\<open>get_mut\<close> followed by an assignment through the reference\<close>

fun hm_modify :: "'k \<Rightarrow> ('v \<Rightarrow> 'v) \<Rightarrow> ('k, 'v) hash_map \<Rightarrow> ('k, 'v) hash_map" where
  "hm_modify k f [] = []"
| "hm_modify k f ((k', v) # m) = (if k' = k then (k', f v) # m else (k', v) # hm_modify k f m)"

named_theorems hash_map_simps "lookups after the operations of a hash map"

lemma hm_get_insert [hash_map_simps]: "hm_get (hm_insert k v m) = (hm_get m)(k \<mapsto> v)"
  by (simp add: hm_get_def hm_insert_def update_conv' fun_eq_iff)

lemma hm_get_remove [hash_map_simps]: "hm_get (hm_remove k m) = (hm_get m)(k := None)"
  by (simp add: hm_get_def hm_remove_def delete_conv' fun_eq_iff)

lemma hm_get_modify [hash_map_simps]:
  "hm_get (hm_modify k f m) = (hm_get m)(k := map_option f (hm_get m k))"
  by (induction k f m rule: hm_modify.induct) (auto simp: hm_get_def)

lemma hm_get_Nil [hash_map_simps]: "hm_get [] = Map.empty"
  by (simp add: hm_get_def fun_eq_iff)

lemma hm_contains_key_get [hash_map_simps]: "hm_contains_key m k \<longleftrightarrow> hm_get m k \<noteq> None"
  by (simp add: hm_contains_key_def hm_get_def)

lemma fst_hm_modify [simp]: "map fst (hm_modify k f m) = map fst m"
  by (induction k f m rule: hm_modify.induct) auto

lemma wf_hash_map_ops [wf_intros]:
  "wf_hash_map []"
  "wf_hash_map m \<Longrightarrow> wf_hash_map (hm_insert k v m)"
  "wf_hash_map m \<Longrightarrow> wf_hash_map (hm_remove k m)"
  "wf_hash_map m \<Longrightarrow> wf_hash_map (hm_modify k f m)"
  by (simp_all add: wf_hash_map_def hm_insert_def hm_remove_def distinct_update distinct_delete)

lemma hm_get_iff: "wf_hash_map m \<Longrightarrow> hm_get m k = Some v \<longleftrightarrow> (k, v) \<in> set m"
  by (simp add: wf_hash_map_def hm_get_def)

lemma hm_get_SomeD: "hm_get m k = Some v \<Longrightarrow> (k, v) \<in> set m"
  by (simp add: hm_get_def map_of_SomeD)

lemma hm_get_NoneD: "hm_get m k = None \<Longrightarrow> (k, v) \<notin> set m"
  by (metis hm_get_def option.distinct(1) weak_map_of_SomeI)

lemma hm_values_iff: "wf_hash_map m \<Longrightarrow> v \<in> set (hm_values m) \<longleftrightarrow> (\<exists>k. hm_get m k = Some v)"
  by (force simp: hm_values_def hm_get_iff)

interpretation hash_map: keyed_store hm_get hm_insert "\<lambda>_. []" wf_hash_map "\<lambda>_. True"
  by unfold_locales (auto simp: hash_map_simps intro: wf_intros)

subsection \<open>Pages of a list\<close>

text \<open>
  The three ways the program cuts a page out of a list: \<open>skip\<close> and \<open>take\<close>, the same only
  when an offset or a limit is given, and \<open>split_off\<close>, \<open>clear\<close> and \<open>truncate\<close>.
\<close>

definition page :: "nat \<Rightarrow> nat option \<Rightarrow> 'a list \<Rightarrow> 'a list" where
  "page offset limit xs =
     (case limit of None \<Rightarrow> drop offset xs | Some l \<Rightarrow> take l (drop offset xs))"

lemma length_page: "length (page offset (Some l) xs) \<le> l"
  by (simp add: page_def)

lemma set_page: "set (page offset limit xs) \<subseteq> set xs"
  by (auto simp: page_def split: option.splits dest: in_set_takeD in_set_dropD)

lemma page_append:
  "page offset (Some (l + n)) xs = page offset (Some l) xs @ page (offset + l) (Some n) xs"
  by (simp add: page_def take_add add.commute)

text \<open>Reading page after page of a positive size gives back the whole list.\<close>

lemma pages_cover:
  assumes "0 < l"
  shows "concat (map (\<lambda>i. page (i * l) (Some l) xs) [0..<length xs]) = xs"
proof -
  have "concat (map (\<lambda>i. page (i * l) (Some l) xs) [0..<n]) = take (n * l) xs" for n
    by (induction n) (simp_all add: page_def take_add [symmetric] add.commute)
  moreover have "length xs \<le> length xs * l" using assms by simp
  ultimately show ?thesis by simp
qed

end
