(* ===== verification/Ldk_Service.thy ===== *)
theory Ldk_Service
  imports Demo_Node Hash_Map
begin

section \<open>The Lightning service: \<open>src/lightning/ldk_service.rs\<close>\<close>

text \<open>
  The configuration and its checks, the errors and their texts, and one definition per
  method of \<open>LdkService\<close>. A method that only reads returns its value, one that acts
  returns its result with the new state of the node. The search for routes has a theory
  of its own.
\<close>

subsection \<open>Configuration\<close>

record ldk_service_config =
  cfg_network :: string
  cfg_bitcoind_rpc_host :: string
  cfg_bitcoind_rpc_port :: u16
  cfg_bitcoind_rpc_user :: string
  cfg_bitcoind_rpc_password :: string
  cfg_ldk_storage_dir :: string
  cfg_ldk_listen_addr :: "string option"
  cfg_node_alias :: "string option"

datatype ldk_service_init_error =
    InvalidNetwork string
  | InvalidListeningAddress string
  | InvalidConfig string
  | BuildFailed string
  | StartFailed string

definition parse_network :: "ldk_service_config \<Rightarrow> ldk_service_init_error + network" where
  "parse_network cfg =
     (let n = to_lowercase (cfg_network cfg) in
      if n = ''regtest'' then Ok Regtest
      else if n = ''testnet'' then Ok Testnet
      else if n = ''bitcoin'' \<or> n = ''mainnet'' then Ok Bitcoin
      else if n = ''signet'' then Ok Signet
      else Err (InvalidNetwork n))"

definition validate_config :: "ldk_service_config \<Rightarrow> ldk_service_init_error + unit" where
  "validate_config cfg =
     (if trim_is_empty (cfg_bitcoind_rpc_host cfg) then Err (InvalidConfig ''bitcoind_rpc_host must not be empty'')
      else if trim_is_empty (cfg_bitcoind_rpc_user cfg) then Err (InvalidConfig ''bitcoind_rpc_user must not be empty'')
      else if trim_is_empty (cfg_bitcoind_rpc_password cfg) then Err (InvalidConfig ''bitcoind_rpc_password must not be empty'')
      else if trim_is_empty (cfg_ldk_storage_dir cfg) then Err (InvalidConfig ''ldk_storage_dir must not be empty'')
      else Ok ())"

fun show_init_error :: "ldk_service_init_error \<Rightarrow> string" where
  "show_init_error (InvalidNetwork n) = ''unsupported network for LdkService: '' @ n"
| "show_init_error (InvalidListeningAddress a) = ''invalid ldk_listen_addr: '' @ a"
| "show_init_error (InvalidConfig msg) = ''invalid LdkService config: '' @ msg"
| "show_init_error (BuildFailed msg) = ''failed to build LdkService node: '' @ msg"
| "show_init_error (StartFailed msg) = ''failed to start LdkService node: '' @ msg"

text \<open>
  The builder of the crate as the start-up calls it: its state, the setters, and the
  building and starting of the node.
\<close>

record ('b, 'n) node_builder =
  builder_new :: 'b
  builder_set_network :: "network \<Rightarrow> 'b \<Rightarrow> 'b"
  builder_set_chain_source :: "string \<Rightarrow> u16 \<Rightarrow> string \<Rightarrow> string \<Rightarrow> 'b \<Rightarrow> 'b"
  builder_set_storage_dir :: "string \<Rightarrow> 'b \<Rightarrow> 'b"
  builder_parse_socket :: "string \<Rightarrow> string + string"
  builder_set_listening_addresses :: "string list \<Rightarrow> 'b \<Rightarrow> string + 'b"
  builder_set_alias :: "string \<Rightarrow> 'b \<Rightarrow> string + 'b"
  builder_build :: "'b \<Rightarrow> string + 'n"
  builder_start :: "'n \<Rightarrow> string + 'n"

definition start_from_config ::
    "('b, 'n) node_builder \<Rightarrow> ldk_service_config \<Rightarrow> ldk_service_init_error + network \<times> 'n" where
  "start_from_config bld cfg =
     rbind (validate_config cfg) (\<lambda>_.
     rbind (parse_network cfg) (\<lambda>network.
       let b0 = builder_set_storage_dir bld (cfg_ldk_storage_dir cfg)
                  (builder_set_chain_source bld (cfg_bitcoind_rpc_host cfg) (cfg_bitcoind_rpc_port cfg)
                    (cfg_bitcoind_rpc_user cfg) (cfg_bitcoind_rpc_password cfg)
                    (builder_set_network bld network (builder_new bld)))
       in
       rbind (case cfg_ldk_listen_addr cfg of
                None \<Rightarrow> Ok b0
              | Some listen_addr \<Rightarrow>
                 rbind (map_err (\<lambda>_. InvalidListeningAddress listen_addr) (builder_parse_socket bld listen_addr)) (\<lambda>socket.
                   map_err BuildFailed (builder_set_listening_addresses bld [socket] b0))) (\<lambda>b1.
       rbind (case cfg_node_alias cfg of
                None \<Rightarrow> Ok b1
              | Some alias \<Rightarrow>
                 map_err (\<lambda>e. BuildFailed (''invalid node alias: '' @ e)) (builder_set_alias bld alias b1)) (\<lambda>b2.
       rbind (map_err BuildFailed (builder_build bld b2)) (\<lambda>node.
       rbind (map_err StartFailed (builder_start bld node)) (\<lambda>node'.
         Ok (network, node')))))))"

subsection \<open>Errors\<close>

datatype ldk_service_error =
    SyncFailed string
  | AddressGenerationFailed string
  | BalanceOverflow u64
  | InvalidInvoice string
  | InvalidInvoiceRequest string
  | InvalidPubkey string
  | InvalidAmount u64
  | ChannelFailed string
  | PeerFailed string
  | LdkPaymentFailed string
  | PaymentNotFound string
  | InvalidAddress string
  | OfferFailed string
  | StopFailed string

fun show_ldk_error :: "ldk_service_error \<Rightarrow> string" where
  "show_ldk_error (SyncFailed msg) = ''ldk wallet sync failed: '' @ msg"
| "show_ldk_error (AddressGenerationFailed msg) = ''ldk address generation failed: '' @ msg"
| "show_ldk_error (BalanceOverflow sats) = ''balance conversion overflow for sats='' @ show_u64 sats"
| "show_ldk_error (InvalidInvoice msg) = ''invalid invoice: '' @ msg"
| "show_ldk_error (InvalidInvoiceRequest msg) = ''invalid invoice request: '' @ msg"
| "show_ldk_error (InvalidPubkey msg) = ''invalid pubkey: '' @ msg"
| "show_ldk_error (InvalidAmount amount) = ''invalid amount: '' @ show_u64 amount"
| "show_ldk_error (ChannelFailed msg) = ''channel operation failed: '' @ msg"
| "show_ldk_error (PeerFailed msg) = ''peer operation failed: '' @ msg"
| "show_ldk_error (LdkPaymentFailed msg) = ''payment failed: '' @ msg"
| "show_ldk_error (PaymentNotFound msg) = ''payment not found: '' @ msg"
| "show_ldk_error (InvalidAddress msg) = ''invalid address: '' @ msg"
| "show_ldk_error (OfferFailed msg) = ''offer operation failed: '' @ msg"
| "show_ldk_error (StopFailed msg) = ''ldk node stop failed: '' @ msg"

subsection \<open>Node, balance, addresses\<close>

definition node_id_string :: "'n ldk_api \<Rightarrow> string" where
  "node_id_string api = api_show_pubkey api (api_node_id api)"

fun network_name :: "network \<Rightarrow> string" where
  "network_name Regtest = ''regtest''"
| "network_name Testnet = ''testnet''"
| "network_name Bitcoin = ''bitcoin''"
| "network_name Signet = ''signet''"
| "network_name Other_Network = ''unknown''"

record ldk_balance =
  total_msat :: u64
  lightning_msat :: u64
  onchain_msat :: u64

definition sync_wallets :: "'n ldk_api \<Rightarrow> 'n \<Rightarrow> (ldk_service_error + unit) \<times> 'n" where
  "sync_wallets api n = smap_err SyncFailed (api_sync_wallets api n)"

definition get_balance :: "'n ldk_api \<Rightarrow> 'n \<Rightarrow> ldk_service_error + ldk_balance" where
  "get_balance api n =
     (case api_list_balances api n of (onchain_sats, lightning_sats) \<Rightarrow>
       rbind (ok_or (BalanceOverflow onchain_sats) (u64_checked_mul onchain_sats 1000)) (\<lambda>onchain.
       rbind (ok_or (BalanceOverflow lightning_sats) (u64_checked_mul lightning_sats 1000)) (\<lambda>lightning.
       rbind (ok_or (BalanceOverflow (onchain_sats + lightning_sats)) (u64_checked_add onchain lightning)) (\<lambda>total.
         Ok \<lparr>total_msat = total, lightning_msat = lightning, onchain_msat = onchain\<rparr>))))"

definition get_balance_msat :: "'n ldk_api \<Rightarrow> 'n \<Rightarrow> ldk_service_error + u64" where
  "get_balance_msat api n = rbind (get_balance api n) (\<lambda>b. Ok (total_msat b))"

definition new_onchain_address :: "'n ldk_api \<Rightarrow> 'n \<Rightarrow> (ldk_service_error + string) \<times> 'n" where
  "new_onchain_address api n = smap_err AddressGenerationFailed (api_new_address api n)"

subsection \<open>Invoices\<close>

record ldk_invoice_result =
  lir_invoice :: string
  lir_payment_hash :: "string option"
  lir_amount_msat :: "u64 option"
  lir_expires_at :: "u64 option"

definition make_invoice ::
    "'n ldk_api \<Rightarrow> u64 \<Rightarrow> string option \<Rightarrow> string option \<Rightarrow> u64 option \<Rightarrow> 'n \<Rightarrow>
       (ldk_service_error + ldk_invoice_result) \<times> 'n" where
  "make_invoice api amount description description_hash expiry_secs n =
     (if amount = 0 then (Err (InvalidAmount amount), n)
      else if description_hash \<noteq> None
      then (Err (InvalidInvoiceRequest ''description_hash is not supported yet''), n)
      else
        let description_value = (case description of None \<Rightarrow> ''nwc invoice'' | Some d \<Rightarrow> d) in
        sbind (map_err InvalidInvoiceRequest (api_new_description api description_value), n) (\<lambda>desc n.
        sbind ((case expiry_secs of
                  None \<Rightarrow> Ok 3600
                | Some secs \<Rightarrow> ok_or (InvalidInvoiceRequest ''expiry exceeds u32::MAX'') (u32_try_from_u64 secs)), n) (\<lambda>expiry n.
        sbind (smap_err InvalidInvoiceRequest (api_bolt11_receive api amount desc expiry n)) (\<lambda>invoice n.
          (Ok \<lparr>lir_invoice = inv_text invoice, lir_payment_hash = Some (inv_payment_hash invoice),
               lir_amount_msat = inv_amount_msat invoice, lir_expires_at = inv_expires_at invoice\<rparr>, n)))))"

subsection \<open>Waiting for the outcome of a payment\<close>

record ldk_payment_result =
  lpr_preimage :: string
  lpr_fees_paid_msat :: "u64 option"

fun kind_preimage :: "payment_kind \<Rightarrow> u8 list option" where
  "kind_preimage (Kind_Bolt11 h p) = p"
| "kind_preimage (Kind_Bolt11Jit h p) = p"
| "kind_preimage (Kind_Spontaneous h p) = p"
| "kind_preimage (Kind_Bolt12Offer h p oid) = p"
| "kind_preimage (Kind_Bolt12Refund h p) = p"
| "kind_preimage Kind_Onchain = None"

text \<open>One look at the list of payments: an outcome, or nothing yet.\<close>

definition poll_payment ::
    "'n ldk_api \<Rightarrow> payment_id \<Rightarrow> 'n \<Rightarrow> (ldk_service_error + ldk_payment_result) option" where
  "poll_payment api pid n =
     (case find (\<lambda>p. pd_id p = pid \<and> pd_direction p = Outbound) (api_list_payments api n) of
        None \<Rightarrow> None
      | Some p \<Rightarrow>
         (case pd_status p of
            Status_Succeeded \<Rightarrow>
              Some (rbind (ok_or (LdkPaymentFailed ''payment succeeded but preimage missing'')
                             (kind_preimage (pd_kind p))) (\<lambda>preimage.
                Ok \<lparr>lpr_preimage = hex_string preimage, lpr_fees_paid_msat = pd_fee_paid_msat p\<rparr>))
          | Status_Failed \<Rightarrow> Some (Err (LdkPaymentFailed ''payment marked failed''))
          | Status_Pending \<Rightarrow> None))"

text \<open>The loop, with the nanoseconds since it started.\<close>

function wait_loop ::
    "'n ldk_api \<Rightarrow> payment_id \<Rightarrow> nat \<Rightarrow> 'n \<Rightarrow> (ldk_service_error + ldk_payment_result) \<times> 'n" where
  "wait_loop api pid elapsed n =
     (case poll_payment api pid n of
        Some outcome \<Rightarrow> (outcome, n)
      | None \<Rightarrow>
         if elapsed > 60000000000
         then (Err (LdkPaymentFailed ''timeout waiting for payment outcome''), n)
         else (case api_sleep api n of
                 (extra, n') \<Rightarrow> wait_loop api pid (elapsed + 100000000 + extra) n'))"
  by pat_completeness auto
termination
  by (relation "measure (\<lambda>(api, pid, elapsed, n). 60000000001 - elapsed)") auto

declare wait_loop.simps [simp del]

definition wait_for_outbound_payment ::
    "'n ldk_api \<Rightarrow> payment_id \<Rightarrow> 'n \<Rightarrow> (ldk_service_error + ldk_payment_result) \<times> 'n" where
  "wait_for_outbound_payment api pid n = wait_loop api pid 0 n"

subsection \<open>Payments\<close>

definition pay_invoice ::
    "'n ldk_api \<Rightarrow> string \<Rightarrow> u64 option \<Rightarrow> 'n \<Rightarrow> (ldk_service_error + ldk_payment_result) \<times> 'n" where
  "pay_invoice api invoice_str amount n =
     sbind (map_err InvalidInvoice (api_parse_invoice api invoice_str), n) (\<lambda>invoice n.
     sbind (case amount of
              Some a \<Rightarrow> smap_err LdkPaymentFailed (api_bolt11_send_using_amount api invoice a n)
            | None \<Rightarrow> smap_err LdkPaymentFailed (api_bolt11_send api invoice n)) (\<lambda>pid n.
       wait_for_outbound_payment api pid n))"

definition pay_keysend ::
    "'n ldk_api \<Rightarrow> string \<Rightarrow> u64 \<Rightarrow> 'n \<Rightarrow> (ldk_service_error + ldk_payment_result) \<times> 'n" where
  "pay_keysend api dest amount n =
     (if amount = 0 then (Err (InvalidAmount amount), n)
      else
        sbind (map_err InvalidPubkey (api_parse_pubkey api dest), n) (\<lambda>node n.
        sbind (smap_err LdkPaymentFailed (api_spontaneous_send api amount node n)) (\<lambda>pid n.
          wait_for_outbound_payment api pid n)))"

definition pay_onchain ::
    "'n ldk_api \<Rightarrow> network \<Rightarrow> string \<Rightarrow> u64 \<Rightarrow> u64 option \<Rightarrow> 'n \<Rightarrow> (ldk_service_error + string) \<times> 'n" where
  "pay_onchain api net address sats feerate n =
     sbind (map_err InvalidAddress (api_parse_address api address), n) (\<lambda>unchecked n.
     sbind (map_err InvalidAddress (api_require_network api net unchecked), n) (\<lambda>addr n.
       smap_err LdkPaymentFailed (api_send_to_address api addr sats n)))"

definition make_offer ::
    "'n ldk_api \<Rightarrow> u64 \<Rightarrow> string \<Rightarrow> u32 option \<Rightarrow> 'n \<Rightarrow> (ldk_service_error + string) \<times> 'n" where
  "make_offer api amount description expiry n =
     smap_err OfferFailed (api_bolt12_receive api amount description expiry n)"

text \<open>The amount is not passed on: the node pays what the offer asks for.\<close>

definition pay_offer ::
    "'n ldk_api \<Rightarrow> string \<Rightarrow> u64 option \<Rightarrow> string option \<Rightarrow> 'n \<Rightarrow>
       (ldk_service_error + ldk_payment_result) \<times> 'n" where
  "pay_offer api offer_str amount payer_note n =
     sbind (map_err (\<lambda>e. OfferFailed (''invalid offer: '' @ e)) (api_parse_offer api offer_str), n) (\<lambda>offer n.
     sbind (smap_err LdkPaymentFailed (api_bolt12_send api offer payer_note n)) (\<lambda>pid n.
       wait_for_outbound_payment api pid n))"

subsection \<open>Channels and peers\<close>

record ldk_channel_info =
  ch_id :: string
  ch_short_channel_id :: "string option"
  ch_peer_pubkey :: string
  ch_state :: string
  ch_is_private :: bool
  ch_local_balance :: u64
  ch_remote_balance :: u64
  ch_capacity :: u64
  ch_funding_txid :: "string option"
  ch_funding_output_index :: "u32 option"

record ldk_peer_info =
  pi_pubkey :: string
  pi_address :: string
  pi_connected :: bool
  pi_alias :: "string option"
  pi_num_channels :: usize

record ldk_channel_fees =
  cf_id :: string
  cf_short_channel_id :: "string option"
  cf_peer_pubkey :: string
  cf_base_fee :: u32
  cf_fee_rate :: u32
  cf_min_htlc :: u64
  cf_max_htlc :: "u64 option"

definition open_channel ::
    "'n ldk_api \<Rightarrow> string \<Rightarrow> string \<Rightarrow> u64 \<Rightarrow> u64 option \<Rightarrow> 'n \<Rightarrow> (ldk_service_error + unit) \<times> 'n" where
  "open_channel api pubkey addr sats push n =
     sbind (map_err InvalidPubkey (api_parse_pubkey api pubkey), n) (\<lambda>node n.
     sbind (map_err ChannelFailed (api_parse_socket api addr), n) (\<lambda>socket n.
       smap_err ChannelFailed (api_open_channel api node socket sats push n)))"

definition connect_peer :: "'n ldk_api \<Rightarrow> string \<Rightarrow> string \<Rightarrow> 'n \<Rightarrow> (ldk_service_error + unit) \<times> 'n" where
  "connect_peer api pubkey addr n =
     sbind (map_err InvalidPubkey (api_parse_pubkey api pubkey), n) (\<lambda>node n.
     sbind (map_err PeerFailed (api_parse_socket api addr), n) (\<lambda>socket n.
       smap_err PeerFailed (api_connect api node socket n)))"

definition disconnect_peer :: "'n ldk_api \<Rightarrow> string \<Rightarrow> 'n \<Rightarrow> (ldk_service_error + unit) \<times> 'n" where
  "disconnect_peer api pubkey n =
     sbind (map_err InvalidPubkey (api_parse_pubkey api pubkey), n) (\<lambda>node n.
       smap_err PeerFailed (api_disconnect api node n))"

definition stop_node :: "'n ldk_api \<Rightarrow> 'n \<Rightarrow> (ldk_service_error + unit) \<times> 'n" where
  "stop_node api n = smap_err StopFailed (api_stop api n)"

definition has_ready_channel_with :: "'n ldk_api \<Rightarrow> string \<Rightarrow> 'n \<Rightarrow> bool" where
  "has_ready_channel_with api pubkey n =
     (case api_parse_pubkey api pubkey of
        Err _ \<Rightarrow> False
      | Ok counterparty \<Rightarrow>
         list_ex (\<lambda>c. cd_counterparty c = counterparty \<and> cd_is_channel_ready c) (api_list_channels api n))"

definition has_channel_with :: "'n ldk_api \<Rightarrow> string \<Rightarrow> 'n \<Rightarrow> bool" where
  "has_channel_with api pubkey n =
     (case api_parse_pubkey api pubkey of
        Err _ \<Rightarrow> False
      | Ok counterparty \<Rightarrow> list_ex (\<lambda>c. cd_counterparty c = counterparty) (api_list_channels api n))"

definition channel_state_name :: "channel_details \<Rightarrow> string" where
  "channel_state_name c =
     (if cd_is_channel_ready c \<and> cd_is_usable c then ''active''
      else if cd_is_channel_ready c then ''inactive''
      else ''pending_open'')"

definition list_channels :: "'n ldk_api \<Rightarrow> 'n \<Rightarrow> ldk_channel_info list" where
  "list_channels api n =
     map (\<lambda>c. \<lparr>ch_id = cd_channel_id c,
       ch_short_channel_id = map_option format_scid (cd_short_channel_id c),
       ch_peer_pubkey = api_show_pubkey api (cd_counterparty c),
       ch_state = channel_state_name c,
       ch_is_private = (\<not> cd_is_announced c),
       ch_local_balance = cd_outbound_capacity_msat c,
       ch_remote_balance = cd_inbound_capacity_msat c,
       ch_capacity = cd_channel_value_sats c * 1000,
       ch_funding_txid = map_option fst (cd_funding_txo c),
       ch_funding_output_index = map_option snd (cd_funding_txo c)\<rparr>) (api_list_channels api n)"

definition find_channel :: "'n ldk_api \<Rightarrow> string \<Rightarrow> 'n \<Rightarrow> ldk_service_error + channel_details" where
  "find_channel api channel_id n =
     ok_or (ChannelFailed (''channel not found: '' @ channel_id))
       (find (\<lambda>c. cd_channel_id c = channel_id) (api_list_channels api n))"

definition close_channel :: "'n ldk_api \<Rightarrow> string \<Rightarrow> bool \<Rightarrow> 'n \<Rightarrow> (ldk_service_error + unit) \<times> 'n" where
  "close_channel api channel_id force n =
     sbind (find_channel api channel_id n, n) (\<lambda>details n.
       smap_err ChannelFailed
         (if force
          then api_force_close_channel api (cd_user_channel_id details) (cd_counterparty details)
                 (Some ''closed via control API'') n
          else api_close_channel api (cd_user_channel_id details) (cd_counterparty details) n))"

definition list_peers :: "'n ldk_api \<Rightarrow> 'n \<Rightarrow> ldk_peer_info list" where
  "list_peers api n =
     map (\<lambda>p. \<lparr>pi_pubkey = api_show_pubkey api (peer_node_id p),
       pi_address = peer_address p,
       pi_connected = peer_is_connected p,
       pi_alias = None,
       pi_num_channels = word_of_nat (length
         (filter (\<lambda>c. cd_counterparty c = peer_node_id p) (api_list_channels api n)))\<rparr>) (api_list_peers api n)"

definition get_channel_fees :: "'n ldk_api \<Rightarrow> string option \<Rightarrow> 'n \<Rightarrow> ldk_channel_fees list" where
  "get_channel_fees api channel_id n =
     map (\<lambda>c. \<lparr>cf_id = cd_channel_id c,
       cf_short_channel_id = map_option format_scid (cd_short_channel_id c),
       cf_peer_pubkey = api_show_pubkey api (cd_counterparty c),
       cf_base_fee = forwarding_fee_base_msat (cd_config c),
       cf_fee_rate = forwarding_fee_proportional_millionths (cd_config c),
       cf_min_htlc = cd_inbound_htlc_minimum_msat c,
       cf_max_htlc = cd_inbound_htlc_maximum_msat c\<rparr>)
       (filter (\<lambda>c. case channel_id of Some i \<Rightarrow> cd_channel_id c = i | None \<Rightarrow> True) (api_list_channels api n))"

definition set_channel_fees ::
    "'n ldk_api \<Rightarrow> string \<Rightarrow> u32 option \<Rightarrow> u32 option \<Rightarrow> 'n \<Rightarrow> (ldk_service_error + unit) \<times> 'n" where
  "set_channel_fees api channel_id base_fee fee_rate n =
     sbind (find_channel api channel_id n, n) (\<lambda>details n.
       let c0 = cd_config details;
           c1 = (case base_fee of None \<Rightarrow> c0 | Some b \<Rightarrow> c0\<lparr>forwarding_fee_base_msat := b\<rparr>);
           c2 = (case fee_rate of None \<Rightarrow> c1 | Some r \<Rightarrow> c1\<lparr>forwarding_fee_proportional_millionths := r\<rparr>)
       in smap_err ChannelFailed
            (api_update_channel_config api (cd_user_channel_id details) (cd_counterparty details) c2 n))"

subsection \<open>The network graph\<close>

record network_node_info =
  nn_pubkey :: string
  nn_alias :: string
  nn_color :: string
  nn_num_channels :: usize
  nn_total_capacity :: u64
  nn_addresses :: "string list"
  nn_last_update :: u32

record network_channel_policy =
  ncp_base_fee :: u32
  ncp_fee_rate :: u32
  ncp_min_htlc :: u64
  ncp_max_htlc :: u64
  ncp_time_lock_delta :: u16
  ncp_disabled :: bool
  ncp_last_update :: u32

record network_channel_info =
  nc_short_channel_id :: string
  nc_capacity :: "u64 option"
  nc_node1_pubkey :: string
  nc_node2_pubkey :: string
  nc_node1_policy :: "network_channel_policy option"
  nc_node2_policy :: "network_channel_policy option"

record network_stats =
  ns_num_nodes :: usize
  ns_num_channels :: usize
  ns_total_capacity :: u64
  ns_avg_channel_size :: u64
  ns_max_channel_size :: u64

definition capacity_or_zero :: "graph_channel \<Rightarrow> u64" where
  "capacity_or_zero ch = (case gc_capacity_sats ch of None \<Rightarrow> 0 | Some c \<Rightarrow> c)"

definition map_node_info :: "'n ldk_api \<Rightarrow> node_id \<Rightarrow> graph_node \<Rightarrow> 'n \<Rightarrow> network_node_info" where
  "map_node_info api nid info n =
     (case (case gn_announcement info of
              Some ann \<Rightarrow>
                (case ann_rgb ann of (r, g, b) \<Rightarrow>
                   (ann_alias ann, ''#'' @ hex_byte r @ hex_byte g @ hex_byte b, ann_addresses ann, ann_last_update ann))
            | None \<Rightarrow> ([], ''#000000'', [], 0)) of
        (alias, color, addresses, last_update) \<Rightarrow>
          \<lparr>nn_pubkey = api_show_node_id api nid, nn_alias = alias, nn_color = color,
           nn_num_channels = word_of_nat (length (gn_channels info)),
           nn_total_capacity = sum_list (map capacity_or_zero
             (List.map_filter (\<lambda>scid. api_graph_channel api scid n) (gn_channels info))),
           nn_addresses = addresses, nn_last_update = last_update\<rparr>)"

definition list_network_nodes :: "'n ldk_api \<Rightarrow> usize \<Rightarrow> usize \<Rightarrow> 'n \<Rightarrow> network_node_info list" where
  "list_network_nodes api limit offset n =
     List.map_filter (\<lambda>nid. map_option (\<lambda>info. map_node_info api nid info n) (api_graph_node api nid n))
       (take (unat limit) (drop (unat offset) (api_graph_nodes api n)))"

definition get_network_node ::
    "'n ldk_api \<Rightarrow> string \<Rightarrow> 'n \<Rightarrow> ldk_service_error + network_node_info option" where
  "get_network_node api pubkey n =
     rbind (map_err InvalidPubkey (api_parse_pubkey api pubkey)) (\<lambda>nid.
       Ok (map_option (\<lambda>info. map_node_info api nid info n) (api_graph_node api nid n)))"

text \<open>The loop over the channels: the sum, cut off at the largest \<open>u64\<close>, and the maximum.\<close>

fun stats_loop :: "'n ldk_api \<Rightarrow> 'n \<Rightarrow> u64 list \<Rightarrow> u64 \<Rightarrow> u64 \<Rightarrow> u64 \<times> u64" where
  "stats_loop api n [] acc biggest = (acc, biggest)"
| "stats_loop api n (scid # scids) acc biggest =
     (case api_graph_channel api scid n of
        None \<Rightarrow> stats_loop api n scids acc biggest
      | Some ch \<Rightarrow>
         let cap = capacity_or_zero ch in
         stats_loop api n scids (u64_saturating_add acc cap) (if cap > biggest then cap else biggest))"

definition get_network_stats :: "'n ldk_api \<Rightarrow> 'n \<Rightarrow> network_stats" where
  "get_network_stats api n =
     (let num_nodes = word_of_nat (length (api_graph_nodes api n));
          channel_ids = api_graph_channels api n;
          num_channels = word_of_nat (length channel_ids)
      in case stats_loop api n channel_ids 0 0 of
           (acc, biggest) \<Rightarrow>
             \<lparr>ns_num_nodes = num_nodes, ns_num_channels = num_channels, ns_total_capacity = acc,
              ns_avg_channel_size = (if num_channels > 0 then acc div num_channels else 0),
              ns_max_channel_size = biggest\<rparr>)"

definition network_policy :: "channel_update \<Rightarrow> network_channel_policy" where
  "network_policy p =
     \<lparr>ncp_base_fee = up_base_msat p, ncp_fee_rate = up_proportional_millionths p,
      ncp_min_htlc = up_htlc_minimum_msat p, ncp_max_htlc = up_htlc_maximum_msat p,
      ncp_time_lock_delta = up_cltv_expiry_delta p, ncp_disabled = (\<not> up_enabled p),
      ncp_last_update = up_last_update p\<rparr>"

definition get_network_channel ::
    "'n ldk_api \<Rightarrow> string \<Rightarrow> 'n \<Rightarrow> ldk_service_error + network_channel_info option" where
  "get_network_channel api scid_str n =
     rbind (ok_or (ChannelFailed (''invalid scid format: '' @ scid_str)) (parse_scid scid_str)) (\<lambda>scid.
       Ok (map_option (\<lambda>ch.
         \<lparr>nc_short_channel_id = format_scid scid, nc_capacity = gc_capacity_sats ch,
          nc_node1_pubkey = api_show_node_id api (gc_node_one ch),
          nc_node2_pubkey = api_show_node_id api (gc_node_two ch),
          nc_node1_policy = map_option network_policy (gc_one_to_two ch),
          nc_node2_policy = map_option network_policy (gc_two_to_one ch)\<rparr>) (api_graph_channel api scid n)))"

subsection \<open>Looking payments up\<close>

definition lookup_payment_by_hash ::
    "'n ldk_api \<Rightarrow> string \<Rightarrow> 'n \<Rightarrow> (ldk_service_error + payment_details) outcome" where
  "lookup_payment_by_hash api payment_hash n =
     (case decode_hex payment_hash of
        Panicked \<Rightarrow> Panicked
      | Returned r \<Rightarrow> Returned
          (rbind (map_err (\<lambda>e. PaymentNotFound (''invalid payment hash hex: '' @ e)) r) (\<lambda>bytes.
           rbind (if length bytes = 32 then Ok bytes
                  else Err (PaymentNotFound ''payment hash must be 32 bytes'')) (\<lambda>arr.
             ok_or (PaymentNotFound payment_hash) (api_payment api arr n)))))"

definition lookup_payment_by_bolt11 ::
    "'n ldk_api \<Rightarrow> string \<Rightarrow> 'n \<Rightarrow> (ldk_service_error + payment_details) outcome" where
  "lookup_payment_by_bolt11 api invoice_str n =
     (case map_err InvalidInvoice (api_parse_invoice api invoice_str) of
        Err e \<Rightarrow> Returned (Err e)
      | Ok invoice \<Rightarrow> lookup_payment_by_hash api (inv_payment_hash invoice) n)"

fun kind_matches :: "payment_method \<Rightarrow> payment_kind \<Rightarrow> bool" where
  "kind_matches Bolt11 (Kind_Bolt11 _ _) = True"
| "kind_matches Bolt11 (Kind_Bolt11Jit _ _) = True"
| "kind_matches Bolt12 (Kind_Bolt12Offer _ _ _) = True"
| "kind_matches Bolt12 (Kind_Bolt12Refund _ _) = True"
| "kind_matches Keysend (Kind_Spontaneous _ _) = True"
| "kind_matches _ _ = False"

definition payment_selected ::
    "u64 option \<Rightarrow> u64 option \<Rightarrow> bool option \<Rightarrow> payment_direction option \<Rightarrow> payment_method option \<Rightarrow>
       payment_details \<Rightarrow> bool" where
  "payment_selected from_ts until_ts unpaid direction pm p =
     (if (case from_ts of Some f \<Rightarrow> pd_latest_update_timestamp p < f | None \<Rightarrow> False) then False
      else if (case until_ts of Some u \<Rightarrow> pd_latest_update_timestamp p > u | None \<Rightarrow> False) then False
      else if (case direction of Some d \<Rightarrow> pd_direction p \<noteq> d | None \<Rightarrow> False) then False
      else if (case pm of Some m \<Rightarrow> \<not> kind_matches m (pd_kind p) | None \<Rightarrow> False) then False
      else let include_unpaid = (case unpaid of Some b \<Rightarrow> b | None \<Rightarrow> False)
           in \<not> (\<not> include_unpaid \<and> pd_status p = Status_Pending))"

definition newest_first :: "payment_details \<Rightarrow> payment_details \<Rightarrow> ordering" where
  "newest_first a b = cmp_of (pd_latest_update_timestamp b) (pd_latest_update_timestamp a)"

definition list_payments_filtered ::
    "'n ldk_api \<Rightarrow> u64 option \<Rightarrow> u64 option \<Rightarrow> u64 option \<Rightarrow> u64 option \<Rightarrow> bool option \<Rightarrow>
       payment_direction option \<Rightarrow> payment_method option \<Rightarrow> 'n \<Rightarrow> payment_details list" where
  "list_payments_filtered api from_ts until_ts limit offset unpaid direction pm n =
     (let payments = sort_by newest_first
            (filter (payment_selected from_ts until_ts unpaid direction pm) (api_list_payments api n));
          offset_val = (case offset of None \<Rightarrow> 0 | Some v \<Rightarrow> unat v);
          payments' = (if offset_val > 0 then drop offset_val payments else payments)
      in case limit of None \<Rightarrow> payments' | Some lim \<Rightarrow> take (unat lim) payments')"

subsection \<open>What the service guarantees\<close>

text \<open>C22: the balance in msat is exactly a thousand times the sats of the node, on chain, in
  channels and in sum, or the call fails because that does not fit 64 bits; no intermediate
  result wraps around.\<close>

theorem balance_is_exact:
  assumes "api_list_balances api n = (onchain, lightning)"
  shows "case get_balance api n of
      Ok b \<Rightarrow> unat (onchain_msat b) = 1000 * unat onchain \<and> unat (lightning_msat b) = 1000 * unat lightning \<and>
        unat (total_msat b) = 1000 * unat onchain + 1000 * unat lightning
    | Err e \<Rightarrow> 2 ^ 64 \<le> 1000 * unat onchain + 1000 * unat lightning \<and> (\<exists>sats. e = BalanceOverflow sats)"
proof -
  have mul: "u64_checked_mul x 1000 = None \<longleftrightarrow> 2 ^ 64 \<le> 1000 * unat x"
    "u64_checked_mul x 1000 = Some y \<longleftrightarrow> unat y = 1000 * unat x" for x y
    by (simp_all add: u64_checked_mul_None u64_checked_mul_Some mult.commute)
  show ?thesis
  proof (cases "u64_checked_mul onchain 1000")
    case None
    then have "2 ^ 64 \<le> 1000 * unat onchain" by (simp only: mul)
    then have "2 ^ 64 \<le> 1000 * unat onchain + 1000 * unat lightning" by linarith
    with None assms show ?thesis by (simp add: get_balance_def)
  next
    case (Some a)
    note a = this
    show ?thesis
    proof (cases "u64_checked_mul lightning 1000")
      case None
      then have "2 ^ 64 \<le> 1000 * unat lightning" by (simp only: mul)
      then have "2 ^ 64 \<le> 1000 * unat onchain + 1000 * unat lightning" by linarith
      with None assms a show ?thesis by (simp add: get_balance_def)
    next
      case (Some b)
      with a mul have "unat a = 1000 * unat onchain" "unat b = 1000 * unat lightning" by blast+
      then have "u64_checked_add a b = None \<longleftrightarrow> 2 ^ 64 \<le> 1000 * unat onchain + 1000 * unat lightning"
        "u64_checked_add a b = Some c \<longleftrightarrow> unat c = 1000 * unat onchain + 1000 * unat lightning" for c
        by (simp_all only: u64_checked_add_None u64_checked_add_Some)
      note add = iffD1 [OF this(1)] iffD1 [OF this(2)]
      show ?thesis
        using a Some assms \<open>unat a = _\<close> \<open>unat b = _\<close> add
        by (cases "u64_checked_add a b") (simp_all add: get_balance_def)
    qed
  qed
qed

theorem balance_is_exact_witness:
  "case get_balance demo_api [] of Ok b \<Rightarrow> unat (total_msat b) = 12000 | Err e \<Rightarrow> False"
  using balance_is_exact [of demo_api "[]" 5 7]
  by (auto simp: demo_api_def split: sum.splits)

text \<open>The node after a number of sleeps.\<close>

fun after_sleeps :: "'n ldk_api \<Rightarrow> nat \<Rightarrow> 'n \<Rightarrow> 'n" where
  "after_sleeps api 0 n = n"
| "after_sleeps api (Suc k) n = after_sleeps api k (snd (api_sleep api n))"

lemma wait_loop_polls:
  assumes "wait_loop api pid elapsed n = (r, n')"
  shows "\<exists>k. n' = after_sleeps api k n \<and> (\<forall>j < k. poll_payment api pid (after_sleeps api j n) = None) \<and>
    (poll_payment api pid n' = Some r \<or>
     poll_payment api pid n' = None \<and> r = Err (LdkPaymentFailed ''timeout waiting for payment outcome'')) \<and>
    (k = 0 \<or> (k - 1) * 100000000 + elapsed \<le> 60000000000)"
  using assms
proof (induction api pid elapsed n arbitrary: r n' rule: wait_loop.induct)
  case (1 api pid elapsed n)
  show ?case
  proof (cases "poll_payment api pid n")
    case (Some outcome)
    then show ?thesis using "1.prems" by (intro exI [of _ 0]) (simp add: wait_loop.simps [of api pid elapsed n])
  next
    case None
    show ?thesis
    proof (cases "elapsed > 60000000000")
      case True
      with None show ?thesis
        using "1.prems" by (intro exI [of _ 0]) (auto simp: wait_loop.simps [of api pid elapsed n])
    next
      case False
      obtain extra m where sleep: "api_sleep api n = (extra, m)" by fastforce
      then have "wait_loop api pid (elapsed + 100000000 + extra) m = (r, n')"
        using "1.prems" None False by (simp add: wait_loop.simps [of api pid elapsed n])
      from "1.IH" [OF None False sleep [symmetric] this] obtain k where
        k: "n' = after_sleeps api k m" "\<forall>j < k. poll_payment api pid (after_sleeps api j m) = None"
          "poll_payment api pid n' = Some r \<or>
           poll_payment api pid n' = None \<and> r = Err (LdkPaymentFailed ''timeout waiting for payment outcome'')"
          "k = 0 \<or> (k - 1) * 100000000 + (elapsed + 100000000 + extra) \<le> 60000000000"
        by blast
      have "\<forall>j < Suc k. poll_payment api pid (after_sleeps api j n) = None"
        using k(2) None sleep by (auto simp: less_Suc_eq_0_disj)
      moreover have "k * 100000000 + elapsed \<le> 60000000000"
        using k(4) False by (cases k) auto
      ultimately show ?thesis
        using k(1,3) sleep by (intro exI [of _ "Suc k"]) simp
    qed
  qed
qed

lemma wait_outcome:
  "\<exists>k \<le> 601. \<exists>r. wait_for_outbound_payment api pid n = (r, after_sleeps api k n) \<and>
     (\<forall>j < k. poll_payment api pid (after_sleeps api j n) = None) \<and>
     (poll_payment api pid (after_sleeps api k n) = Some r \<or>
      poll_payment api pid (after_sleeps api k n) = None \<and>
        r = Err (LdkPaymentFailed ''timeout waiting for payment outcome''))"
proof -
  obtain r n' where w: "wait_loop api pid 0 n = (r, n')" by fastforce
  from wait_loop_polls [OF w] obtain k where
    k: "n' = after_sleeps api k n" "\<forall>j < k. poll_payment api pid (after_sleeps api j n) = None"
      "poll_payment api pid n' = Some r \<or>
       poll_payment api pid n' = None \<and> r = Err (LdkPaymentFailed ''timeout waiting for payment outcome'')"
      "k = 0 \<or> (k - 1) * 100000000 + 0 \<le> 60000000000" by blast
  then have "k \<le> 601" by auto
  with k w show ?thesis by (auto simp: wait_for_outbound_payment_def)
qed

text \<open>C17: waiting for a payment always ends, after at most 601 sleeps, with the outcome of the first
  look at which the payment had one; it times out only when the payment has none at the end.\<close>

theorem waiting_for_a_payment_ends:
  "\<exists>k \<le> 601. \<exists>r. wait_for_outbound_payment api pid n = (r, after_sleeps api k n) \<and>
     (\<forall>j < k. poll_payment api pid (after_sleeps api j n) = None) \<and>
     (poll_payment api pid (after_sleeps api k n) = Some r \<or>
      poll_payment api pid (after_sleeps api k n) = None \<and>
        r = Err (LdkPaymentFailed ''timeout waiting for payment outcome''))"
  by (rule wait_outcome)

theorem waiting_for_a_payment_ends_witness:
  "\<exists>k \<le> 601. \<exists>r. wait_for_outbound_payment demo_api [7] [demo_payment Status_Pending] =
     (r, after_sleeps demo_api k [demo_payment Status_Pending])"
  using waiting_for_a_payment_ends [of demo_api "[7]" "[demo_payment Status_Pending]"] by blast

interpretation newest: comparator newest_first
  unfolding newest_first_def
  by unfold_locales (auto simp: cmp_of_def split: if_splits)

text \<open>C27: a list of payments is the page of the matching payments, newest first: with no offset and
  no limit it has exactly the matching ones, and every page is a piece of it.\<close>

theorem payments_are_listed_newest_first:
  "let full = list_payments_filtered api f u None None unpaid dir pm n in
   mset full = mset (filter (payment_selected f u unpaid dir pm) (api_list_payments api n)) \<and>
   sorted_wrt (\<lambda>a b. pd_latest_update_timestamp b \<le> pd_latest_update_timestamp a) full \<and>
   list_payments_filtered api f u limit offset unpaid dir pm n =
     page (case offset of None \<Rightarrow> 0 | Some v \<Rightarrow> unat v) (map_option unat limit) full"
proof -
  let ?sel = "filter (payment_selected f u unpaid dir pm) (api_list_payments api n)"
  have "sorted_wrt (\<lambda>a b. newest_first a b \<noteq> Greater) (sort_by newest_first ?sel)"
    by (rule newest.sorted_sort_by)
  then have "sorted_wrt (\<lambda>a b. pd_latest_update_timestamp b \<le> pd_latest_update_timestamp a)
      (sort_by newest_first ?sel)"
    by (rule sorted_wrt_mono_rel [rotated]) (auto simp: newest_first_def not_less [symmetric])
  then show ?thesis
    by (simp add: list_payments_filtered_def Let_def page_def split: option.splits)
qed

end
