(* ===== verification/Route_Finder.thy ===== *)
theory Route_Finder
  imports Demo_Node Hash_Map "HOL-Library.Product_Lexorder"
begin

section \<open>The search for routes: \<open>find_routes\<close> in \<open>src/lightning/ldk_service.rs\<close>\<close>

text \<open>
  A search for cheap paths in the network graph with a priority queue. The queue is a list
  of its elements; \<open>pop\<close> takes the least, in the order of the tuples (cost, node, path),
  and equal elements cannot be told apart. The adjacency map is an association list. The
  arithmetic on fees is that of \<open>u64\<close>.
\<close>

record edge =
  edge_next :: node_id
  edge_scid :: u64
  edge_base :: u32
  edge_prop :: u32
  edge_cltv :: u16

record route_hop =
  hop_pubkey :: string
  hop_short_channel_id :: string
  hop_fee :: u64
  hop_expiry :: u16

record found_route =
  total_fee :: u64
  total_time_lock :: u32
  hops :: "route_hop list"

subsection \<open>The adjacency map\<close>

type_synonym adjacency = "(node_id, edge list) hash_map"

definition push_edge :: "node_id \<Rightarrow> edge \<Rightarrow> adjacency \<Rightarrow> adjacency" where
  "push_edge node e adj =
     (case hm_get adj node of
        None \<Rightarrow> hm_insert node [e] adj
      | Some es \<Rightarrow> hm_modify node (\<lambda>es. es @ [e]) adj)"

definition add_direction ::
    "u64 \<Rightarrow> node_id \<Rightarrow> node_id \<Rightarrow> u64 \<Rightarrow> channel_update option \<Rightarrow> adjacency \<Rightarrow> adjacency" where
  "add_direction amount from_node to_node scid upd adj =
     (case upd of
        None \<Rightarrow> adj
      | Some u \<Rightarrow>
         if amount \<ge> up_htlc_minimum_msat u \<and> amount \<le> up_htlc_maximum_msat u
         then push_edge from_node
           \<lparr>edge_next = to_node, edge_scid = scid, edge_base = up_base_msat u,
            edge_prop = up_proportional_millionths u, edge_cltv = up_cltv_expiry_delta u\<rparr> adj
         else adj)"

fun build_adjacency ::
    "u64 \<Rightarrow> (u64 \<Rightarrow> graph_channel option) \<Rightarrow> u64 list \<Rightarrow> adjacency \<Rightarrow> adjacency" where
  "build_adjacency amount channel [] adj = adj"
| "build_adjacency amount channel (scid # scids) adj =
     build_adjacency amount channel scids
       (case channel scid of
          None \<Rightarrow> adj
        | Some ch \<Rightarrow>
            add_direction amount (gc_node_two ch) (gc_node_one ch) scid (gc_two_to_one ch)
              (add_direction amount (gc_node_one ch) (gc_node_two ch) scid (gc_one_to_two ch) adj))"

subsection \<open>The queue\<close>

type_synonym path_hop = "node_id \<times> u64 \<times> u64 \<times> u16"
type_synonym candidate = "u64 \<times> node_id \<times> path_hop list"

definition heap_pop :: "candidate list \<Rightarrow> (candidate \<times> candidate list) option" where
  "heap_pop queue =
     (case queue of
        [] \<Rightarrow> None
      | x # xs \<Rightarrow> (let m = fold min xs x in Some (m, remove1 m queue)))"

lemma fold_min_in: "fold min xs (x :: candidate) \<in> set (x # xs)"
  by (induction xs arbitrary: x) (auto simp: min_def)

lemma heap_pop_Some:
  assumes "heap_pop queue = Some (c, rest)"
  shows "c \<in> set queue" and "Suc (length rest) = length queue" and "set rest \<subseteq> set queue"
proof -
  from assms obtain x xs where q: "queue = x # xs" "c = fold min xs x" "rest = remove1 c queue"
    by (cases queue) (auto simp: heap_pop_def Let_def)
  then show c: "c \<in> set queue" using fold_min_in [of xs x] by simp
  then show "Suc (length rest) = length queue"
    using q(1,3) by (simp add: length_remove1 del: remove1.simps)
  show "set rest \<subseteq> set queue" using q(3) set_remove1_subset by metis
qed

subsection \<open>The search\<close>

definition edge_fee :: "u64 \<Rightarrow> edge \<Rightarrow> u64" where
  "edge_fee amount e = ucast (edge_base e) + (amount * ucast (edge_prop e)) div 1000000"

text \<open>The candidates that an expansion pushes: one per edge whose target is not visited yet.\<close>

fun extend_paths ::
    "u64 \<Rightarrow> node_id set \<Rightarrow> u64 \<Rightarrow> path_hop list \<Rightarrow> edge list \<Rightarrow> candidate list" where
  "extend_paths amount visited cost path [] = []"
| "extend_paths amount visited cost path (e # es) =
     (if edge_next e \<in> visited then extend_paths amount visited cost path es
      else
        let fee = edge_fee amount e in
        (cost + fee, edge_next e, path @ [(edge_next e, edge_scid e, fee, edge_cltv e)])
          # extend_paths amount visited cost path es)"

definition route_of :: "u64 \<Rightarrow> path_hop list \<Rightarrow> found_route" where
  "route_of cost path =
     (let hs = map (\<lambda>(n, scid, fee, cltv). \<lparr>hop_pubkey = hex_string n,
            hop_short_channel_id = format_scid scid, hop_fee = fee, hop_expiry = cltv\<rparr>) path
      in \<lparr>total_fee = cost, total_time_lock = sum_list (map (\<lambda>h. ucast (hop_expiry h)) hs), hops = hs\<rparr>)"

definition open_edges :: "adjacency \<Rightarrow> node_id set \<Rightarrow> nat" where
  "open_edges adj visited = sum_list (map (\<lambda>(k, es). if k \<in> visited then 0 else length es) adj)"

lemma length_extend_paths: "length (extend_paths amount visited cost path es) \<le> length es"
  by (induction es) (auto simp: Let_def)

lemma open_edges_visit:
  assumes "hm_get adj node = Some es" and "node \<notin> visited"
  shows "open_edges adj (insert node visited) + length es \<le> open_edges adj visited"
  using assms
proof (induction adj)
  case Nil
  then show ?case by (simp add: hm_get_def)
next
  case (Cons entry adj)
  obtain k fs where entry: "entry = (k, fs)" by fastforce
  show ?case
  proof (cases "k = node")
    case True
    have "open_edges adj (insert node visited) \<le> open_edges adj visited"
      unfolding open_edges_def by (rule sum_list_mono) auto
    with True Cons.prems entry show ?thesis by (simp add: open_edges_def hm_get_def)
  next
    case False
    with Cons entry show ?thesis by (auto simp: open_edges_def hm_get_def)
  qed
qed

lemma open_edges_visit_any: "open_edges adj (insert node visited) \<le> open_edges adj visited"
  unfolding open_edges_def by (rule sum_list_mono) auto

lemma expansion_shrinks:
  assumes "heap_pop queue = Some (c, rest)" and "node \<notin> visited"
  shows "length (rest @ (case hm_get adj node of
             None \<Rightarrow> []
           | Some es \<Rightarrow> extend_paths amount (insert node visited) cost path es))
       + open_edges adj (insert node visited) < length queue + open_edges adj visited"
proof (cases "hm_get adj node")
  case None
  then show ?thesis
    using heap_pop_Some(2) [OF assms(1)] open_edges_visit_any [of adj node visited] by simp
next
  case (Some es)
  then show ?thesis
    using heap_pop_Some(2) [OF assms(1)] open_edges_visit [OF Some assms(2)]
      length_extend_paths [of amount "insert node visited" cost path es] by simp
qed

function search_loop ::
    "adjacency \<Rightarrow> node_id \<Rightarrow> u64 \<Rightarrow> nat \<Rightarrow> candidate list \<Rightarrow> node_id set \<Rightarrow> found_route list \<Rightarrow>
       found_route list" where
  "search_loop adj dest amount max_routes queue visited found =
     (case heap_pop queue of
        None \<Rightarrow> found
      | Some ((cost, node, path), rest) \<Rightarrow>
          if length found \<ge> max_routes then found
          else if length path > 6 then search_loop adj dest amount max_routes rest visited found
          else if node = dest
          then search_loop adj dest amount max_routes rest visited (found @ [route_of cost path])
          else if node \<in> visited then search_loop adj dest amount max_routes rest visited found
          else
            search_loop adj dest amount max_routes
              (rest @ (case hm_get adj node of
                         None \<Rightarrow> []
                       | Some es \<Rightarrow> extend_paths amount (insert node visited) cost path es))
              (insert node visited) found)"
  by pat_completeness auto
termination
  by (relation "measure (\<lambda>(adj, dest, amount, k, queue, visited, found). length queue + open_edges adj visited)")
    (use expansion_shrinks in \<open>auto dest: heap_pop_Some(2)\<close>)

declare search_loop.simps [simp del]

definition find_routes :: "'n ldk_api \<Rightarrow> string \<Rightarrow> u64 \<Rightarrow> nat \<Rightarrow> 'n \<Rightarrow> found_route list" where
  "find_routes api dest_pubkey amount max_routes n =
     (case api_parse_pubkey api dest_pubkey of
        Err _ \<Rightarrow> []
      | Ok dest_node \<Rightarrow>
         let our_node = api_node_id api in
         if our_node = dest_node then []
         else
           let adj = build_adjacency amount (\<lambda>scid. api_graph_channel api scid n) (api_graph_channels api n) []
           in search_loop adj dest_node amount max_routes [(0, our_node, [])] {} [])"

subsection \<open>Every route is a simple path\<close>

definition is_edge :: "adjacency \<Rightarrow> node_id \<Rightarrow> edge \<Rightarrow> bool" where
  "is_edge adj a e \<longleftrightarrow> (case hm_get adj a of None \<Rightarrow> False | Some es \<Rightarrow> e \<in> set es)"

definition hop_along :: "u64 \<Rightarrow> edge \<Rightarrow> path_hop" where
  "hop_along amount e = (edge_next e, edge_scid e, edge_fee amount e, edge_cltv e)"

text \<open>A path along the edges of a relation, from a node to a node.\<close>

fun walks :: "(node_id \<Rightarrow> edge \<Rightarrow> bool) \<Rightarrow> u64 \<Rightarrow> node_id \<Rightarrow> path_hop list \<Rightarrow> node_id \<Rightarrow> bool" where
  "walks E amount a [] b \<longleftrightarrow> a = b"
| "walks E amount a (h # hs) b \<longleftrightarrow> (\<exists>e. E a e \<and> h = hop_along amount e) \<and> walks E amount (fst h) hs b"

definition path_fees :: "path_hop list \<Rightarrow> u64" where
  "path_fees path = sum_list (map (\<lambda>(n, scid, fee, cltv). fee) path)"

lemma walks_append:
  "walks E amount a (p @ q) c \<longleftrightarrow> (\<exists>b. walks E amount a p b \<and> walks E amount b q c)"
  by (induction p arbitrary: a) auto

lemma walks_last: "walks E amount a p b \<Longrightarrow> last (a # map fst p) = b"
  by (induction p arbitrary: a) auto

lemma walks_mono:
  assumes "walks E amount a p b" and "\<And>a e. E a e \<Longrightarrow> F a e"
  shows "walks F amount a p b"
  using assms by (induction p arbitrary: a) auto

lemma path_fees_snoc [simp]: "path_fees (p @ [(n, scid, fee, cltv)]) = path_fees p + fee"
  by (simp add: path_fees_def)

definition candidate_ok :: "adjacency \<Rightarrow> u64 \<Rightarrow> node_id \<Rightarrow> node_id set \<Rightarrow> candidate \<Rightarrow> bool" where
  "candidate_ok adj amount src visited c \<longleftrightarrow>
     (case c of (cost, node, path) \<Rightarrow>
       walks (is_edge adj) amount src path node \<and> cost = path_fees path \<and>
       distinct (src # map fst path) \<and> set (butlast (src # map fst path)) \<subseteq> visited)"

definition route_ok :: "(node_id \<Rightarrow> edge \<Rightarrow> bool) \<Rightarrow> u64 \<Rightarrow> node_id \<Rightarrow> node_id \<Rightarrow> found_route \<Rightarrow> bool" where
  "route_ok E amount src dest r \<longleftrightarrow>
     (\<exists>path. walks E amount src path dest \<and> distinct (src # map fst path) \<and> length path \<le> 6 \<and>
        r = route_of (path_fees path) path)"

lemma extend_paths_ok:
  assumes "candidate_ok adj amount src visited (cost, node, path)"
    and "\<forall>e \<in> set es. is_edge adj node e"
    and "c \<in> set (extend_paths amount (insert node visited) cost path es)"
  shows "candidate_ok adj amount src (insert node visited) c"
  using assms(2,3)
proof (induction es)
  case Nil
  then show ?case by simp
next
  case (Cons e es)
  show ?case
  proof (cases "c \<in> set (extend_paths amount (insert node visited) cost path es)")
    case True
    with Cons show ?thesis by simp
  next
    case False
    then have e: "edge_next e \<notin> insert node visited"
      and c: "c = (cost + edge_fee amount e, edge_next e,
          path @ [(edge_next e, edge_scid e, edge_fee amount e, edge_cltv e)])"
      using Cons.prems(2) by (auto simp: Let_def split: if_splits)
    from assms(1) have ok: "walks (is_edge adj) amount src path node" "cost = path_fees path"
      "distinct (src # map fst path)" "set (butlast (src # map fst path)) \<subseteq> visited"
      by (simp_all add: candidate_ok_def)
    let ?ns = "src # map fst path"
    have "?ns = butlast ?ns @ [node]"
      using append_butlast_last_id [of ?ns] walks_last [OF ok(1)] by simp
    then have "set ?ns = set (butlast ?ns @ [node])" by (rule arg_cong)
    then have "set ?ns = insert node (set (butlast ?ns))"
      by (simp only: set_append list.set Un_insert_right sup_bot_right)
    with ok(4) have nodes: "set ?ns \<subseteq> insert node visited" by blast
    have "walks (is_edge adj) amount src
        (path @ [(edge_next e, edge_scid e, edge_fee amount e, edge_cltv e)]) (edge_next e)"
      using ok(1) Cons.prems(1) by (auto simp: walks_append hop_along_def)
    moreover have "distinct (src # map fst path @ [edge_next e])"
      using ok(3) nodes e by auto
    ultimately show ?thesis
      using ok(2) nodes by (simp add: candidate_ok_def c butlast_append)
  qed
qed

lemma candidate_ok_mono:
  "candidate_ok adj amount src visited c \<Longrightarrow> visited \<subseteq> visited' \<Longrightarrow> candidate_ok adj amount src visited' c"
  by (auto simp: candidate_ok_def)

text \<open>
  An invariant of the loop: a candidate that is too long, or at a node that was visited, is
  dropped, one that has arrived becomes a route, one at a new node is expanded; the loop
  ends when the queue is empty or enough routes are found.
\<close>

definition expansion ::
    "adjacency \<Rightarrow> u64 \<Rightarrow> node_id set \<Rightarrow> candidate \<Rightarrow> candidate list" where
  "expansion adj amount visited c =
     (case c of (cost, node, path) \<Rightarrow>
        (case hm_get adj node of
           None \<Rightarrow> []
         | Some es \<Rightarrow> extend_paths amount (insert node visited) cost path es))"

lemma search_loop_invariant:
  assumes "I queue visited found"
    and finish: "\<And>queue visited found. I queue visited found \<Longrightarrow> queue = [] \<or> k \<le> length found \<Longrightarrow> Q found"
    and skip: "\<And>queue visited found cost node path rest. I queue visited found \<Longrightarrow>
      heap_pop queue = Some ((cost, node, path), rest) \<Longrightarrow>
      6 < length path \<or> node \<noteq> dest \<and> node \<in> visited \<Longrightarrow> I rest visited found"
    and arrive: "\<And>queue visited found cost path rest. I queue visited found \<Longrightarrow>
      heap_pop queue = Some ((cost, dest, path), rest) \<Longrightarrow> length found < k \<Longrightarrow> length path \<le> 6 \<Longrightarrow>
      I rest visited (found @ [route_of cost path])"
    and expand: "\<And>queue visited found cost node path rest. I queue visited found \<Longrightarrow>
      heap_pop queue = Some ((cost, node, path), rest) \<Longrightarrow> length path \<le> 6 \<Longrightarrow> node \<noteq> dest \<Longrightarrow> node \<notin> visited \<Longrightarrow>
      I (rest @ expansion adj amount visited (cost, node, path)) (insert node visited) found"
  shows "Q (search_loop adj dest amount k queue visited found)"
  using assms(1)
proof (induction "(adj, dest, amount, k, queue, visited, found)" arbitrary: queue visited found
    rule: wf_induct_rule [OF wf_measure [of "\<lambda>(adj, dest, amount, k, queue, visited, found).
      length queue + open_edges adj visited"]])
  case (1 queue visited found)
  note IH = "1.hyps" [simplified] and inv = "1.prems"
  note step = search_loop.simps [of adj dest amount k queue visited found]
  show ?case
  proof (cases "heap_pop queue")
    case None
    then have "queue = []" by (cases queue) (simp_all add: heap_pop_def Let_def)
    then have "Q found" using finish [OF inv] by blast
    with None show ?thesis by (simp add: step)
  next
    case (Some popped)
    then obtain cost node path rest where pop: "heap_pop queue = Some ((cost, node, path), rest)"
      by (metis prod.exhaust)
    have shorter: "length rest < length queue" using heap_pop_Some(2) [OF pop] by simp
    consider (full) "k \<le> length found"
      | (dropped) "length found < k" "6 < length path \<or> node \<noteq> dest \<and> node \<in> visited"
      | (arrived) "length found < k" "length path \<le> 6" "node = dest"
      | (fresh) "length found < k" "length path \<le> 6" "node \<noteq> dest" "node \<notin> visited"
      by linarith
    then show ?thesis
    proof cases
      case full
      with finish [OF inv] pop show ?thesis by (simp add: step)
    next
      case dropped
      from IH [OF _ skip [OF inv pop dropped(2)]] shorter pop dropped show ?thesis by (auto simp: step)
    next
      case arrived
      with IH [OF _ arrive [OF inv pop [unfolded arrived(3)] arrived(1,2)]] shorter pop
      show ?thesis by (simp add: step)
    next
      case fresh
      have "length (rest @ expansion adj amount visited (cost, node, path)) + open_edges adj (insert node visited)
          < length queue + open_edges adj visited"
        using expansion_shrinks [OF pop fresh(4), where adj = adj and amount = amount and cost = cost and path = path]
        by (simp add: expansion_def)
      from IH [OF this expand [OF inv pop fresh(2-4)]] pop fresh show ?thesis
        by (simp add: step expansion_def)
    qed
  qed
qed

lemma expansion_ok:
  assumes "candidate_ok adj amount src visited c" and "c' \<in> set (expansion adj amount visited c)"
  shows "candidate_ok adj amount src (insert (fst (snd c)) visited) c'"
proof -
  obtain cost node path where c: "c = (cost, node, path)" by (cases c)
  with assms(2) obtain es where es: "hm_get adj node = Some es"
      "c' \<in> set (extend_paths amount (insert node visited) cost path es)"
    by (cases "hm_get adj node") (auto simp: expansion_def)
  then have "\<forall>e \<in> set es. is_edge adj node e" by (simp add: is_edge_def)
  from extend_paths_ok [OF assms(1) [unfolded c] this es(2)] c show ?thesis by simp
qed

lemma search_loop_sound:
  assumes "\<forall>c \<in> set queue. candidate_ok adj amount src visited c"
    and "\<forall>r \<in> set found. route_ok (is_edge adj) amount src dest r"
    and "length found \<le> max_routes"
  shows "(\<forall>r \<in> set (search_loop adj dest amount max_routes queue visited found).
            route_ok (is_edge adj) amount src dest r) \<and>
    length (search_loop adj dest amount max_routes queue visited found) \<le> max_routes"
proof (rule search_loop_invariant [where I = "\<lambda>q v f. (\<forall>c \<in> set q. candidate_ok adj amount src v c) \<and>
    (\<forall>r \<in> set f. route_ok (is_edge adj) amount src dest r) \<and> length f \<le> max_routes"])
  fix q v f rest
  assume inv: "(\<forall>c \<in> set q. candidate_ok adj amount src v c) \<and>
    (\<forall>r \<in> set f. route_ok (is_edge adj) amount src dest r) \<and> length f \<le> max_routes"
  show "heap_pop q = Some ((cost, node, path), rest) \<Longrightarrow> (\<forall>c \<in> set rest. candidate_ok adj amount src v c) \<and>
    (\<forall>r \<in> set f. route_ok (is_edge adj) amount src dest r) \<and> length f \<le> max_routes"
    for cost node path using inv heap_pop_Some(3) by blast
  { fix cost path
    assume pop: "heap_pop q = Some ((cost, dest, path), rest)" and go: "length f < max_routes" "length path \<le> 6"
    have "candidate_ok adj amount src v (cost, dest, path)" using inv heap_pop_Some(1) [OF pop] by blast
    then have "route_ok (is_edge adj) amount src dest (route_of cost path)"
      using go(2) unfolding route_ok_def candidate_ok_def by auto
    with inv go heap_pop_Some(3) [OF pop] show "(\<forall>c \<in> set rest. candidate_ok adj amount src v c) \<and>
      (\<forall>r \<in> set (f @ [route_of cost path]). route_ok (is_edge adj) amount src dest r) \<and>
      length (f @ [route_of cost path]) \<le> max_routes" by auto }
  { fix cost node path
    assume pop: "heap_pop q = Some ((cost, node, path), rest)"
    have "candidate_ok adj amount src v (cost, node, path)" using inv heap_pop_Some(1) [OF pop] by blast
    from expansion_ok [OF this] inv heap_pop_Some(3) [OF pop]
    show "(\<forall>c \<in> set (rest @ expansion adj amount v (cost, node, path)). candidate_ok adj amount src (insert node v) c) \<and>
      (\<forall>r \<in> set f. route_ok (is_edge adj) amount src dest r) \<and> length f \<le> max_routes"
      by (auto intro: candidate_ok_mono [OF _ subset_insertI]) }
qed (use assms in auto)

subsection \<open>The edges are channel directions that admit the amount\<close>

definition channel_edge :: "u64 \<Rightarrow> (u64 \<Rightarrow> graph_channel option) \<Rightarrow> u64 list \<Rightarrow> node_id \<Rightarrow> edge \<Rightarrow> bool" where
  "channel_edge amount channel scids a e \<longleftrightarrow>
     (\<exists>ch u. edge_scid e \<in> set scids \<and> channel (edge_scid e) = Some ch \<and>
        (gc_node_one ch = a \<and> gc_node_two ch = edge_next e \<and> gc_one_to_two ch = Some u \<or>
         gc_node_two ch = a \<and> gc_node_one ch = edge_next e \<and> gc_two_to_one ch = Some u) \<and>
        up_htlc_minimum_msat u \<le> amount \<and> amount \<le> up_htlc_maximum_msat u \<and>
        edge_base e = up_base_msat u \<and> edge_prop e = up_proportional_millionths u \<and>
        edge_cltv e = up_cltv_expiry_delta u)"

lemma is_edge_push:
  "is_edge (push_edge node e adj) a e' \<longleftrightarrow> is_edge adj a e' \<or> a = node \<and> e' = e"
  by (auto simp: is_edge_def push_edge_def hash_map_simps split: option.splits)

lemma is_edge_add_direction:
  "is_edge (add_direction amount f t scid upd adj) a e \<longleftrightarrow> is_edge adj a e \<or>
     (\<exists>u. upd = Some u \<and> up_htlc_minimum_msat u \<le> amount \<and> amount \<le> up_htlc_maximum_msat u \<and> a = f \<and>
        e = \<lparr>edge_next = t, edge_scid = scid, edge_base = up_base_msat u,
             edge_prop = up_proportional_millionths u, edge_cltv = up_cltv_expiry_delta u\<rparr>)"
  by (auto simp: add_direction_def is_edge_push split: option.splits)

lemma is_edge_build:
  "is_edge (build_adjacency amount channel scids adj) a e \<longleftrightarrow>
     is_edge adj a e \<or> channel_edge amount channel scids a e"
proof (induction amount channel scids adj rule: build_adjacency.induct)
  case (1 amount channel adj)
  then show ?case by (simp add: channel_edge_def)
next
  case (2 amount channel scid scids adj)
  have "channel_edge amount channel (scid # scids) a e \<longleftrightarrow>
      channel_edge amount channel [scid] a e \<or> channel_edge amount channel scids a e"
    by (auto simp: channel_edge_def)
  moreover have "is_edge (case channel scid of
          None \<Rightarrow> adj
        | Some ch \<Rightarrow>
            add_direction amount (gc_node_two ch) (gc_node_one ch) scid (gc_two_to_one ch)
              (add_direction amount (gc_node_one ch) (gc_node_two ch) scid (gc_one_to_two ch) adj)) a e \<longleftrightarrow>
      is_edge adj a e \<or> channel_edge amount channel [scid] a e"
    by (cases e) (auto simp: is_edge_add_direction channel_edge_def split: option.splits)
  ultimately show ?case using 2 by auto
qed

lemma is_edge_empty [simp]: "\<not> is_edge [] a e"
  by (simp add: is_edge_def hash_map_simps)

subsection \<open>What the search guarantees\<close>

text \<open>C15: every route that is found is a path without a repeated node from this node to the
  destination, of one to six hops, each along a direction of a channel of the graph that admits
  the amount; its fee is the sum of the hops' fees, each the base fee and the proportional fee of
  the amount, and at most as many routes are found as were asked for.\<close>

theorem found_routes_are_simple_paths:
  assumes "api_parse_pubkey api dest_pubkey = Ok dest"
  shows "length (find_routes api dest_pubkey amount k n) \<le> k \<and>
    (\<forall>r \<in> set (find_routes api dest_pubkey amount k n).
      \<exists>path. walks (channel_edge amount (\<lambda>scid. api_graph_channel api scid n) (api_graph_channels api n))
               amount (api_node_id api) path dest \<and>
        distinct (api_node_id api # map fst path) \<and> 1 \<le> length path \<and> length path \<le> 6 \<and>
        r = route_of (path_fees path) path)"
proof (cases "api_node_id api = dest")
  case True
  with assms show ?thesis by (simp add: find_routes_def)
next
  case False
  let ?src = "api_node_id api"
  let ?channel = "\<lambda>scid. api_graph_channel api scid n"
  let ?adj = "build_adjacency amount ?channel (api_graph_channels api n) []"
  let ?E = "channel_edge amount ?channel (api_graph_channels api n)"
  have E: "is_edge ?adj a e \<Longrightarrow> ?E a e" for a e by (simp add: is_edge_build)
  have "candidate_ok ?adj amount ?src {} (0, ?src, [])" by (simp add: candidate_ok_def path_fees_def)
  then have sound: "(\<forall>r \<in> set (find_routes api dest_pubkey amount k n). route_ok (is_edge ?adj) amount ?src dest r) \<and>
      length (find_routes api dest_pubkey amount k n) \<le> k"
    using search_loop_sound [of "[(0, ?src, [])]" ?adj amount ?src "{}" "[]" dest k] assms False
    by (simp add: find_routes_def Let_def)
  have "\<exists>path. walks ?E amount ?src path dest \<and> distinct (?src # map fst path) \<and> 1 \<le> length path \<and>
      length path \<le> 6 \<and> r = route_of (path_fees path) path"
    if "r \<in> set (find_routes api dest_pubkey amount k n)" for r
  proof -
    from sound that obtain path where path: "walks (is_edge ?adj) amount ?src path dest"
      "distinct (?src # map fst path)" "length path \<le> 6" "r = route_of (path_fees path) path"
      by (auto simp: route_ok_def)
    moreover from path(1) False have "1 \<le> length path" by (cases path) auto
    moreover have "walks ?E amount ?src path dest" using path(1) E by (rule walks_mono)
    ultimately show ?thesis by blast
  qed
  with sound show ?thesis by blast
qed

lemma demo_route_found:
  "find_routes demo_api ''bob'' 5000 2 [] =
     [\<lparr>total_fee = 1, total_time_lock = 40,
       hops = [\<lparr>hop_pubkey = hex_string (demo_bytes ''bob''), hop_short_channel_id = format_scid 42,
                hop_fee = 1, hop_expiry = 40\<rparr>]\<rparr>]"
  by (simp add: find_routes_def demo_api_def demo_channel_def demo_update_def demo_bytes_def
      add_direction_def push_edge_def hm_insert_def hm_get_def search_loop.simps heap_pop_def
      edge_fee_def route_of_def Let_def)

theorem found_routes_are_simple_paths_witness:
  "\<exists>r path. find_routes demo_api ''bob'' 5000 2 [] = [r] \<and> length path \<le> 6 \<and>
     r = route_of (path_fees path) path"
proof -
  have "api_parse_pubkey demo_api ''bob'' = Ok (demo_bytes ''bob'')" by (simp add: demo_api_def)
  from found_routes_are_simple_paths [OF this, of 5000 2 "[]"] show ?thesis
    unfolding demo_route_found by auto
qed

text \<open>The flag with which a channel's policy says that the direction is disabled plays no part
  in the search: routes go through disabled directions as through any other.\<close>

theorem disabled_directions_are_routed:
  "find_routes (api\<lparr>api_graph_channel := \<lambda>scid n. map_option (\<lambda>ch. ch\<lparr>
       gc_one_to_two := map_option (\<lambda>u. u\<lparr>up_enabled := flag\<rparr>) (gc_one_to_two ch),
       gc_two_to_one := map_option (\<lambda>u. u\<lparr>up_enabled := flag\<rparr>) (gc_two_to_one ch)\<rparr>)
       (api_graph_channel api scid n)\<rparr>) dest_pubkey amount k n =
   find_routes api dest_pubkey amount k n"
proof -
  let ?off = "\<lambda>ch. ch\<lparr>gc_one_to_two := map_option (\<lambda>u. u\<lparr>up_enabled := flag\<rparr>) (gc_one_to_two ch),
       gc_two_to_one := map_option (\<lambda>u. u\<lparr>up_enabled := flag\<rparr>) (gc_two_to_one ch)\<rparr>"
  have dir: "add_direction amount f t scid (map_option (\<lambda>u. u\<lparr>up_enabled := flag\<rparr>) upd) adj =
      add_direction amount f t scid upd adj" for amount f t scid upd adj
    by (simp add: add_direction_def split: option.splits)
  have "build_adjacency amount (\<lambda>scid. map_option ?off (channel scid)) scids adj =
      build_adjacency amount channel scids adj" for channel scids adj
    by (induction amount channel scids adj rule: build_adjacency.induct)
      (auto simp: dir split: option.splits)
  then show ?thesis by (simp add: find_routes_def Let_def split: sum.splits)
qed

subsection \<open>Routes come cheapest first\<close>

lemma fold_min_le: "y \<in> set (x # xs) \<Longrightarrow> fold min xs x \<le> (y :: candidate)"
  unfolding Min.set_eq_fold [symmetric] by (rule Min_le) simp_all

lemma heap_pop_least: "heap_pop queue = Some (c, rest) \<Longrightarrow> c' \<in> set queue \<Longrightarrow> fst c \<le> fst c'"
  using fold_min_le [of c' "hd queue" "tl queue"]
  by (cases queue) (auto simp: heap_pop_def Let_def less_eq_prod_def)

lemma extend_paths_cost:
  "c \<in> set (extend_paths amount visited cost path es) \<Longrightarrow>
     \<exists>e \<in> set es. fst c = cost + edge_fee amount e \<and> length (snd (snd c)) = Suc (length path)"
  by (induction es) (auto simp: Let_def split: if_splits)

text \<open>Seven hops cost less than \<open>2 ^ 64\<close>: the sums of fees that the search forms do not wrap.\<close>

definition fees_fit :: "(node_id \<Rightarrow> edge \<Rightarrow> bool) \<Rightarrow> u64 \<Rightarrow> bool" where
  "fees_fit E amount \<longleftrightarrow> (\<forall>a e. E a e \<longrightarrow> 7 * unat (edge_fee amount e) < 2 ^ 64)"

lemma path_fees_bound:
  assumes "walks E amount a path b" and "fees_fit E amount" and "length path \<le> 7"
  shows "unat (path_fees path) \<le> length path * ((2 ^ 64 - 1) div 7)"
  using assms(1,3)
proof (induction path arbitrary: a)
  case Nil
  then show ?case by (simp add: path_fees_def)
next
  case (Cons h path)
  then obtain e where e: "E a e" "h = hop_along amount e" by auto
  let ?B = "(2 ^ 64 - 1) div 7 :: nat"
  have "7 * unat (edge_fee amount e) < 2 ^ 64" using assms(2) e(1) unfolding fees_fit_def by blast
  then have fee: "unat (edge_fee amount e) \<le> ?B" by simp
  have rest: "unat (path_fees path) \<le> length path * ?B" using Cons.IH [of "fst h"] Cons.prems by simp
  have sum: "path_fees (h # path) = edge_fee amount e + path_fees path"
    by (simp add: path_fees_def e(2) hop_along_def)
  have "unat (path_fees (h # path)) \<le> unat (edge_fee amount e) + unat (path_fees path)"
    unfolding sum unat_word_ariths by simp
  with fee rest show ?case by simp
qed

lemma expansion_cost:
  assumes "candidate_ok adj amount src visited (cost, node, path)" and "fees_fit (is_edge adj) amount"
    and "length path \<le> 6" and "c \<in> set (expansion adj amount visited (cost, node, path))"
  shows "cost \<le> fst c" and "length (snd (snd c)) \<le> 7"
proof -
  from assms(4) obtain es where es: "hm_get adj node = Some es"
      "c \<in> set (extend_paths amount (insert node visited) cost path es)"
    by (cases "hm_get adj node") (auto simp: expansion_def)
  from extend_paths_cost [OF es(2)] obtain e where
    e: "e \<in> set es" "fst c = cost + edge_fee amount e" "length (snd (snd c)) = Suc (length path)" by blast
  from e(3) assms(3) show "length (snd (snd c)) \<le> 7" by simp
  from assms(1) have c: "walks (is_edge adj) amount src path node" "cost = path_fees path"
    by (simp_all add: candidate_ok_def)
  have "is_edge adj node e" using es(1) e(1) by (simp add: is_edge_def)
  then have "7 * unat (edge_fee amount e) < 2 ^ 64" using assms(2) unfolding fees_fit_def by blast
  moreover have "unat cost \<le> 6 * ((2 ^ 64 - 1) div 7)"
    using path_fees_bound [OF c(1) assms(2)] assms(3) c(2) mult_le_mono1 [of "length path" 6] by fastforce
  ultimately have "unat cost + unat (edge_fee amount e) < 2 ^ 64" by simp
  then have "unat (cost + edge_fee amount e) = unat cost + unat (edge_fee amount e)"
    by (subst unat_add_lem [symmetric]) simp
  then show "cost \<le> fst c" by (simp add: e(2) word_le_nat_alt)
qed

lemma search_loop_sorted:
  assumes fit: "fees_fit (is_edge adj) amount"
    and "\<forall>c \<in> set queue. candidate_ok adj amount src visited c"
  shows "sorted (map total_fee (search_loop adj dest amount max_routes queue visited []))"
proof (rule search_loop_invariant [where I = "\<lambda>q v (f :: found_route list). (\<forall>c \<in> set q. candidate_ok adj amount src v c) \<and>
    sorted (map total_fee f) \<and> (\<forall>r \<in> set f. \<forall>c \<in> set q. total_fee r \<le> fst c)"])
  fix q v rest and f :: "found_route list"
  assume inv: "(\<forall>c \<in> set q. candidate_ok adj amount src v c) \<and>
    sorted (map total_fee f) \<and> (\<forall>r \<in> set f. \<forall>c \<in> set q. total_fee r \<le> fst c)"
  show "heap_pop q = Some ((cost, node, path), rest) \<Longrightarrow> (\<forall>c \<in> set rest. candidate_ok adj amount src v c) \<and>
    sorted (map total_fee f) \<and> (\<forall>r \<in> set f. \<forall>c \<in> set rest. total_fee r \<le> fst c)"
    for cost node path using inv heap_pop_Some(3) by blast
  { fix cost path
    assume pop: "heap_pop q = Some ((cost, dest, path), rest)"
    have "cost \<le> fst c" if "c \<in> set rest" for c
      using heap_pop_least [OF pop, of c] heap_pop_Some(3) [OF pop] that by auto
    moreover have "total_fee r \<le> cost" if "r \<in> set f" for r
      using inv heap_pop_Some(1) [OF pop] that by fastforce
    moreover have "\<forall>r \<in> set f. \<forall>c \<in> set rest. total_fee r \<le> fst c"
      using inv heap_pop_Some(3) [OF pop] by blast
    moreover have "\<forall>c \<in> set rest. candidate_ok adj amount src v c"
      using inv heap_pop_Some(3) [OF pop] by blast
    ultimately show "(\<forall>c \<in> set rest. candidate_ok adj amount src v c) \<and>
      sorted (map total_fee (f @ [route_of cost path])) \<and>
      (\<forall>r \<in> set (f @ [route_of cost path]). \<forall>c \<in> set rest. total_fee r \<le> fst c)"
      using inv by (simp add: sorted_append route_of_def Let_def) }
  { fix cost node path
    assume pop: "heap_pop q = Some ((cost, node, path), rest)" and short: "length path \<le> 6"
    have ok: "candidate_ok adj amount src v (cost, node, path)" using inv heap_pop_Some(1) [OF pop] by blast
    have old: "total_fee r \<le> cost" if "r \<in> set f" for r
      using inv heap_pop_Some(1) [OF pop] that by fastforce
    let ?new = "expansion adj amount v (cost, node, path)"
    have "candidate_ok adj amount src (insert node v) c" if "c \<in> set (rest @ ?new)" for c
      using that inv heap_pop_Some(3) [OF pop] expansion_ok [OF ok, of c]
      by (auto intro: candidate_ok_mono [OF _ subset_insertI])
    moreover have "total_fee r \<le> fst c" if "r \<in> set f" "c \<in> set (rest @ ?new)" for r c
      using that old [OF that(1)] inv heap_pop_Some(3) [OF pop] expansion_cost(1) [OF ok fit short, of c]
      by (auto intro: order_trans)
    ultimately show "(\<forall>c \<in> set (rest @ ?new). candidate_ok adj amount src (insert node v) c) \<and>
      sorted (map total_fee f) \<and> (\<forall>r \<in> set f. \<forall>c \<in> set (rest @ ?new). total_fee r \<le> fst c)"
      using inv by blast }
qed (use assms in auto)

text \<open>C16: when no sum of fees can overflow, the routes are found in the order of their fees: the first one
  is the cheapest of those that are returned.\<close>

theorem routes_are_found_cheapest_first:
  assumes "\<forall>a e. channel_edge amount (\<lambda>scid. api_graph_channel api scid n) (api_graph_channels api n) a e \<longrightarrow>
    7 * unat (edge_fee amount e) < 2 ^ 64"
  shows "sorted (map total_fee (find_routes api dest_pubkey amount k n))"
proof (cases "api_parse_pubkey api dest_pubkey")
  case (Inl e)
  then show ?thesis by (simp add: find_routes_def)
next
  case (Inr dest)
  let ?src = "api_node_id api"
  let ?adj = "build_adjacency amount (\<lambda>scid. api_graph_channel api scid n) (api_graph_channels api n) []"
  have "fees_fit (is_edge ?adj) amount" using assms by (simp add: fees_fit_def is_edge_build)
  moreover have "candidate_ok ?adj amount ?src {} (0, ?src, [])" by (simp add: candidate_ok_def path_fees_def)
  ultimately show ?thesis
    using search_loop_sorted [of ?adj amount "[(0, ?src, [])]" ?src "{}" dest k] Inr
    by (simp add: find_routes_def Let_def)
qed

theorem routes_are_found_cheapest_first_witness:
  "sorted (map total_fee (find_routes demo_api ''bob'' 1000 3 []))"
proof (rule routes_are_found_cheapest_first, intro allI impI)
  fix a e
  assume "channel_edge 1000 (\<lambda>scid. api_graph_channel demo_api scid []) (api_graph_channels demo_api []) a e"
  then have "edge_base e = 1" "edge_prop e = 100"
    by (auto simp: channel_edge_def demo_api_def demo_channel_def demo_update_def split: if_splits)
  then show "7 * unat (edge_fee 1000 e) < 2 ^ 64" by (simp add: edge_fee_def)
qed

end
