(* ===== verification/Offer_Store.thy ===== *)
theory Offer_Store
  imports Hash_Map Codecs
begin

section \<open>Offers: \<open>src/state/offer_store.rs\<close>\<close>

text \<open>
  The BOLT 12 offers this node handed out, by their text, with what was paid to each. The
  32 bytes of an offer id connect a payment that the node reports to its offer.
\<close>

type_synonym offer_id = "u8 list"

record offer_record =
  offer_text :: string
  offer_description :: string
  amount_msat :: u64
  active :: bool
  num_payments_received :: u64
  total_received_msat :: u64
  offer_id :: offer_id

type_synonym offers = "(string, offer_record) hash_map"

definition insert_offer :: "string \<Rightarrow> string \<Rightarrow> u64 \<Rightarrow> offer_id \<Rightarrow> offers \<Rightarrow> offers" where
  "insert_offer offer description amount oid store =
     hm_insert offer
       \<lparr>offer_text = offer, offer_description = description, amount_msat = amount, active = True,
        num_payments_received = 0, total_received_msat = 0, offer_id = oid\<rparr> store"

definition find_by_offer_id :: "offer_id \<Rightarrow> offers \<Rightarrow> string option" where
  "find_by_offer_id oid store =
     map_option fst (find (\<lambda>(_, r). offer_id r = oid) store)"

definition get_offer :: "string \<Rightarrow> offers \<Rightarrow> offer_record option" where
  "get_offer offer store = hm_get store offer"

definition list_offers :: "offers \<Rightarrow> offer_record list" where
  "list_offers store = hm_values store"

definition disable_offer :: "string \<Rightarrow> offers \<Rightarrow> bool \<times> offers" where
  "disable_offer offer store =
     (case hm_get store offer of
        Some _ \<Rightarrow> (True, hm_modify offer (\<lambda>r. r\<lparr>active := False\<rparr>) store)
      | None \<Rightarrow> (False, store))"

definition record_payment :: "string \<Rightarrow> u64 \<Rightarrow> offers \<Rightarrow> offers" where
  "record_payment offer amount store =
     (case hm_get store offer of
        Some _ \<Rightarrow> hm_modify offer
          (\<lambda>r. r\<lparr>num_payments_received := num_payments_received r + 1,
                total_received_msat := total_received_msat r + amount\<rparr>) store
      | None \<Rightarrow> store)"

definition clear_offers :: "offers \<Rightarrow> offers" where
  "clear_offers store = []"

subsection \<open>Lookups and well-formedness\<close>

text \<open>Every entry is stored under its own text.\<close>

definition wf_offers :: "offers \<Rightarrow> bool" where
  "wf_offers store \<longleftrightarrow> wf_hash_map store \<and> (\<forall>(k, r) \<in> set store. offer_text r = k)"

lemma get_offer_simps [store_simps]:
  "get_offer o' (insert_offer o1 d a oid store) =
     (if o' = o1 then Some \<lparr>offer_text = o1, offer_description = d, amount_msat = a, active = True,
        num_payments_received = 0, total_received_msat = 0, offer_id = oid\<rparr> else get_offer o' store)"
  "get_offer o' (snd (disable_offer o1 store)) =
     (if o' = o1 then map_option (\<lambda>r. r\<lparr>active := False\<rparr>) (get_offer o' store) else get_offer o' store)"
  "get_offer o' (record_payment o1 a store) =
     (if o' = o1 then map_option (\<lambda>r. r\<lparr>num_payments_received := num_payments_received r + 1,
            total_received_msat := total_received_msat r + a\<rparr>) (get_offer o' store)
      else get_offer o' store)"
  "get_offer o' (clear_offers store) = None"
  by (auto simp: get_offer_def insert_offer_def disable_offer_def record_payment_def
      clear_offers_def hash_map_simps split: option.splits)

lemma fst_disable_offer [store_simps]: "fst (disable_offer offer store) \<longleftrightarrow> get_offer offer store \<noteq> None"
  by (auto simp: disable_offer_def get_offer_def split: option.splits)

lemma wf_offers_get:
  "wf_offers store \<longleftrightarrow> wf_hash_map store \<and> (\<forall>k r. get_offer k store = Some r \<longrightarrow> offer_text r = k)"
  by (auto simp: wf_offers_def get_offer_def hm_get_iff)

lemma wf_hash_map_offers:
  "wf_hash_map store \<Longrightarrow> wf_hash_map (insert_offer offer d a oid store)"
  "wf_hash_map store \<Longrightarrow> wf_hash_map (snd (disable_offer offer store))"
  "wf_hash_map store \<Longrightarrow> wf_hash_map (record_payment offer a store)"
  "wf_hash_map (clear_offers store)"
  by (auto simp: insert_offer_def disable_offer_def record_payment_def clear_offers_def wf_intros
      split: option.splits)

lemma wf_offers_ops [wf_intros]:
  "wf_offers store \<Longrightarrow> wf_offers (insert_offer offer d a oid store)"
  "wf_offers store \<Longrightarrow> wf_offers (snd (disable_offer offer store))"
  "wf_offers store \<Longrightarrow> wf_offers (record_payment offer a store)"
  "wf_offers (clear_offers store)"
  by (auto simp: wf_offers_get wf_hash_map_offers store_simps split: if_splits)

lemma find_by_offer_id_Some:
  "wf_offers store \<Longrightarrow> find_by_offer_id oid store = Some k \<Longrightarrow>
     \<exists>r. get_offer k store = Some r \<and> offer_id r = oid"
  by (auto simp: find_by_offer_id_def find_Some_iff wf_offers_def get_offer_def hm_get_iff)
    (metis nth_mem)

lemma find_by_offer_id_None:
  "wf_offers store \<Longrightarrow> find_by_offer_id oid store = None \<longleftrightarrow>
     (\<forall>k r. get_offer k store = Some r \<longrightarrow> offer_id r \<noteq> oid)"
  by (auto simp: find_by_offer_id_def find_None_iff wf_offers_def get_offer_def hm_get_iff)

subsection \<open>Accounting\<close>

text \<open>A sequence of payments to offers.\<close>

fun record_payments :: "(string \<times> u64) list \<Rightarrow> offers \<Rightarrow> offers" where
  "record_payments [] store = store"
| "record_payments ((offer, amount) # ps) store = record_payments ps (record_payment offer amount store)"

definition paid_to :: "string \<Rightarrow> (string \<times> u64) list \<Rightarrow> nat list" where
  "paid_to offer ps = map (\<lambda>(_, a). unat a) (filter (\<lambda>(o', _). o' = offer) ps)"

lemma record_payments_get:
  "get_offer offer (record_payments ps store) =
     map_option (\<lambda>r. r\<lparr>num_payments_received := num_payments_received r + word_of_nat (length (paid_to offer ps)),
            total_received_msat := total_received_msat r + word_of_nat (sum_list (paid_to offer ps))\<rparr>)
       (get_offer offer store)"
proof (induction ps store rule: record_payments.induct)
  case (1 store)
  then show ?case by (cases "get_offer offer store") (simp_all add: paid_to_def)
next
  case (2 o1 a ps store)
  then show ?case
    by (cases "get_offer offer store") (auto simp: store_simps paid_to_def add_ac)
qed

end
