(* ===== verification/Address_Store.thy ===== *)
theory Address_Store
  imports Hash_Map Rust_String Machine_Int
begin

section \<open>Addresses: \<open>src/state/address_store.rs\<close>\<close>

text \<open>The on-chain addresses handed out, each with the transactions recorded for it.\<close>

record address_transaction =
  txid :: string
  amount_sats :: u64
  timestamp :: u64

record address_record =
  address :: string
  transactions :: "address_transaction list"

type_synonym addresses = "(string, address_record) hash_map"

definition register_address :: "string \<Rightarrow> addresses \<Rightarrow> addresses" where
  "register_address a store =
     (case hm_get store a of
        Some _ \<Rightarrow> store
      | None \<Rightarrow> hm_insert a \<lparr>address = a, transactions = []\<rparr> store)"

definition get_address :: "string \<Rightarrow> addresses \<Rightarrow> address_record option" where
  "get_address a store = hm_get store a"

definition list_addresses :: "addresses \<Rightarrow> address_record list" where
  "list_addresses store = hm_values store"

definition record_transaction :: "string \<Rightarrow> string \<Rightarrow> u64 \<Rightarrow> u64 \<Rightarrow> addresses \<Rightarrow> addresses" where
  "record_transaction a tx sats ts store =
     (case hm_get store a of
        Some _ \<Rightarrow> hm_modify a
          (\<lambda>r. r\<lparr>transactions := transactions r @ [\<lparr>txid = tx, amount_sats = sats, timestamp = ts\<rparr>]\<rparr>) store
      | None \<Rightarrow> store)"

definition clear_addresses :: "addresses \<Rightarrow> addresses" where
  "clear_addresses store = []"

definition wf_addresses :: "addresses \<Rightarrow> bool" where
  "wf_addresses store \<longleftrightarrow> wf_hash_map store \<and> (\<forall>k r. get_address k store = Some r \<longrightarrow> address r = k)"

lemma get_address_simps [store_simps]:
  "get_address a' (register_address a store) =
     (if a' = a \<and> get_address a store = None then Some \<lparr>address = a, transactions = []\<rparr>
      else get_address a' store)"
  "get_address a' (record_transaction a tx sats ts store) =
     (if a' = a then map_option
          (\<lambda>r. r\<lparr>transactions := transactions r @ [\<lparr>txid = tx, amount_sats = sats, timestamp = ts\<rparr>]\<rparr>)
          (get_address a store)
      else get_address a' store)"
  "get_address a' (clear_addresses store) = None"
  by (auto simp: get_address_def register_address_def record_transaction_def clear_addresses_def
      hash_map_simps split: option.splits)

lemma wf_addresses_ops [wf_intros]:
  "wf_addresses []"
  "wf_addresses store \<Longrightarrow> wf_addresses (register_address a store)"
  "wf_addresses store \<Longrightarrow> wf_addresses (record_transaction a tx sats ts store)"
  "wf_addresses (clear_addresses store)"
proof -
  show empty: "wf_addresses []"
    by (simp add: wf_addresses_def get_address_def hm_get_def wf_intros)
  show "wf_addresses (clear_addresses store)"
    by (simp add: clear_addresses_def empty)
  assume "wf_addresses store"
  then show "wf_addresses (register_address a store)"
    and "wf_addresses (record_transaction a tx sats ts store)"
    by (auto simp: wf_addresses_def store_simps split: if_splits)
      (auto simp: register_address_def record_transaction_def wf_intros split: option.splits)
qed

text \<open>Registering twice changes nothing, and never forgets a transaction.\<close>

lemma register_address_idem:
  "register_address a (register_address a store) = register_address a store"
  by (auto simp: register_address_def hash_map_simps split: option.splits)

end
