(* ===== verification/Subscription_Store.thy ===== *)
theory Subscription_Store
  imports Hash_Map Rust_String
begin

section \<open>Subscriptions: \<open>src/state/subscription_store.rs\<close>\<close>

text \<open>Which notification types each client wants: a map from public keys to sets of names.\<close>

type_synonym subscriptions = "(string, string set) hash_map"

definition subscribe :: "string \<Rightarrow> string list \<Rightarrow> subscriptions \<Rightarrow> subscriptions" where
  "subscribe client types subs = hm_insert client (set types) subs"

definition unsubscribe :: "string \<Rightarrow> subscriptions \<Rightarrow> subscriptions" where
  "unsubscribe client subs = hm_remove client subs"

definition get_subscribers :: "string \<Rightarrow> subscriptions \<Rightarrow> string list" where
  "get_subscribers notification_type subs =
     map fst (filter (\<lambda>(_, types). notification_type \<in> types) subs)"

definition is_subscribed :: "string \<Rightarrow> string \<Rightarrow> subscriptions \<Rightarrow> bool" where
  "is_subscribed client notification_type subs =
     (case hm_get subs client of None \<Rightarrow> False | Some types \<Rightarrow> notification_type \<in> types)"

definition clear_subscriptions :: "subscriptions \<Rightarrow> subscriptions" where
  "clear_subscriptions subs = []"

lemma wf_subscriptions [wf_intros]:
  "wf_hash_map subs \<Longrightarrow> wf_hash_map (subscribe client types subs)"
  "wf_hash_map subs \<Longrightarrow> wf_hash_map (unsubscribe client subs)"
  "wf_hash_map (clear_subscriptions subs)"
  by (simp_all add: subscribe_def unsubscribe_def clear_subscriptions_def wf_intros)

lemma is_subscribed_simps [store_simps]:
  "is_subscribed c t (subscribe client types subs) =
     (if c = client then t \<in> set types else is_subscribed c t subs)"
  "is_subscribed c t (unsubscribe client subs) = (c \<noteq> client \<and> is_subscribed c t subs)"
  "\<not> is_subscribed c t (clear_subscriptions subs)"
  by (auto simp: is_subscribed_def subscribe_def unsubscribe_def clear_subscriptions_def
      hash_map_simps)

lemma is_subscribed_iff:
  "wf_hash_map subs \<Longrightarrow> is_subscribed c t subs \<longleftrightarrow> (\<exists>ts. (c, ts) \<in> set subs \<and> t \<in> ts)"
  by (simp add: is_subscribed_def hm_get_iff [symmetric] split: option.splits)

lemma get_subscribers_iff:
  "wf_hash_map subs \<Longrightarrow> c \<in> set (get_subscribers t subs) \<longleftrightarrow> is_subscribed c t subs"
  by (force simp: get_subscribers_def is_subscribed_iff)

lemma distinct_get_subscribers: "wf_hash_map subs \<Longrightarrow> distinct (get_subscribers t subs)"
  by (auto simp: get_subscribers_def wf_hash_map_def distinct_map intro: inj_on_subset)

end
