(* ===== verification/Forwarding_Store.thy ===== *)
theory Forwarding_Store
  imports Hash_Map Machine_Int "HOL-Library.Sublist"
begin

section \<open>Forwarding history: \<open>src/state/forwarding_store.rs\<close>\<close>

text \<open>An append-only log of the payments the node forwarded, read by time window and page.\<close>

record forwarding_entry =
  incoming_channel_id :: string
  outgoing_channel_id :: string
  incoming_amount :: u64
  outgoing_amount :: u64
  fee_earned :: u64
  settled_at :: u64

definition record_forward :: "forwarding_entry \<Rightarrow> forwarding_entry list \<Rightarrow> forwarding_entry list" where
  "record_forward e history = history @ [e]"

definition in_window :: "u64 option \<Rightarrow> u64 option \<Rightarrow> u64 \<Rightarrow> bool" where
  "in_window from_ts until_ts t \<longleftrightarrow>
     \<not> (case from_ts of None \<Rightarrow> False | Some f \<Rightarrow> t < f) \<and>
     \<not> (case until_ts of None \<Rightarrow> False | Some u \<Rightarrow> t > u)"

definition get_history ::
    "u64 option \<Rightarrow> u64 option \<Rightarrow> usize \<Rightarrow> usize \<Rightarrow> forwarding_entry list \<Rightarrow> forwarding_entry list" where
  "get_history from_ts until_ts limit offset history =
     take (unat limit) (drop (unat offset)
       (filter (\<lambda>e. in_window from_ts until_ts (settled_at e)) history))"

definition clear_history :: "forwarding_entry list \<Rightarrow> forwarding_entry list" where
  "clear_history history = []"

lemma get_history_page:
  "get_history from_ts until_ts limit offset history =
     page (unat offset) (Some (unat limit))
       (filter (\<lambda>e. in_window from_ts until_ts (settled_at e)) history)"
  by (simp add: get_history_def page_def)

lemma get_history_subseq: "subseq (get_history from_ts until_ts limit offset history) history"
proof -
  have "subseq (take n (drop m xs)) xs" for n m and xs :: "forwarding_entry list"
    by (metis subseq_order.order_trans suffix_drop suffix_imp_subseq take_is_prefix prefix_imp_subseq)
  then show ?thesis
    unfolding get_history_def by (metis subseq_filter_left subseq_order.order_trans)
qed

lemma get_history_in_window:
  "e \<in> set (get_history from_ts until_ts limit offset history) \<Longrightarrow>
     e \<in> set history \<and> in_window from_ts until_ts (settled_at e)"
  unfolding get_history_page by (auto dest!: subsetD [OF set_page])

end
