(* ===== verification/Rate_State.thy ===== *)
theory Rate_State
  imports Machine_Int
begin

section \<open>Token buckets: \<open>src/rate_limit_rule.rs\<close> and \<open>src/state/rate_state.rs\<close>\<close>

text \<open>
  A \<open>RateLimitRule\<close> says how fast tokens come back and how many there can be; a
  \<open>RateState\<close> is one bucket. The operations that take \<open>&mut self\<close> return the new
  bucket beside their result. The first group of lemmas computes every branch in
  unbounded arithmetic, the second keeps the balance between zero and the capacity, the
  third is about sequences of withdrawals. The locale \<open>meter\<close> is what the access layer
  relies on: a check that predicts the debit.
\<close>

subsection \<open>Rules\<close>

record rate_limit_rule =
  rate_per_micro :: u64
  max_capacity :: i64

definition default_max_capacity :: i64 where
  "default_max_capacity = I64_MAX"

text \<open>
  The input of the field's deserializer is an integer of the JSON text;
  \<open>i64::deserialize\<close> rejects what does not fit.
\<close>

definition i64_deserialize :: "int \<Rightarrow> string + i64" where
  "i64_deserialize v =
     (if - (2 ^ 63) \<le> v \<and> v < 2 ^ 63 then Ok (i64_of_int v)
      else Err ''invalid value: expected i64'')"

definition deserialize_max_capacity :: "int \<Rightarrow> string + i64" where
  "deserialize_max_capacity v =
     rbind (i64_deserialize v) (\<lambda>value.
       if sint value < 0
       then Err ''max_capacity must be between 0 and 9223372036854775807''
       else Ok value)"

text \<open>The fields of the JSON object that are present, each with its integer.\<close>

definition rate_limit_rule_from_fields :: "u64 option \<Rightarrow> int option \<Rightarrow> string + rate_limit_rule" where
  "rate_limit_rule_from_fields rate cap =
     rbind (case cap of None \<Rightarrow> Ok default_max_capacity | Some v \<Rightarrow> deserialize_max_capacity v)
       (\<lambda>c. Ok \<lparr>rate_per_micro = (case rate of None \<Rightarrow> 0 | Some r \<Rightarrow> r), max_capacity = c\<rparr>)"

definition valid_rule :: "rate_limit_rule \<Rightarrow> bool" where
  "valid_rule r \<longleftrightarrow> 0 \<le> sint (max_capacity r)"

subsection \<open>Buckets\<close>

datatype rate_state_error =
    InsufficientBalance
  | AmountTooLarge u64
  | InvalidRule i64
  | InternalInvariantViolation

record rate_state =
  balance :: i64
  last_refill_micros :: u64

definition rate_state_new :: "i64 \<Rightarrow> u64 \<Rightarrow> rate_state" where
  "rate_state_new b t = \<lparr>balance = b, last_refill_micros = t\<rparr>"

definition from_rule :: "u64 \<Rightarrow> rate_limit_rule \<Rightarrow> rate_state_error + rate_state" where
  "from_rule now rule =
     (if i64_less (max_capacity rule) 0 then Err (InvalidRule (max_capacity rule))
      else Ok (rate_state_new (max_capacity rule) now))"

definition calculate_refill ::
    "rate_state \<Rightarrow> u64 \<Rightarrow> rate_limit_rule \<Rightarrow> rate_state_error + i64" where
  "calculate_refill s now rule =
     (if i64_less (max_capacity rule) 0 then Err (InvalidRule (max_capacity rule))
      else
        let elapsed = u64_saturating_sub now (last_refill_micros s);
            added = u64_saturating_mul (rate_per_micro rule) elapsed;
            added_i64 = (case i64_try_from_u64 added of Some v \<Rightarrow> v | None \<Rightarrow> I64_MAX)
        in Ok (i64_min (i64_saturating_add (balance s) added_i64) (max_capacity rule)))"

definition check_withdraw_after_refill ::
    "rate_state \<Rightarrow> u64 \<Rightarrow> u64 \<Rightarrow> rate_limit_rule \<Rightarrow> rate_state_error + unit" where
  "check_withdraw_after_refill s amount now rule =
     rbind (ok_or (AmountTooLarge amount) (i64_try_from_u64 amount)) (\<lambda>amount_i64.
     rbind (calculate_refill s now rule) (\<lambda>projected_balance.
       if i64_less projected_balance amount_i64 then Err InsufficientBalance else Ok ()))"

definition withdraw_after_refill ::
    "rate_state \<Rightarrow> u64 \<Rightarrow> u64 \<Rightarrow> rate_limit_rule \<Rightarrow> (rate_state_error + unit) \<times> rate_state" where
  "withdraw_after_refill s amount now rule =
     (case ok_or (AmountTooLarge amount) (i64_try_from_u64 amount) of
        Err e \<Rightarrow> (Err e, s)
      | Ok amount_i64 \<Rightarrow>
         (case calculate_refill s now rule of
            Err e \<Rightarrow> (Err e, s)
          | Ok refilled_balance \<Rightarrow>
              if i64_less refilled_balance amount_i64 then (Err InsufficientBalance, s)
              else (Ok (), s\<lparr>balance := i64_saturating_sub refilled_balance amount_i64\<rparr>)))"

definition refund ::
    "rate_state \<Rightarrow> u64 \<Rightarrow> rate_limit_rule \<Rightarrow> (rate_state_error + unit) \<times> rate_state" where
  "refund s amount rule =
     (if i64_less (max_capacity rule) 0 then (Err (InvalidRule (max_capacity rule)), s)
      else
        (case ok_or (AmountTooLarge amount) (i64_try_from_u64 amount) of
           Err e \<Rightarrow> (Err e, s)
         | Ok amount_i64 \<Rightarrow>
             (Ok (), s\<lparr>balance := i64_min (i64_saturating_add (balance s) amount_i64)
                                        (max_capacity rule)\<rparr>)))"

subsection \<open>Every branch in unbounded arithmetic\<close>

text \<open>The tokens that came back since the bucket's timestamp, and the level they give.\<close>

definition refilled_tokens :: "rate_state \<Rightarrow> u64 \<Rightarrow> rate_limit_rule \<Rightarrow> int" where
  "refilled_tokens s now rule =
     int (unat (rate_per_micro rule) * (unat now - unat (last_refill_micros s)))"

definition level_at :: "rate_state \<Rightarrow> u64 \<Rightarrow> rate_limit_rule \<Rightarrow> int" where
  "level_at s now rule =
     min (sint (max_capacity rule)) (sint (balance s) + refilled_tokens s now rule)"

definition bucket_ok :: "rate_limit_rule \<Rightarrow> rate_state \<Rightarrow> bool" where
  "bucket_ok rule s \<longleftrightarrow> 0 \<le> sint (balance s) \<and> sint (balance s) \<le> sint (max_capacity rule)"

lemma i64_less_0 [simp]: "i64_less c 0 \<longleftrightarrow> sint c < 0"
  by (simp add: i64_less_def)

lemma refilled_tokens_nonneg: "0 \<le> refilled_tokens s now rule"
  by (simp add: refilled_tokens_def)

lemma level_at_range:
  assumes "valid_rule rule" and "0 \<le> sint (balance s)"
  shows "0 \<le> level_at s now rule" "level_at s now rule \<le> sint (max_capacity rule)"
    "level_at s now rule < 2 ^ 63"
  using assms refilled_tokens_nonneg [of s now rule] sint_i64_range(2) [of "max_capacity rule"]
  by (auto simp: level_at_def valid_rule_def min_def)

lemma added_value:
  "sint (case i64_try_from_u64 x of Some v \<Rightarrow> v | None \<Rightarrow> I64_MAX) =
     min (2 ^ 63 - 1) (int (unat x))"
proof (cases "i64_try_from_u64 x")
  case None
  then have "2 ^ 63 \<le> unat x" by (simp add: i64_try_from_u64_None)
  then have "int (2 ^ 63) \<le> int (unat x)" by (simp only: of_nat_le_iff)
  with None show ?thesis by simp
next
  case (Some v)
  then have "sint v = int (unat x)" and "unat x < 2 ^ 63"
    by (auto dest: i64_try_from_u64_Some)
  moreover from this(2) have "int (unat x) < int (2 ^ 63)" by (simp only: of_nat_less_iff)
  ultimately show ?thesis using Some by simp
qed

lemma saturating_refill_exact:
  assumes "0 \<le> b" "b < 2 ^ 63" "0 \<le> c" "c < 2 ^ 63" "0 \<le> (t :: int)"
  shows "min c (i64_clamp (b + min (2 ^ 63 - 1) (min (2 ^ 64 - 1) t))) = min c (b + t)"
  using assms by (simp add: i64_clamp_def min_def max_def)

lemma calculate_refill_level:
  assumes rule: "valid_rule rule" and bal: "0 \<le> sint (balance s)"
  shows "calculate_refill s now rule = Ok (i64_of_int (level_at s now rule))"
proof -
  let ?added = "u64_saturating_mul (rate_per_micro rule)
      (u64_saturating_sub now (last_refill_micros s))"
  let ?r = "i64_min (i64_saturating_add (balance s)
      (case i64_try_from_u64 ?added of Some v \<Rightarrow> v | None \<Rightarrow> I64_MAX)) (max_capacity rule)"
  have "int (unat ?added) = min (2 ^ 64 - 1) (refilled_tokens s now rule)"
    by (simp add: int_values refilled_tokens_def of_nat_min del: of_nat_mult)
  then have "sint ?r = min (sint (max_capacity rule))
      (i64_clamp (sint (balance s) + min (2 ^ 63 - 1) (min (2 ^ 64 - 1) (refilled_tokens s now rule))))"
    by (simp add: sint_i64_min sint_i64_saturating_add added_value min.commute
        del: of_nat_unat)
  also have "\<dots> = level_at s now rule"
    unfolding level_at_def
    using rule bal sint_i64_range(2) refilled_tokens_nonneg
    by (intro saturating_refill_exact) (auto simp: valid_rule_def)
  finally have "sint ?r = level_at s now rule" .
  moreover have "sint (i64_of_int (level_at s now rule)) = level_at s now rule"
    using level_at_range [OF assms, of now] by (intro sint_i64_of_int) simp_all
  ultimately have "?r = i64_of_int (level_at s now rule)"
    by (simp add: sint_inject [symmetric])
  then show ?thesis
    using rule by (simp add: calculate_refill_def valid_rule_def Let_def)
qed

text \<open>The check is the debit's own result: the two phases run the same tests in the same order.\<close>

lemma check_is_debit_result:
  "check_withdraw_after_refill s amount now rule = fst (withdraw_after_refill s amount now rule)"
  by (simp add: check_withdraw_after_refill_def withdraw_after_refill_def rbind_def
      split: sum.splits)

lemma withdraw_error_keeps_state:
  "fst (withdraw_after_refill s amount now rule) = Err e \<Longrightarrow>
     snd (withdraw_after_refill s amount now rule) = s"
  by (auto simp: withdraw_after_refill_def split: sum.splits if_splits)

lemma withdraw_after_refill_eq:
  assumes rule: "valid_rule rule" and bal: "0 \<le> sint (balance s)"
  shows "withdraw_after_refill s amount now rule =
     (if 2 ^ 63 \<le> unat amount then (Err (AmountTooLarge amount), s)
      else if level_at s now rule < int (unat amount) then (Err InsufficientBalance, s)
      else (Ok (), s\<lparr>balance := i64_of_int (level_at s now rule - int (unat amount))\<rparr>))"
proof (cases "i64_try_from_u64 amount")
  case None
  then have "2 ^ 63 \<le> unat amount" by (simp add: i64_try_from_u64_None)
  with None show ?thesis by (simp add: withdraw_after_refill_def)
next
  case (Some a)
  then have a: "sint a = int (unat amount)" "unat amount < 2 ^ 63"
    by (auto dest: i64_try_from_u64_Some)
  let ?l = "i64_of_int (level_at s now rule)"
  note range = level_at_range [OF assms, of now]
  have l: "sint ?l = level_at s now rule"
    using range by (intro sint_i64_of_int) simp_all
  have debit: "i64_saturating_sub ?l a = i64_of_int (level_at s now rule - int (unat amount))"
    if "\<not> level_at s now rule < int (unat amount)"
    using that range a l unfolding i64_saturating_sub_def
    by (simp add: i64_clamp_id del: of_nat_unat)
  show ?thesis
    using Some a debit l
    by (simp add: withdraw_after_refill_def calculate_refill_level [OF assms] i64_less_def
        del: of_nat_unat)
qed

lemma refund_eq:
  assumes rule: "valid_rule rule" and bal: "0 \<le> sint (balance s)"
  shows "refund s amount rule =
     (if 2 ^ 63 \<le> unat amount then (Err (AmountTooLarge amount), s)
      else (Ok (), s\<lparr>balance :=
              i64_of_int (min (sint (max_capacity rule)) (sint (balance s) + int (unat amount)))\<rparr>))"
proof (cases "i64_try_from_u64 amount")
  case None
  then have "2 ^ 63 \<le> unat amount" by (simp add: i64_try_from_u64_None)
  with None rule show ?thesis by (simp add: refund_def valid_rule_def)
next
  case (Some a)
  then have a: "sint a = int (unat amount)" "unat amount < 2 ^ 63"
    by (auto dest: i64_try_from_u64_Some)
  let ?new = "min (sint (max_capacity rule)) (sint (balance s) + int (unat amount))"
  have "sint (i64_min (i64_saturating_add (balance s) a) (max_capacity rule)) = ?new"
    using a(1) bal sint_i64_range [of "max_capacity rule"] sint_i64_range [of "balance s"]
    by (simp add: int_values i64_clamp_def min_def max_def del: of_nat_unat)
  moreover have "sint (i64_of_int ?new) = ?new"
    using rule bal sint_i64_range(2) [of "max_capacity rule"]
    by (intro sint_i64_of_int) (auto simp: valid_rule_def min_def simp del: of_nat_unat)
  ultimately have "i64_min (i64_saturating_add (balance s) a) (max_capacity rule) = i64_of_int ?new"
    by (simp add: sint_inject [symmetric])
  with Some a rule show ?thesis
    by (simp add: refund_def valid_rule_def del: of_nat_unat)
qed

lemma invalid_rule_errors:
  assumes "\<not> valid_rule rule"
  shows "from_rule now rule = Err (InvalidRule (max_capacity rule))"
    "refund s amount rule = (Err (InvalidRule (max_capacity rule)), s)"
    "withdraw_after_refill s amount now rule =
       (if 2 ^ 63 \<le> unat amount then (Err (AmountTooLarge amount), s)
        else (Err (InvalidRule (max_capacity rule)), s))"
  using assms
  by (auto simp: from_rule_def refund_def withdraw_after_refill_def calculate_refill_def
      valid_rule_def i64_try_from_u64_def)

subsection \<open>The balance stays between zero and the capacity\<close>

lemma from_rule_ok: "from_rule now rule = Ok s \<Longrightarrow> bucket_ok rule s"
  by (auto simp: from_rule_def rate_state_new_def bucket_ok_def split: if_splits)

lemma from_rule_iff: "(\<exists>s. from_rule now rule = Ok s) \<longleftrightarrow> valid_rule rule"
  by (auto simp: from_rule_def valid_rule_def)

lemma bucket_ok_valid: "bucket_ok rule s \<Longrightarrow> valid_rule rule \<and> 0 \<le> sint (balance s)"
  by (auto simp: bucket_ok_def valid_rule_def)

lemma withdraw_bucket_ok:
  assumes "bucket_ok rule s"
  shows "bucket_ok rule (snd (withdraw_after_refill s amount now rule))"
proof -
  note v = bucket_ok_valid [OF assms]
  note range = level_at_range [of rule s now]
  have "bucket_ok rule (s\<lparr>balance := i64_of_int (level_at s now rule - int (unat amount))\<rparr>)"
    if "\<not> level_at s now rule < int (unat amount)"
  proof -
    have "sint (i64_of_int (level_at s now rule - int (unat amount))) =
        level_at s now rule - int (unat amount)"
      using that range v by (intro sint_i64_of_int) (simp_all del: of_nat_unat)
    with that range v show ?thesis
      using of_nat_0_le_iff [of "unat amount"]
      by (simp add: bucket_ok_def del: of_nat_unat of_nat_0_le_iff)
  qed
  with assms v show ?thesis
    by (simp add: withdraw_after_refill_eq)
qed

lemma refund_bucket_ok:
  assumes "bucket_ok rule s"
  shows "bucket_ok rule (snd (refund s amount rule))"
proof -
  let ?new = "min (sint (max_capacity rule)) (sint (balance s) + int (unat amount))"
  note v = bucket_ok_valid [OF assms]
  have "0 \<le> ?new" using v by (auto simp: valid_rule_def min_def)
  moreover from this have "sint (i64_of_int ?new) = ?new"
    using sint_i64_range(2) [of "max_capacity rule"]
    by (intro sint_i64_of_int) (auto simp: min_def)
  ultimately show ?thesis
    using assms v by (simp add: refund_eq bucket_ok_def)
qed

lemma timestamp_never_moves:
  "last_refill_micros (snd (withdraw_after_refill s amount now rule)) = last_refill_micros s"
  "last_refill_micros (snd (refund s amount rule)) = last_refill_micros s"
  by (simp_all add: withdraw_after_refill_def refund_def split: sum.splits)

lemma refund_restores_level:
  assumes "bucket_ok rule s" and "fst (withdraw_after_refill s amount now rule) = Ok ()"
  shows "refund (snd (withdraw_after_refill s amount now rule)) amount rule =
    (Ok (), s\<lparr>balance := i64_of_int (level_at s now rule)\<rparr>)"
proof -
  note v = bucket_ok_valid [OF assms(1)]
  note eq = withdraw_after_refill_eq [of rule s amount now, OF conjunct1 [OF v] conjunct2 [OF v]]
  have small: "unat amount < 2 ^ 63" and le: "\<not> level_at s now rule < int (unat amount)"
    using assms(2) unfolding eq by (auto split: if_splits)
  let ?s' = "s\<lparr>balance := i64_of_int (level_at s now rule - int (unat amount))\<rparr>"
  have s': "snd (withdraw_after_refill s amount now rule) = ?s'"
    unfolding eq using small le by simp
  have bal': "sint (balance ?s') = level_at s now rule - int (unat amount)"
    using le level_at_range [of rule s now] v
    by (simp del: of_nat_unat)
  then have "0 \<le> sint (balance ?s')" using le by simp
  then show ?thesis
    using small v bal' level_at_range(2) [of rule s now]
    by (simp add: s' refund_eq min_absorb2 del: of_nat_unat)
qed

subsection \<open>The interface of the access layer\<close>

text \<open>
  Access control works in two phases (check every meter, then debit every meter) and
  credits the meters again when the execution fails. It relies on these laws only.
\<close>

locale meter =
  fixes check :: "'s \<Rightarrow> 'a \<Rightarrow> 'e + unit"
    and debit :: "'s \<Rightarrow> 'a \<Rightarrow> ('e + unit) \<times> 's"
    and credit :: "'s \<Rightarrow> 'a \<Rightarrow> ('e + unit) \<times> 's"
    and inv :: "'s \<Rightarrow> bool"
    and content :: "'s \<Rightarrow> int"
  assumes check_debit: "check s a = fst (debit s a)"
    and debit_failed: "fst (debit s a) = Err e \<Longrightarrow> snd (debit s a) = s"
    and debit_inv: "inv s \<Longrightarrow> inv (snd (debit s a))"
    and credit_inv: "inv s \<Longrightarrow> inv (snd (credit s a))"
    and credit_debit: "inv s \<Longrightarrow> fst (debit s a) = Ok () \<Longrightarrow>
          fst (credit (snd (debit s a)) a) = Ok () \<and>
          content s \<le> content (snd (credit (snd (debit s a)) a))"
begin

lemma checked_debit_succeeds: "check s a = Ok () \<Longrightarrow> fst (debit s a) = Ok ()"
  by (simp add: check_debit)

definition attempt :: "'s \<Rightarrow> 'a \<Rightarrow> bool \<Rightarrow> 's" where
  "attempt s a executed =
     (case check s a of
        Err e \<Rightarrow> s
      | Ok _ \<Rightarrow> if executed then snd (debit s a) else snd (credit (snd (debit s a)) a))"

lemma attempt_inv: "inv s \<Longrightarrow> inv (attempt s a executed)"
  by (auto simp: attempt_def debit_inv credit_inv split: sum.splits)

lemma failed_attempt_costs_nothing: "inv s \<Longrightarrow> content s \<le> content (attempt s a False)"
  using credit_debit [of s a] by (auto simp: attempt_def check_debit split: sum.splits)

fun attempts :: "'s \<Rightarrow> ('a \<times> bool) list \<Rightarrow> 's" where
  "attempts s [] = s"
| "attempts s ((a, executed) # rest) = attempts (attempt s a executed) rest"

lemma attempts_inv: "inv s \<Longrightarrow> inv (attempts s as)"
  by (induction s as rule: attempts.induct) (auto simp: attempt_inv)

lemma failed_attempts_cost_nothing:
  "inv s \<Longrightarrow> \<forall>(a, executed) \<in> set as. \<not> executed \<Longrightarrow> content s \<le> content (attempts s as)"
proof (induction s as rule: attempts.induct)
  case (1 s)
  then show ?case by simp
next
  case (2 s a executed rest)
  then show ?case
    using failed_attempt_costs_nothing [of s a] attempt_inv [of s a executed]
    by (auto intro: order_trans)
qed

end

interpretation bucket: meter
  "\<lambda>s amount. check_withdraw_after_refill s amount now rule"
  "\<lambda>s amount. withdraw_after_refill s amount now rule"
  "\<lambda>s amount. refund s amount rule"
  "bucket_ok rule"
  "\<lambda>s. sint (balance s)"
  for now rule
proof unfold_locales
  fix s :: rate_state and a :: u64
  assume ok: "bucket_ok rule s" and paid: "fst (withdraw_after_refill s a now rule) = Ok ()"
  from ok have "sint (balance s) \<le> level_at s now rule"
    using refilled_tokens_nonneg [of s now rule] by (auto simp: bucket_ok_def level_at_def)
  moreover have "sint (i64_of_int (level_at s now rule)) = level_at s now rule"
    using bucket_ok_valid [OF ok] level_at_range [of rule s now]
    by (intro sint_i64_of_int) simp_all
  ultimately show
    "fst (refund (snd (withdraw_after_refill s a now rule)) a rule) = Ok () \<and>
     sint (balance s) \<le> sint (balance (snd (refund (snd (withdraw_after_refill s a now rule)) a rule)))"
    by (simp add: refund_restores_level [OF ok paid])
qed (simp_all add: check_is_debit_result withdraw_error_keeps_state withdraw_bucket_ok refund_bucket_ok)

subsection \<open>Sequences of withdrawals\<close>

text \<open>The amounts granted in a sequence of requests (amount and time), and the bucket after it.\<close>

fun withdraw_run :: "rate_limit_rule \<Rightarrow> rate_state \<Rightarrow> (u64 \<times> u64) list \<Rightarrow> int \<times> rate_state" where
  "withdraw_run rule s [] = (0, s)"
| "withdraw_run rule s ((amount, now) # rest) =
     (case withdraw_after_refill s amount now rule of
        (Ok _, s') \<Rightarrow> (case withdraw_run rule s' rest of (t, s'') \<Rightarrow> (int (unat amount) + t, s''))
      | (Err _, s') \<Rightarrow> withdraw_run rule s' rest)"

lemma level_without_refill:
  "bucket_ok rule s \<Longrightarrow> rate_per_micro rule = 0 \<Longrightarrow> level_at s now rule = sint (balance s)"
  by (simp add: level_at_def refilled_tokens_def bucket_ok_def min_absorb2)

lemma withdraw_cases:
  assumes "bucket_ok rule s"
  obtains (refused) e where "withdraw_after_refill s amount now rule = (Err e, s)"
  | (granted) s' where "withdraw_after_refill s amount now rule = (Ok (), s')"
      and "s' = s\<lparr>balance := i64_of_int (level_at s now rule - int (unat amount))\<rparr>"
      and "sint (balance s') = level_at s now rule - int (unat amount)"
      and "int (unat amount) \<le> level_at s now rule" and "bucket_ok rule s'"
proof -
  note v = bucket_ok_valid [OF assms]
  note eq = withdraw_after_refill_eq [of rule s amount now, OF conjunct1 [OF v] conjunct2 [OF v]]
  let ?s' = "s\<lparr>balance := i64_of_int (level_at s now rule - int (unat amount))\<rparr>"
  show ?thesis
  proof (cases "2 ^ 63 \<le> unat amount \<or> level_at s now rule < int (unat amount)")
    case True
    then show ?thesis using refused eq by (auto split: if_splits)
  next
    case False
    then have w: "withdraw_after_refill s amount now rule = (Ok (), ?s')" unfolding eq by simp
    have "sint (balance ?s') = level_at s now rule - int (unat amount)"
      using False level_at_range [of rule s now] v by (simp del: of_nat_unat)
    moreover have "bucket_ok rule ?s'"
      using withdraw_bucket_ok [OF assms, of amount now] w by simp
    ultimately show ?thesis using granted [OF w refl] False by simp
  qed
qed

text \<open>
  A rule need not be the one the bucket was made for: what an operation leaves is within the
  capacity of the rule it ran with, as long as the bucket was not negative.
\<close>

lemma withdraw_any_rule:
  assumes "0 \<le> sint (balance s)"
  obtains (refused) e where "withdraw_after_refill s amount now rule = (Err e, s)"
  | (granted) s' where "withdraw_after_refill s amount now rule = (Ok (), s')" and "bucket_ok rule s'"
      and "sint (balance s') = level_at s now rule - int (unat amount)"
proof (cases "valid_rule rule \<and> unat amount < 2 ^ 63 \<and> int (unat amount) \<le> level_at s now rule")
  case True
  let ?s' = "s\<lparr>balance := i64_of_int (level_at s now rule - int (unat amount))\<rparr>"
  have w: "withdraw_after_refill s amount now rule = (Ok (), ?s')"
    using True assms by (simp add: withdraw_after_refill_eq del: of_nat_unat)
  have "sint (balance ?s') = level_at s now rule - int (unat amount)"
    using True assms level_at_range [of rule s now] by (simp del: of_nat_unat)
  moreover from this have "bucket_ok rule ?s'"
    using True assms level_at_range [of rule s now] of_nat_0_le_iff [of "unat amount"]
    by (simp add: bucket_ok_def del: of_nat_unat of_nat_0_le_iff)
  ultimately show ?thesis using granted [OF w] by blast
next
  case False
  show ?thesis
  proof (cases "valid_rule rule")
    case True
    with False assms show ?thesis
      by (intro refused [of "if 2 ^ 63 \<le> unat amount then AmountTooLarge amount else InsufficientBalance"])
        (auto simp: withdraw_after_refill_eq simp del: of_nat_unat)
  next
    case False
    then show ?thesis
      by (intro refused [of "if 2 ^ 63 \<le> unat amount then AmountTooLarge amount else InvalidRule (max_capacity rule)"])
        (simp add: invalid_rule_errors)
  qed
qed

lemma refund_any_rule:
  assumes "0 \<le> sint (balance s)"
  obtains (refused) e where "refund s amount rule = (Err e, s)"
  | (granted) s' where "refund s amount rule = (Ok (), s')" and "bucket_ok rule s'"
      and "sint (balance s') = min (sint (max_capacity rule)) (sint (balance s) + int (unat amount))"
proof (cases "valid_rule rule \<and> unat amount < 2 ^ 63")
  case True
  let ?new = "min (sint (max_capacity rule)) (sint (balance s) + int (unat amount))"
  have r: "refund s amount rule = (Ok (), s\<lparr>balance := i64_of_int ?new\<rparr>)"
    using True assms by (simp add: refund_eq del: of_nat_unat)
  have pos: "0 \<le> ?new" using True assms by (auto simp: valid_rule_def min_def)
  then have new: "sint (i64_of_int ?new) = ?new"
    using sint_i64_range(2) [of "max_capacity rule"] by (intro sint_i64_of_int) (auto simp: min_def)
  show ?thesis
    using granted [OF r] pos new by (simp add: bucket_ok_def del: of_nat_unat)
next
  case False
  then show ?thesis
  proof (cases "valid_rule rule")
    case True
    with False assms show ?thesis by (intro refused [of "AmountTooLarge amount"]) (simp add: refund_eq)
  next
    case False
    then show ?thesis by (intro refused [of "InvalidRule (max_capacity rule)"]) (simp add: invalid_rule_errors)
  qed
qed

lemma withdraw_run_spent_plus_left:
  assumes "rate_per_micro rule = 0" and "bucket_ok rule s"
  shows "fst (withdraw_run rule s reqs) + sint (balance (snd (withdraw_run rule s reqs)))
    = sint (balance s)"
  using assms(2)
proof (induction reqs arbitrary: s)
  case Nil
  then show ?case by simp
next
  case (Cons req reqs)
  obtain amount now where req: "req = (amount, now)" by fastforce
  from Cons.prems show ?case
  proof (cases rule: withdraw_cases [of rule s amount now])
    case (refused e)
    with Cons.IH [OF Cons.prems] req show ?thesis by simp
  next
    case (granted s')
    then show ?thesis
      using Cons.IH [of s'] req level_without_refill [OF Cons.prems assms(1)]
      by (cases "withdraw_run rule s' reqs") (simp del: of_nat_unat)
  qed
qed

lemma withdraw_run_ok: "bucket_ok rule s \<Longrightarrow> bucket_ok rule (snd (withdraw_run rule s reqs))"
proof (induction reqs arbitrary: s)
  case Nil
  then show ?case by simp
next
  case (Cons req reqs)
  obtain amount now where req: "req = (amount, now)" by fastforce
  from Cons.prems show ?case
  proof (cases rule: withdraw_cases [of rule s amount now])
    case (refused e)
    with Cons req show ?thesis by simp
  next
    case (granted s')
    show ?thesis
      using granted(1,5) Cons.IH [of s'] req by (cases "withdraw_run rule s' reqs") simp
  qed
qed

subsection \<open>What a bucket guarantees\<close>

text \<open>C21: a withdrawal from a bucket within its capacity grants exactly the amounts up to the
  level that the balance and the tokens since the bucket's timestamp give, in unbounded
  arithmetic, for every rate, time and amount of the machine types.\<close>

theorem withdraw_is_exact:
  assumes "bucket_ok rule s"
  shows "withdraw_after_refill s amount now rule =
     (if 2 ^ 63 \<le> unat amount then (Err (AmountTooLarge amount), s)
      else if min (sint (max_capacity rule))
                (sint (balance s) + int (unat (rate_per_micro rule) * (unat now - unat (last_refill_micros s))))
              < int (unat amount)
      then (Err InsufficientBalance, s)
      else (Ok (), s\<lparr>balance := i64_of_int (min (sint (max_capacity rule))
                (sint (balance s) + int (unat (rate_per_micro rule) * (unat now - unat (last_refill_micros s))))
              - int (unat amount))\<rparr>))"
  using bucket_ok_valid [OF assms] withdraw_after_refill_eq [of rule s amount now]
  unfolding level_at_def refilled_tokens_def by blast

theorem withdraw_is_exact_witness:
  "withdraw_after_refill \<lparr>balance = 10, last_refill_micros = 5\<rparr> 12 9 \<lparr>rate_per_micro = 2, max_capacity = 15\<rparr> =
     (Ok (), \<lparr>balance = 3, last_refill_micros = 5\<rparr>)"
  by (subst withdraw_is_exact) (simp_all add: bucket_ok_def i64_of_int_def)

text \<open>What a bucket without refill grants over any sequence of requests is what its balance
  loses: nothing is created or lost.\<close>

theorem grants_equal_balance_lost:
  assumes "rate_per_micro rule = 0" and "bucket_ok rule s"
  shows "fst (withdraw_run rule s reqs) = sint (balance s) - sint (balance (snd (withdraw_run rule s reqs)))"
  using withdraw_run_spent_plus_left [OF assms, of reqs] by simp

theorem grants_equal_balance_lost_witness:
  "let s = \<lparr>balance = 10, last_refill_micros = 5\<rparr>; rule = \<lparr>rate_per_micro = 0, max_capacity = 10\<rparr>;
       run = withdraw_run rule s [(7, 6), (4, 7), (3, 8)]
   in fst run = 10 - sint (balance (snd run))"
  unfolding Let_def
  using grants_equal_balance_lost [of "\<lparr>rate_per_micro = 0, max_capacity = 10\<rparr>"
      "\<lparr>balance = 10, last_refill_micros = 5\<rparr>" "[(7, 6), (4, 7), (3, 8)]"]
  by (simp add: bucket_ok_def)

text \<open>C28: once the tokens since a bucket's creation reach its capacity, any number of withdrawals
  of up to the whole capacity is granted, all in the same microsecond: the timestamp of the
  bucket is never advanced, so the same tokens are credited on every withdrawal.\<close>

theorem refill_window_is_reused:
  assumes "bucket_ok rule s"
    and "sint (max_capacity rule) \<le> refilled_tokens s now rule"
    and "\<forall>a \<in> set amounts. int (unat a) \<le> sint (max_capacity rule)"
  shows "fst (withdraw_run rule s (map (\<lambda>a. (a, now)) amounts)) = (\<Sum>a\<leftarrow>amounts. int (unat a))"
  using assms
proof (induction amounts arbitrary: s)
  case Nil
  then show ?case by simp
next
  case (Cons a amounts)
  note v = bucket_ok_valid [OF Cons.prems(1)]
  have level: "level_at s now rule = sint (max_capacity rule)"
    using Cons.prems(2) v by (simp add: level_at_def min_absorb1)
  have "int (unat a) \<le> sint (max_capacity rule)" using Cons.prems(3) by simp
  then have small: "\<not> 2 ^ 63 \<le> unat a"
    using sint_i64_range(2) [of "max_capacity rule"] int_unat_less_63 [of a] by linarith
  from Cons.prems(1) show ?case
  proof (cases rule: withdraw_cases [of rule s a now])
    case (refused e)
    with level small Cons.prems(3) v show ?thesis
      by (simp add: withdraw_after_refill_eq del: of_nat_unat split: if_splits)
  next
    case (granted s')
    have "refilled_tokens s' now rule = refilled_tokens s now rule"
      using granted(2) by (simp add: refilled_tokens_def)
    with granted(1,5) Cons.IH [of s'] Cons.prems show ?thesis
      by (cases "withdraw_run rule s' (map (\<lambda>a. (a, now)) amounts)") (simp del: of_nat_unat)
  qed
qed

theorem refill_window_is_reused_witness:
  "fst (withdraw_run \<lparr>rate_per_micro = 1, max_capacity = 100\<rparr> \<lparr>balance = 100, last_refill_micros = 0\<rparr>
     (map (\<lambda>a. (a, 100)) [100, 100, 100])) = 300"
  by (subst refill_window_is_reused) (simp_all add: bucket_ok_def refilled_tokens_def)

text \<open>C40: the rules that the configuration format admits are exactly those with a capacity
  between zero and the largest \<open>i64\<close>; a missing capacity is the largest, a missing rate is zero.\<close>

theorem deserialized_rules_are_valid:
  "(case rate_limit_rule_from_fields rate cap of
      Ok rule \<Rightarrow> valid_rule rule \<and> rate_per_micro rule = (case rate of None \<Rightarrow> 0 | Some r \<Rightarrow> r) \<and>
        sint (max_capacity rule) = (case cap of None \<Rightarrow> 2 ^ 63 - 1 | Some c \<Rightarrow> c)
    | Err _ \<Rightarrow> \<exists>c. cap = Some c \<and> (c < 0 \<or> 2 ^ 63 \<le> c))"
proof (cases cap)
  case None
  then show ?thesis
    by (simp add: rate_limit_rule_from_fields_def valid_rule_def default_max_capacity_def I64_MAX_def)
next
  case (Some c)
  show ?thesis
  proof (cases "- (2 ^ 63) \<le> c \<and> c < 2 ^ 63")
    case True
    then have "sint (i64_of_int c) = c" by (intro sint_i64_of_int) auto
    with True Some show ?thesis
      by (auto simp: rate_limit_rule_from_fields_def deserialize_max_capacity_def
          i64_deserialize_def valid_rule_def)
  next
    case False
    with Some show ?thesis
      by (auto simp: rate_limit_rule_from_fields_def deserialize_max_capacity_def i64_deserialize_def)
  qed
qed

end
