(* ===== verification/Access_Store.thy ===== *)
theory Access_Store
  imports Nip47 Rate_State
begin

section \<open>Buckets by caller: \<open>src/state/store/access_store.rs\<close>\<close>

text \<open>
  The store holds two maps, one bucket per caller and method and one per caller for its
  quota. A map entry is an \<open>Arc<Mutex<RateState>>\<close>: a handle that a request keeps after
  the entry is gone. So the maps lead to addresses and the buckets are in a heap of
  cells; a cell also records whether its mutex is poisoned. The locks of the two maps are
  never poisoned, because nothing that runs under them can panic.
\<close>

datatype access_key =
    AccessKey_Method pubkey nip47_method
  | AccessKey_Quota pubkey

type_synonym addr = nat

record rate_cell =
  cell_state :: rate_state
  cell_poisoned :: bool

record access_state =
  access_rate :: "access_key \<rightharpoonup> addr"
  quota :: "access_key \<rightharpoonup> addr"
  heap :: "addr \<Rightarrow> rate_cell option"
  next_addr :: addr

definition access_state_empty :: access_state where
  "access_state_empty =
     \<lparr>access_rate = Map.empty, quota = Map.empty, heap = Map.empty, next_addr = 0\<rparr>"

fun access_key_pubkey :: "access_key \<Rightarrow> pubkey" where
  "access_key_pubkey (AccessKey_Method pk m) = pk"
| "access_key_pubkey (AccessKey_Quota pk) = pk"

definition get_access_rate_state :: "access_key \<Rightarrow> access_state \<Rightarrow> addr option" where
  "get_access_rate_state key st = access_rate st key"

definition get_quota_state :: "access_key \<Rightarrow> access_state \<Rightarrow> addr option" where
  "get_quota_state key st = quota st key"

text \<open>\<open>Arc::new(Mutex::new(state))\<close>\<close>

definition alloc_cell :: "rate_state \<Rightarrow> access_state \<Rightarrow> addr \<times> access_state" where
  "alloc_cell s st =
     (next_addr st,
      st\<lparr>heap := (heap st)(next_addr st \<mapsto> \<lparr>cell_state = s, cell_poisoned = False\<rparr>),
         next_addr := Suc (next_addr st)\<rparr>)"

definition insert_access_rate_state ::
    "access_key \<Rightarrow> rate_state \<Rightarrow> access_state \<Rightarrow> addr \<times> access_state" where
  "insert_access_rate_state key s st =
     (case alloc_cell s st of
        (handle, st') \<Rightarrow> (handle, st'\<lparr>access_rate := (access_rate st')(key \<mapsto> handle)\<rparr>))"

definition insert_quota_state ::
    "access_key \<Rightarrow> rate_state \<Rightarrow> access_state \<Rightarrow> addr \<times> access_state" where
  "insert_quota_state key s st =
     (case alloc_cell s st of
        (handle, st') \<Rightarrow> (handle, st'\<lparr>quota := (quota st')(key \<mapsto> handle)\<rparr>))"

definition map_retain :: "('k \<Rightarrow> 'v \<Rightarrow> bool) \<Rightarrow> ('k \<rightharpoonup> 'v) \<Rightarrow> ('k \<rightharpoonup> 'v)" where
  "map_retain keep m =
     (\<lambda>k. case m k of None \<Rightarrow> None | Some v \<Rightarrow> if keep k v then Some v else None)"

definition retain_access_rate_states ::
    "(access_key \<Rightarrow> addr \<Rightarrow> bool) \<Rightarrow> access_state \<Rightarrow> access_state" where
  "retain_access_rate_states keep st = st\<lparr>access_rate := map_retain keep (access_rate st)\<rparr>"

definition retain_quota_states ::
    "(access_key \<Rightarrow> addr \<Rightarrow> bool) \<Rightarrow> access_state \<Rightarrow> access_state" where
  "retain_quota_states keep st = st\<lparr>quota := map_retain keep (quota st)\<rparr>"

definition clear_access_rate_states :: "access_state \<Rightarrow> access_state" where
  "clear_access_rate_states st = st\<lparr>access_rate := Map.empty\<rparr>"

definition clear_quota_states :: "access_state \<Rightarrow> access_state" where
  "clear_quota_states st = st\<lparr>quota := Map.empty\<rparr>"

definition clear_all_states :: "access_state \<Rightarrow> access_state" where
  "clear_all_states st = clear_quota_states (clear_access_rate_states st)"

subsection \<open>What a caller sees: the bucket behind a key\<close>

definition deref :: "access_state \<Rightarrow> addr option \<Rightarrow> rate_state option" where
  "deref st a = Option.bind a (\<lambda>p. map_option cell_state (heap st p))"

definition access_rate_bucket :: "access_state \<Rightarrow> access_key \<Rightarrow> rate_state option" where
  "access_rate_bucket st key = deref st (access_rate st key)"

definition quota_bucket :: "access_state \<Rightarrow> access_key \<Rightarrow> rate_state option" where
  "quota_bucket st key = deref st (quota st key)"

subsection \<open>Well-formed stores\<close>

text \<open>
  Every handle leads to a cell, no cell has two keys, and the keys of a map are of its
  kind. Under this invariant a debit through one handle is seen under one key only.
\<close>

fun is_method_key :: "access_key \<Rightarrow> bool" where
  "is_method_key (AccessKey_Method pk m) = True"
| "is_method_key (AccessKey_Quota pk) = False"

definition handles :: "access_state \<Rightarrow> (access_key \<times> addr) set" where
  "handles st = {(k, a). access_rate st k = Some a \<or> quota st k = Some a}"

definition wf_access_state :: "access_state \<Rightarrow> bool" where
  "wf_access_state st \<longleftrightarrow>
     (\<forall>(k, a) \<in> handles st. heap st a \<noteq> None) \<and>
     (\<forall>a. heap st a \<noteq> None \<longrightarrow> a < next_addr st) \<and>
     (\<forall>(k, a) \<in> handles st. \<forall>(k', a') \<in> handles st. a = a' \<longrightarrow> k = k') \<and>
     (\<forall>k \<in> dom (access_rate st). is_method_key k) \<and>
     (\<forall>k \<in> dom (quota st). \<not> is_method_key k)"

lemma wf_access_stateD:
  assumes "wf_access_state st"
  shows "(k, a) \<in> handles st \<Longrightarrow> heap st a \<noteq> None"
    and "heap st a \<noteq> None \<Longrightarrow> a < next_addr st"
    and "(k, a) \<in> handles st \<Longrightarrow> (k', a) \<in> handles st \<Longrightarrow> k = k'"
    and "access_rate st k = Some a \<Longrightarrow> is_method_key k"
    and "quota st k = Some a \<Longrightarrow> \<not> is_method_key k"
  using assms by (auto simp: wf_access_state_def dom_def split: prod.splits)

lemma wf_access_stateI:
  assumes "\<And>k a. (k, a) \<in> handles st \<Longrightarrow> heap st a \<noteq> None"
    and "\<And>a. heap st a \<noteq> None \<Longrightarrow> a < next_addr st"
    and "\<And>k k' a. (k, a) \<in> handles st \<Longrightarrow> (k', a) \<in> handles st \<Longrightarrow> k = k'"
    and "\<And>k a. access_rate st k = Some a \<Longrightarrow> is_method_key k"
    and "\<And>k a. quota st k = Some a \<Longrightarrow> \<not> is_method_key k"
  shows "wf_access_state st"
  using assms by (auto simp: wf_access_state_def dom_def)

lemma handlesI [intro]:
  "access_rate st k = Some a \<Longrightarrow> (k, a) \<in> handles st"
  "quota st k = Some a \<Longrightarrow> (k, a) \<in> handles st"
  by (simp_all add: handles_def)

lemma fresh_address:
  assumes "wf_access_state st"
  shows "heap st (next_addr st) = None" "(k, next_addr st) \<notin> handles st"
  using wf_access_stateD(1,2) [OF assms] by blast+

lemma wf_empty [wf_intros]: "wf_access_state access_state_empty"
  by (simp add: wf_access_state_def access_state_empty_def handles_def)

lemma insert_eqs:
  "insert_access_rate_state key s st =
     (next_addr st,
      st\<lparr>access_rate := (access_rate st)(key \<mapsto> next_addr st),
         heap := (heap st)(next_addr st \<mapsto> \<lparr>cell_state = s, cell_poisoned = False\<rparr>),
         next_addr := Suc (next_addr st)\<rparr>)"
  "insert_quota_state key s st =
     (next_addr st,
      st\<lparr>quota := (quota st)(key \<mapsto> next_addr st),
         heap := (heap st)(next_addr st \<mapsto> \<lparr>cell_state = s, cell_poisoned = False\<rparr>),
         next_addr := Suc (next_addr st)\<rparr>)"
  by (simp_all add: insert_access_rate_state_def insert_quota_state_def alloc_cell_def)

text \<open>Fewer handles, the same cells: what \<open>retain\<close> and \<open>clear\<close> do.\<close>

lemma wf_submap:
  assumes "wf_access_state st" and "access_rate st' \<subseteq>\<^sub>m access_rate st" and "quota st' \<subseteq>\<^sub>m quota st"
    and "heap st' = heap st" and "next_addr st' = next_addr st"
  shows "wf_access_state st'"
proof -
  have sub: "handles st' \<subseteq> handles st"
    using assms(2,3) by (auto simp: handles_def map_le_def dom_def)
  have le: "access_rate st' k = Some a \<Longrightarrow> access_rate st k = Some a"
      "quota st' k = Some a \<Longrightarrow> quota st k = Some a" for k a
    using assms(2,3) by (metis domI map_le_def)+
  show ?thesis
  proof (rule wf_access_stateI)
    fix k k' a assume "(k, a) \<in> handles st'" "(k', a) \<in> handles st'"
    then show "k = k'" using sub wf_access_stateD(3) [OF assms(1)] by blast
  qed (use sub le assms(4,5) wf_access_stateD [OF assms(1)] in \<open>auto dest: subsetD\<close>)
qed

lemma map_retain_le: "map_retain keep m \<subseteq>\<^sub>m m"
  by (auto simp: map_retain_def map_le_def split: option.splits if_splits)

lemma wf_retain [wf_intros]:
  "wf_access_state st \<Longrightarrow> wf_access_state (retain_access_rate_states keep st)"
  "wf_access_state st \<Longrightarrow> wf_access_state (retain_quota_states keep st)"
  by (auto intro!: wf_submap [of st] map_retain_le
      simp: retain_access_rate_states_def retain_quota_states_def)

lemma wf_clear [wf_intros]:
  "wf_access_state st \<Longrightarrow> wf_access_state (clear_access_rate_states st)"
  "wf_access_state st \<Longrightarrow> wf_access_state (clear_quota_states st)"
  "wf_access_state st \<Longrightarrow> wf_access_state (clear_all_states st)"
  by (auto intro!: wf_submap [of st]
      simp: clear_all_states_def clear_quota_states_def clear_access_rate_states_def)

lemma wf_extend:
  assumes wf: "wf_access_state st"
    and sub: "handles st' \<subseteq> insert (key, next_addr st) (handles st)"
    and heap: "heap st' = (heap st)(next_addr st \<mapsto> c)"
    and "next_addr st' = Suc (next_addr st)"
    and "\<And>k a. access_rate st' k = Some a \<Longrightarrow> is_method_key k"
    and "\<And>k a. quota st' k = Some a \<Longrightarrow> \<not> is_method_key k"
  shows "wf_access_state st'"
proof (rule wf_access_stateI)
  fix k a assume "(k, a) \<in> handles st'"
  then show "heap st' a \<noteq> None"
    using sub heap wf_access_stateD(1) [OF wf] by auto
next
  fix a assume "heap st' a \<noteq> None"
  then show "a < next_addr st'"
    using heap assms(4) wf_access_stateD(2) [OF wf, of a] by (auto split: if_splits)
next
  fix k k' a assume "(k, a) \<in> handles st'" "(k', a) \<in> handles st'"
  then show "k = k'"
    using sub fresh_address(2) [OF wf] wf_access_stateD(3) [OF wf] by blast
qed (fact assms(5,6))+

lemma wf_insert [wf_intros]:
  assumes "wf_access_state st"
  shows "is_method_key key \<Longrightarrow> wf_access_state (snd (insert_access_rate_state key s st))"
    and "\<not> is_method_key key \<Longrightarrow> wf_access_state (snd (insert_quota_state key s st))"
  by (auto intro!: wf_extend [OF assms, where key = key]
      simp: insert_eqs handles_def wf_access_stateD(4,5) [OF assms] split: if_splits)

subsection \<open>Lookups after the operations\<close>

lemma bucket_insert [store_simps]:
  assumes "wf_access_state st"
  shows "access_rate_bucket (snd (insert_access_rate_state key s st)) = (access_rate_bucket st)(key \<mapsto> s)"
    and "quota_bucket (snd (insert_access_rate_state key s st)) = quota_bucket st"
    and "quota_bucket (snd (insert_quota_state key s st)) = (quota_bucket st)(key \<mapsto> s)"
    and "access_rate_bucket (snd (insert_quota_state key s st)) = access_rate_bucket st"
  using fresh_address(2) [OF assms]
  by (auto intro!: ext simp: insert_eqs access_rate_bucket_def quota_bucket_def deref_def handles_def
      split: option.splits bind_splits)

lemma bucket_retain [store_simps]:
  "access_rate_bucket (retain_access_rate_states (\<lambda>k a. P k) st) k =
     (if P k then access_rate_bucket st k else None)"
  "quota_bucket (retain_access_rate_states keep st) = quota_bucket st"
  "quota_bucket (retain_quota_states (\<lambda>k a. P k) st) k =
     (if P k then quota_bucket st k else None)"
  "access_rate_bucket (retain_quota_states keep st) = access_rate_bucket st"
  by (auto simp: access_rate_bucket_def quota_bucket_def retain_access_rate_states_def
      retain_quota_states_def map_retain_def deref_def split: option.splits)

lemma bucket_clear [store_simps]:
  "access_rate_bucket (clear_all_states st) = Map.empty"
  "quota_bucket (clear_all_states st) = Map.empty"
  "access_rate_bucket (clear_access_rate_states st) = Map.empty"
  "quota_bucket (clear_quota_states st) = Map.empty"
  by (auto simp: access_rate_bucket_def quota_bucket_def clear_all_states_def deref_def
      clear_quota_states_def clear_access_rate_states_def)

text \<open>Cells outlive their keys: a request that holds a handle still finds its bucket.\<close>

lemma heap_kept [store_simps]:
  "heap (retain_access_rate_states keep st) = heap st"
  "heap (retain_quota_states keep st) = heap st"
  "heap (clear_all_states st) = heap st"
  by (simp_all add: retain_access_rate_states_def retain_quota_states_def clear_all_states_def
      clear_quota_states_def clear_access_rate_states_def)

lemma heap_insert [store_simps]:
  assumes "wf_access_state st" and "heap st a \<noteq> None"
  shows "heap (snd (insert_access_rate_state key s st)) a = heap st a"
    and "heap (snd (insert_quota_state key s st)) a = heap st a"
  using wf_access_stateD(2) [OF assms] by (simp_all add: insert_eqs)

interpretation method_buckets: keyed_store access_rate_bucket
  "\<lambda>k s st. snd (insert_access_rate_state k s st)" clear_access_rate_states
  wf_access_state is_method_key
  by unfold_locales (auto simp: store_simps intro: wf_intros)

interpretation quota_buckets: keyed_store quota_bucket
  "\<lambda>k s st. snd (insert_quota_state k s st)" clear_quota_states
  wf_access_state "\<lambda>k. \<not> is_method_key k"
  by unfold_locales (auto simp: store_simps intro: wf_intros)

end
