(* ===== verification/Usage_Profile.thy ===== *)
theory Usage_Profile
  imports Access_Store
begin

section \<open>Usage profiles: \<open>src/usage_profile/\<close>\<close>

text \<open>
  A profile says which methods a caller may call and at what rate, and what it may spend.
  The profile store is a map by public key; the service keeps the buckets of the access
  store in step with it. A \<open>HashMap\<close> inside a profile is a list of entries with distinct
  keys, in any order.
\<close>

record method_access_rule =
  rule_access_rate :: "rate_limit_rule option"

record usage_profile =
  profile_quota :: "rate_limit_rule option"
  profile_methods :: "(nip47_method \<times> method_access_rule) list option"
  profile_control :: "(string \<times> method_access_rule) list option"

record profile_state =
  usage_profiles :: "pubkey \<rightharpoonup> usage_profile"
  access :: access_state

definition profile_state_empty :: profile_state where
  "profile_state_empty = \<lparr>usage_profiles = Map.empty, access = access_state_empty\<rparr>"

definition wf_profile :: "usage_profile \<Rightarrow> bool" where
  "wf_profile p \<longleftrightarrow>
     (case profile_methods p of None \<Rightarrow> True | Some ms \<Rightarrow> distinct (map fst ms)) \<and>
     (case profile_control p of None \<Rightarrow> True | Some cs \<Rightarrow> distinct (map fst cs))"

subsection \<open>The profile store: \<open>store.rs\<close>\<close>

definition get_usage_profile :: "pubkey \<Rightarrow> profile_state \<Rightarrow> usage_profile option" where
  "get_usage_profile pk ps = usage_profiles ps pk"

definition clear_usage_profiles_store :: "profile_state \<Rightarrow> profile_state" where
  "clear_usage_profiles_store ps = ps\<lparr>usage_profiles := Map.empty\<rparr>"

definition upsert_usage_profile :: "pubkey \<Rightarrow> usage_profile \<Rightarrow> profile_state \<Rightarrow> profile_state" where
  "upsert_usage_profile target p ps = ps\<lparr>usage_profiles := (usage_profiles ps)(target \<mapsto> p)\<rparr>"

interpretation profile_store: keyed_store "\<lambda>ps pk. get_usage_profile pk ps"
  upsert_usage_profile clear_usage_profiles_store "\<lambda>_. True" "\<lambda>_. True"
  by unfold_locales
    (auto simp: get_usage_profile_def upsert_usage_profile_def clear_usage_profiles_store_def)

subsection \<open>The service: \<open>service.rs\<close>\<close>

definition key_belongs_to_pubkey :: "access_key \<Rightarrow> pubkey \<Rightarrow> bool" where
  "key_belongs_to_pubkey key pk \<longleftrightarrow> access_key_pubkey key = pk"

definition clear_states_for_pubkey :: "pubkey \<Rightarrow> access_state \<Rightarrow> access_state" where
  "clear_states_for_pubkey pk st =
     retain_quota_states (\<lambda>key _. \<not> key_belongs_to_pubkey key pk)
       (retain_access_rate_states (\<lambda>key _. \<not> key_belongs_to_pubkey key pk) st)"

definition clear_all_access_states :: "access_state \<Rightarrow> access_state" where
  "clear_all_access_states st = clear_all_states st"

fun initialize_method_states ::
    "pubkey \<Rightarrow> (nip47_method \<times> method_access_rule) list \<Rightarrow> u64 \<Rightarrow> access_state \<Rightarrow> access_state" where
  "initialize_method_states target [] now st = st"
| "initialize_method_states target ((m, method_rule) # ms) now st =
     initialize_method_states target ms now
       (case rule_access_rate method_rule of
          None \<Rightarrow> st
        | Some rule \<Rightarrow>
           (case from_rule now rule of
              Err _ \<Rightarrow> st
            | Ok s \<Rightarrow> snd (insert_access_rate_state (AccessKey_Method target m) s st)))"

definition initialize_states_for_profile ::
    "pubkey \<Rightarrow> usage_profile \<Rightarrow> u64 \<Rightarrow> access_state \<Rightarrow> access_state" where
  "initialize_states_for_profile target p now st =
     (let st' = (case profile_methods p of
                   None \<Rightarrow> st
                 | Some ms \<Rightarrow> initialize_method_states target ms now st)
      in case profile_quota p of
           None \<Rightarrow> st'
         | Some rule \<Rightarrow>
            (case from_rule now rule of
               Err _ \<Rightarrow> st'
             | Ok s \<Rightarrow> snd (insert_quota_state (AccessKey_Quota target) s st')))"

text \<open>
  The clock gives the microseconds since 1970 as an unbounded number (zero before 1970),
  which is cut off at the largest \<open>u64\<close>.
\<close>

definition now_micros :: "nat \<Rightarrow> u64" where
  "now_micros micros = word_of_nat (min micros (2 ^ 64 - 1))"

definition upsert_usage_profile_and_reset_states ::
    "pubkey \<Rightarrow> usage_profile \<Rightarrow> nat \<Rightarrow> profile_state \<Rightarrow> profile_state" where
  "upsert_usage_profile_and_reset_states target p micros ps =
     upsert_usage_profile target p
       (ps\<lparr>access := initialize_states_for_profile target p (now_micros micros)
                       (clear_states_for_pubkey target (access ps))\<rparr>)"

definition clear_all_usage_profiles_and_states :: "profile_state \<Rightarrow> profile_state" where
  "clear_all_usage_profiles_and_states ps =
     (clear_usage_profiles_store ps)\<lparr>access := clear_all_access_states (access ps)\<rparr>"

subsection \<open>What an update leaves behind\<close>

lemma unat_now_micros: "unat (now_micros micros) = min micros (2 ^ 64 - 1)"
  by (simp add: now_micros_def unat_of_nat)

lemma now_micros_mono: "a \<le> b \<Longrightarrow> now_micros a \<le> now_micros b"
  by (simp add: word_le_nat_alt unat_now_micros)

text \<open>The buckets that a profile asks for.\<close>

definition fresh_bucket :: "u64 \<Rightarrow> rate_limit_rule \<Rightarrow> rate_state option" where
  "fresh_bucket now rule = (case from_rule now rule of Err _ \<Rightarrow> None | Ok s \<Rightarrow> Some s)"

definition method_rule_of :: "usage_profile \<Rightarrow> nip47_method \<Rightarrow> rate_limit_rule option" where
  "method_rule_of p m =
     Option.bind (profile_methods p) (\<lambda>ms. Option.bind (map_of ms m) rule_access_rate)"

definition method_entries ::
    "pubkey \<Rightarrow> u64 \<Rightarrow> (nip47_method \<times> method_access_rule) list \<Rightarrow> (access_key \<times> rate_state) list" where
  "method_entries target now ms =
     List.map_filter (\<lambda>(m, r). map_option (\<lambda>s. (AccessKey_Method target m, s))
       (Option.bind (rule_access_rate r) (fresh_bucket now))) ms"

lemma initialize_method_states_put_all:
  "initialize_method_states target ms now st =
     method_buckets.put_all (method_entries target now ms) st"
  by (induction target ms now st rule: initialize_method_states.induct)
    (auto simp: method_entries_def List.map_filter_simps fresh_bucket_def
      split: option.splits sum.splits)

lemma method_entries_keys:
  "(k, s) \<in> set (method_entries target now ms) \<Longrightarrow> \<exists>m. k = AccessKey_Method target m"
  by (auto simp: method_entries_def List.map_filter_def)

lemma distinct_method_entries:
  "distinct (map fst ms) \<Longrightarrow> distinct (map fst (method_entries target now ms))"
proof (induction ms)
  case Nil
  then show ?case by (simp add: method_entries_def List.map_filter_simps)
next
  case (Cons e ms)
  obtain m r where e: "e = (m, r)" by fastforce
  have "AccessKey_Method target m \<notin> fst ` set (method_entries target now ms)"
    using Cons.prems e by (force simp: method_entries_def List.map_filter_def)
  with Cons e show ?case
    by (auto simp: method_entries_def List.map_filter_simps split: option.splits)
qed

lemma map_of_method_entries_other:
  "(\<And>m. k \<noteq> AccessKey_Method target m) \<Longrightarrow> map_of (method_entries target now ms) k = None"
  using method_entries_keys by (metis map_of_SomeD not_Some_eq)

lemma map_of_method_entries:
  "distinct (map fst ms) \<Longrightarrow>
     map_of (method_entries target now ms) (AccessKey_Method target m) =
       Option.bind (Option.bind (map_of ms m) rule_access_rate) (fresh_bucket now)"
proof (induction ms)
  case Nil
  then show ?case by (simp add: method_entries_def List.map_filter_simps)
next
  case (Cons e ms)
  obtain m' r where e: "e = (m', r)" by fastforce
  have notin: "map_of ms m' = None" using Cons.prems e by (simp add: map_of_eq_None_iff)
  show ?case
    using Cons notin e
    by (cases "Option.bind (rule_access_rate r) (fresh_bucket now)")
      (auto simp: method_entries_def List.map_filter_simps)
qed

lemma method_key_simps [simp]: "is_method_key (AccessKey_Method pk m)" "\<not> is_method_key (AccessKey_Quota pk)"
  by simp_all

lemma wf_initialize_method_states:
  "wf_access_state st \<Longrightarrow> wf_access_state (initialize_method_states target ms now st)"
  unfolding initialize_method_states_put_all
  by (rule method_buckets.inv_put_all) (auto dest: method_entries_keys)

lemma method_buckets_initialize:
  assumes "wf_access_state st" and "distinct (map fst ms)"
  shows "access_rate_bucket (initialize_method_states target ms now st) =
    access_rate_bucket st ++ map_of (method_entries target now ms)"
  unfolding initialize_method_states_put_all
  by (rule method_buckets.lookup_put_all_distinct)
    (use assms in \<open>auto dest: method_entries_keys intro: distinct_method_entries\<close>)

lemma initialize_method_states_quota:
  "wf_access_state st \<Longrightarrow>
     quota_bucket (initialize_method_states target ms now st) = quota_bucket st"
  by (induction target ms now st rule: initialize_method_states.induct)
    (auto simp: store_simps wf_intros split: option.splits sum.splits)

lemma clear_states_for_pubkey_buckets:
  "access_rate_bucket (clear_states_for_pubkey pk st) key =
     (if access_key_pubkey key = pk then None else access_rate_bucket st key)"
  "quota_bucket (clear_states_for_pubkey pk st) key =
     (if access_key_pubkey key = pk then None else quota_bucket st key)"
  by (simp_all add: clear_states_for_pubkey_def store_simps key_belongs_to_pubkey_def)

lemma wf_clear_states_for_pubkey [wf_intros]:
  "wf_access_state st \<Longrightarrow> wf_access_state (clear_states_for_pubkey pk st)"
  by (simp add: clear_states_for_pubkey_def wf_intros)

lemma wf_initialize_states [wf_intros]:
  "wf_access_state st \<Longrightarrow> wf_access_state (initialize_states_for_profile target p now st)"
  by (auto simp: initialize_states_for_profile_def Let_def
      intro: wf_intros wf_initialize_method_states split: option.splits sum.splits)

lemma initialize_access_rate:
  assumes "wf_access_state st" and "wf_profile p"
  shows "access_rate_bucket (initialize_states_for_profile target p now st) key =
     (case key of
        AccessKey_Method pk m \<Rightarrow>
          if pk = target then
            (case Option.bind (method_rule_of p m) (fresh_bucket now) of
               None \<Rightarrow> access_rate_bucket st key | Some s \<Rightarrow> Some s)
          else access_rate_bucket st key
      | AccessKey_Quota pk \<Rightarrow> access_rate_bucket st key)"
proof -
  have quota_part: "access_rate_bucket (initialize_states_for_profile target p now st) =
      access_rate_bucket (case profile_methods p of
                   None \<Rightarrow> st
                 | Some ms \<Rightarrow> initialize_method_states target ms now st)"
    using assms(1)
    by (auto simp: initialize_states_for_profile_def Let_def store_simps wf_initialize_method_states
        split: option.splits sum.splits)
  show ?thesis
  proof (cases "profile_methods p")
    case None
    then show ?thesis
      by (auto simp: quota_part method_rule_of_def split: access_key.splits)
  next
    case (Some ms)
    with assms(2) have d: "distinct (map fst ms)" by (simp add: wf_profile_def)
    show ?thesis
      using Some map_of_method_entries [OF d, of target now] map_of_method_entries_other [of key target now ms]
      by (auto simp: quota_part method_buckets_initialize [OF assms(1) d] method_rule_of_def
          map_add_def split: access_key.splits)
  qed
qed

lemma initialize_quota:
  assumes "wf_access_state st"
  shows "quota_bucket (initialize_states_for_profile target p now st) key =
     (if key = AccessKey_Quota target then
        (case Option.bind (profile_quota p) (fresh_bucket now) of
           None \<Rightarrow> quota_bucket st key | Some s \<Rightarrow> Some s)
      else quota_bucket st key)"
  using assms
  by (auto simp: initialize_states_for_profile_def Let_def store_simps fresh_bucket_def
      wf_initialize_method_states initialize_method_states_quota split: option.splits sum.splits)

definition wf_profile_state :: "profile_state \<Rightarrow> bool" where
  "wf_profile_state ps \<longleftrightarrow>
     wf_access_state (access ps) \<and> (\<forall>pk p. usage_profiles ps pk = Some p \<longrightarrow> wf_profile p)"

lemma wf_profile_state_empty: "wf_profile_state profile_state_empty"
  by (simp add: wf_profile_state_def profile_state_empty_def wf_intros)

lemma wf_upsert:
  "wf_profile_state ps \<Longrightarrow> wf_profile p \<Longrightarrow>
     wf_profile_state (upsert_usage_profile_and_reset_states target p micros ps)"
  by (auto simp: wf_profile_state_def upsert_usage_profile_and_reset_states_def
      upsert_usage_profile_def intro: wf_intros)

lemma wf_clear_all:
  "wf_profile_state ps \<Longrightarrow> wf_profile_state (clear_all_usage_profiles_and_states ps)"
  by (auto simp: wf_profile_state_def clear_all_usage_profiles_and_states_def
      clear_usage_profiles_store_def clear_all_access_states_def intro: wf_intros)

lemma upsert_method_bucket:
  assumes "wf_profile_state ps" and "wf_profile p"
  shows "access_rate_bucket (access (upsert_usage_profile_and_reset_states target p micros ps))
       (AccessKey_Method pk m) =
     (if pk = target then Option.bind (method_rule_of p m) (fresh_bucket (now_micros micros))
      else access_rate_bucket (access ps) (AccessKey_Method pk m))"
  using assms
  by (auto simp: upsert_usage_profile_and_reset_states_def upsert_usage_profile_def
      initialize_access_rate wf_profile_state_def wf_intros clear_states_for_pubkey_buckets
      split: option.splits)

lemma upsert_quota_bucket:
  assumes "wf_profile_state ps"
  shows "quota_bucket (access (upsert_usage_profile_and_reset_states target p micros ps))
       (AccessKey_Quota pk) =
     (if pk = target then Option.bind (profile_quota p) (fresh_bucket (now_micros micros))
      else quota_bucket (access ps) (AccessKey_Quota pk))"
  using assms
  by (auto simp: upsert_usage_profile_and_reset_states_def upsert_usage_profile_def
      initialize_quota wf_profile_state_def wf_intros clear_states_for_pubkey_buckets
      split: option.splits)

text \<open>A request in flight keeps its old cells: an update allocates, it never overwrites.\<close>

lemma initialize_method_states_heap:
  "wf_access_state st \<Longrightarrow> heap st a \<noteq> None \<Longrightarrow>
     heap (initialize_method_states target ms now st) a = heap st a"
proof (induction target ms now st rule: initialize_method_states.induct)
  case (1 target now st)
  then show ?case by simp
next
  case (2 target m method_rule ms now st)
  then show ?case
    by (auto simp: heap_insert wf_insert split: option.splits sum.splits)
qed

lemma upsert_keeps_cells:
  assumes "wf_profile_state ps" and "heap (access ps) a \<noteq> None"
  shows "heap (access (upsert_usage_profile_and_reset_states target p micros ps)) a = heap (access ps) a"
proof -
  let ?st = "clear_states_for_pubkey target (access ps)"
  have st: "wf_access_state ?st" "heap ?st a \<noteq> None" "heap ?st = heap (access ps)"
    using assms by (simp_all add: wf_profile_state_def wf_intros clear_states_for_pubkey_def store_simps)
  note init = initialize_method_states_heap [OF st(1,2)] wf_initialize_method_states [OF st(1)]
  have "heap (initialize_states_for_profile target p now ?st) a = heap ?st a" for now
    using st(2) init
    by (auto simp: initialize_states_for_profile_def Let_def heap_insert st(1)
        split: option.splits sum.splits)
  with st(3) show ?thesis
    by (simp add: upsert_usage_profile_and_reset_states_def upsert_usage_profile_def)
qed

end
