(* ===== verification/Access_Control.thy ===== *)
theory Access_Control
  imports Usage_Profile
begin

section \<open>Access control: \<open>verify_access\<close> and its refund in \<open>src/lib.rs\<close>\<close>

text \<open>
  A request is checked against its caller's profile, the buckets it touches are locked in
  a fixed order, all of them are checked, and only then are they debited. When a later
  execution fails, the debits are refunded through the same handles.
\<close>

datatype access_error_context = AccessRate | Quota

record state_update_request =
  upd_key :: access_key
  upd_rule :: rate_limit_rule
  upd_amount :: u64
  upd_context :: access_error_context
  upd_state :: addr

record guarded_state_update =
  gu_update :: state_update_request
  gu_guard :: rate_state

subsection \<open>The order of locking\<close>

fun compare_access_keys :: "(nip47_method \<Rightarrow> string) \<Rightarrow> access_key \<Rightarrow> access_key \<Rightarrow> ordering" where
  "compare_access_keys as_str (AccessKey_Method ap am) (AccessKey_Method bp bm) =
     then_with (cmp_of ap bp) (cmp_of (as_str am) (as_str bm))"
| "compare_access_keys as_str (AccessKey_Method ap am) (AccessKey_Quota bp) = Less"
| "compare_access_keys as_str (AccessKey_Quota ap) (AccessKey_Method bp bm) = Greater"
| "compare_access_keys as_str (AccessKey_Quota ap) (AccessKey_Quota bp) = cmp_of ap bp"

lemma then_with_simps [simp]:
  "reverse_ordering (then_with a b) = then_with (reverse_ordering a) (reverse_ordering b)"
  "then_with a b = Greater \<longleftrightarrow> a = Greater \<or> a = Equal \<and> b = Greater"
  "then_with a b = Equal \<longleftrightarrow> a = Equal \<and> b = Equal"
  by (cases a; cases b; simp)+

interpretation access_key_order: comparator "compare_access_keys as_str" for as_str
proof unfold_locales
  fix x y z
  show "compare_access_keys as_str y x = reverse_ordering (compare_access_keys as_str x y)"
    by (cases x; cases y) (auto simp: cmp_of_flip [symmetric])
  show "compare_access_keys as_str x y \<noteq> Greater \<Longrightarrow> compare_access_keys as_str y z \<noteq> Greater \<Longrightarrow>
      compare_access_keys as_str x z \<noteq> Greater"
    by (cases x; cases y; cases z) auto
qed

interpretation update_order: comparator
  "\<lambda>a b. compare_access_keys as_str (upd_key a) (upd_key b)" for as_str
  by unfold_locales (fact access_key_order.cmp_flip, fact access_key_order.cmp_trans)

subsection \<open>Error responses\<close>

definition access_denied_response :: "nip47_method \<Rightarrow> nip47_response" where
  "access_denied_response m =
     error_response m (nip47_err Restricted ''access denied, insufficient permission'')"

definition unauthorized_response :: "nip47_method \<Rightarrow> nip47_response" where
  "unauthorized_response m = error_response m (nip47_err Unauthorized ''unauthorized'')"

definition rate_limited_response :: "nip47_method \<Rightarrow> nip47_response" where
  "rate_limited_response m = error_response m (nip47_err RateLimited ''rate limit exceeded'')"

definition quota_exceeded_response :: "nip47_method \<Rightarrow> nip47_response" where
  "quota_exceeded_response m = error_response m (nip47_err QuotaExceeded ''quota exceeded'')"

fun map_rate_state_error :: "rate_state_error \<Rightarrow> access_error_context \<Rightarrow> nip47_error" where
  "map_rate_state_error InsufficientBalance AccessRate = nip47_err RateLimited ''rate limit exceeded''"
| "map_rate_state_error InsufficientBalance Quota = nip47_err QuotaExceeded ''quota exceeded''"
| "map_rate_state_error (AmountTooLarge _) _ = nip47_err Other ''invalid amount: exceeds i64::MAX''"
| "map_rate_state_error (InvalidRule _) _ = nip47_err Other ''invalid rate limit rule''"
| "map_rate_state_error InternalInvariantViolation _ = nip47_err Other ''internal rate state error''"

definition rate_state_error_response ::
    "nip47_method \<Rightarrow> rate_state_error \<Rightarrow> access_error_context \<Rightarrow> nip47_response" where
  "rate_state_error_response m e ctx = error_response m (map_rate_state_error e ctx)"

definition missing_state_response :: "nip47_method \<Rightarrow> access_error_context \<Rightarrow> nip47_response" where
  "missing_state_response m ctx = error_response m (nip47_err Other
     (case ctx of AccessRate \<Rightarrow> ''missing access rate state'' | Quota \<Rightarrow> ''missing quota state''))"

definition poisoned_state_response :: "nip47_method \<Rightarrow> access_error_context \<Rightarrow> nip47_response" where
  "poisoned_state_response m ctx = error_response m (nip47_err Other
     (case ctx of AccessRate \<Rightarrow> ''access rate state lock poisoned''
                | Quota \<Rightarrow> ''quota state lock poisoned''))"

subsection \<open>What a request spends\<close>

text \<open>
  A BIP 321 URI as the program reads it. Parsing belongs to the \<open>bip321\<close> crate and is an
  argument; the amount is in satoshis.
\<close>

record bip321_uri =
  uri_amount :: "u64 option"
  uri_lightning :: "string list"
  uri_lno :: "string list"
  uri_has_address :: bool
  uri_address_str :: "string option"

type_synonym bip321_parser = "string \<Rightarrow> string + bip321_uri"

fun request_spend_msat :: "bip321_parser \<Rightarrow> nip47_request \<Rightarrow> u64 option" where
  "request_spend_msat parse req =
     (case req_params req of
        Params_PayInvoice invoice amount \<Rightarrow> amount
      | Params_PayKeysend dest amount \<Rightarrow> Some amount
      | Params_PayOnchain addr sats feerate \<Rightarrow> Some (u64_saturating_mul sats 1000)
      | Params_PayOffer offer amount note \<Rightarrow> amount
      | Params_PayBip321 uri \<Rightarrow>
          (case parse uri of
             Err _ \<Rightarrow> None
           | Ok u \<Rightarrow> map_option (\<lambda>a. a * 1000) (uri_amount u))
      | _ \<Rightarrow> None)"

subsection \<open>The phases of \<open>verify_access\<close>\<close>

definition method_rule_for ::
    "nip47_method \<Rightarrow> usage_profile \<Rightarrow> nip47_response + method_access_rule option" where
  "method_rule_for m p =
     (case profile_methods p of
        None \<Rightarrow> Ok None
      | Some methods \<Rightarrow>
         if methods = [] then Err (access_denied_response m)
         else (case map_of methods m of
                 Some r \<Rightarrow> Ok (Some r)
               | None \<Rightarrow>
                  (case map_of methods (Method_Unknown ''ALL'') of
                     Some r \<Rightarrow> Ok (Some r)
                   | None \<Rightarrow> Err (access_denied_response m))))"

definition access_rate_updates ::
    "nip47_method \<Rightarrow> pubkey \<Rightarrow> method_access_rule option \<Rightarrow> access_state \<Rightarrow>
       nip47_response + state_update_request list" where
  "access_rate_updates m caller method_rule st =
     (case Option.bind method_rule rule_access_rate of
        None \<Rightarrow> Ok []
      | Some rule \<Rightarrow>
          let key = AccessKey_Method caller m in
          rbind (ok_or (missing_state_response m AccessRate) (get_access_rate_state key st)) (\<lambda>a.
            Ok [\<lparr>upd_key = key, upd_rule = rule, upd_amount = 1000000,
                 upd_context = AccessRate, upd_state = a\<rparr>]))"

definition quota_updates ::
    "nip47_method \<Rightarrow> pubkey \<Rightarrow> u64 \<Rightarrow> rate_limit_rule option \<Rightarrow> access_state \<Rightarrow>
       nip47_response + state_update_request list" where
  "quota_updates m caller amount quota_rule st =
     (if amount > 0 then
        (case quota_rule of
           None \<Rightarrow> Ok []
         | Some rule \<Rightarrow>
             let key = AccessKey_Quota caller in
             rbind (ok_or (missing_state_response m Quota) (get_quota_state key st)) (\<lambda>a.
               Ok [\<lparr>upd_key = key, upd_rule = rule, upd_amount = amount,
                    upd_context = Quota, upd_state = a\<rparr>]))
      else Ok [])"

text \<open>\<open>Mutex::lock\<close>: the contents, or nothing when the mutex is poisoned.\<close>

definition lock_cell :: "access_state \<Rightarrow> addr \<Rightarrow> rate_state option" where
  "lock_cell st a =
     (case heap st a of
        None \<Rightarrow> None
      | Some c \<Rightarrow> if cell_poisoned c then None else Some (cell_state c))"

definition store_cell :: "addr \<Rightarrow> rate_state \<Rightarrow> access_state \<Rightarrow> access_state" where
  "store_cell a s st = st\<lparr>heap := (heap st)(a \<mapsto> \<lparr>cell_state = s, cell_poisoned = False\<rparr>)\<rparr>"

fun lock_all ::
    "nip47_method \<Rightarrow> access_state \<Rightarrow> state_update_request list \<Rightarrow>
       nip47_response + guarded_state_update list" where
  "lock_all m st [] = Ok []"
| "lock_all m st (u # us) =
     (case lock_cell st (upd_state u) of
        None \<Rightarrow> Err (poisoned_state_response m (upd_context u))
      | Some s \<Rightarrow> rbind (lock_all m st us) (\<lambda>gs. Ok (\<lparr>gu_update = u, gu_guard = s\<rparr> # gs)))"

fun verify_all ::
    "nip47_method \<Rightarrow> u64 \<Rightarrow> guarded_state_update list \<Rightarrow> nip47_response + unit" where
  "verify_all m now [] = Ok ()"
| "verify_all m now (g # gs) =
     rbind (map_err (\<lambda>e. rate_state_error_response m e (upd_context (gu_update g)))
              (check_withdraw_after_refill (gu_guard g) (upd_amount (gu_update g)) now
                 (upd_rule (gu_update g))))
       (\<lambda>_. verify_all m now gs)"

fun debit_all ::
    "nip47_method \<Rightarrow> u64 \<Rightarrow> guarded_state_update list \<Rightarrow>
       (nip47_response + unit) \<times> guarded_state_update list" where
  "debit_all m now [] = (Ok (), [])"
| "debit_all m now (g # gs) =
     (case withdraw_after_refill (gu_guard g) (upd_amount (gu_update g)) now
             (upd_rule (gu_update g)) of
        (Err e, s) \<Rightarrow>
          (Err (rate_state_error_response m e (upd_context (gu_update g))),
           g\<lparr>gu_guard := s\<rparr> # gs)
      | (Ok _, s) \<Rightarrow>
          (case debit_all m now gs of (r, gs') \<Rightarrow> (r, g\<lparr>gu_guard := s\<rparr> # gs')))"

text \<open>Dropping the guards: what was written through them is in the cells.\<close>

fun drop_guards :: "guarded_state_update list \<Rightarrow> access_state \<Rightarrow> access_state" where
  "drop_guards [] st = st"
| "drop_guards (g # gs) st = drop_guards gs (store_cell (upd_state (gu_update g)) (gu_guard g) st)"

definition prepare_updates ::
    "(nip47_method \<Rightarrow> string) \<Rightarrow> bip321_parser \<Rightarrow> nip47_request \<Rightarrow> pubkey \<Rightarrow> profile_state \<Rightarrow>
       nip47_response + state_update_request list" where
  "prepare_updates as_str parse req caller ps =
     rbind (ok_or (unauthorized_response (req_method req)) (get_usage_profile caller ps)) (\<lambda>p.
     rbind (method_rule_for (req_method req) p) (\<lambda>method_rule.
     rbind (access_rate_updates (req_method req) caller method_rule (access ps)) (\<lambda>rate_updates.
     rbind (quota_updates (req_method req) caller
              (case request_spend_msat parse req of None \<Rightarrow> 0 | Some a \<Rightarrow> a)
              (profile_quota p) (access ps)) (\<lambda>spend_updates.
       Ok (sort_by (\<lambda>a b. compare_access_keys as_str (upd_key a) (upd_key b))
             (rate_updates @ spend_updates))))))"

definition verify_access ::
    "(nip47_method \<Rightarrow> string) \<Rightarrow> bip321_parser \<Rightarrow> nip47_request \<Rightarrow> pubkey \<Rightarrow> nat \<Rightarrow> profile_state \<Rightarrow>
       (nip47_response + state_update_request list) \<times> profile_state" where
  "verify_access as_str parse req caller micros ps =
     (case prepare_updates as_str parse req caller ps of
        Err resp \<Rightarrow> (Err resp, ps)
      | Ok updates \<Rightarrow>
         (case lock_all (req_method req) (access ps) updates of
            Err resp \<Rightarrow> (Err resp, ps)
          | Ok guards \<Rightarrow>
             (case verify_all (req_method req) (now_micros micros) guards of
                Err resp \<Rightarrow> (Err resp, ps)
              | Ok _ \<Rightarrow>
                 (case debit_all (req_method req) (now_micros micros) guards of
                    (r, guards') \<Rightarrow>
                      (rbind r (\<lambda>_. Ok updates),
                       ps\<lparr>access := drop_guards guards' (access ps)\<rparr>)))))"

fun refund_applied_state_updates :: "state_update_request list \<Rightarrow> access_state \<Rightarrow> access_state" where
  "refund_applied_state_updates [] st = st"
| "refund_applied_state_updates (u # us) st =
     refund_applied_state_updates us
       (case lock_cell st (upd_state u) of
          None \<Rightarrow> st
        | Some s \<Rightarrow> store_cell (upd_state u) (snd (refund s (upd_amount u) (upd_rule u))) st)"

subsection \<open>Writing a cell\<close>

lemma store_cell_fields [simp]:
  "access_rate (store_cell a s st) = access_rate st"
  "quota (store_cell a s st) = quota st"
  "heap (store_cell a s st) = (heap st)(a \<mapsto> \<lparr>cell_state = s, cell_poisoned = False\<rparr>)"
  "next_addr (store_cell a s st) = next_addr st"
  by (simp_all add: store_cell_def)

lemma handles_store_cell [simp]: "handles (store_cell a s st) = handles st"
  by (simp add: handles_def)

lemma wf_store_cell [wf_intros]:
  assumes "wf_access_state st" and "heap st a \<noteq> None"
  shows "wf_access_state (store_cell a s st)"
  using assms wf_access_stateD [OF assms(1)]
  by (intro wf_access_stateI) (auto split: if_splits)

text \<open>No two keys share a cell, so a write is seen under the key of its handle only.\<close>

lemma bucket_store_cell [store_simps]:
  assumes "wf_access_state st"
  shows "access_rate st k = Some a \<Longrightarrow>
      access_rate_bucket (store_cell a s st) = (access_rate_bucket st)(k \<mapsto> s)"
    and "access_rate st k = Some a \<Longrightarrow> quota_bucket (store_cell a s st) = quota_bucket st"
    and "quota st k = Some a \<Longrightarrow> quota_bucket (store_cell a s st) = (quota_bucket st)(k \<mapsto> s)"
    and "quota st k = Some a \<Longrightarrow> access_rate_bucket (store_cell a s st) = access_rate_bucket st"
proof -
  note wf = wf_access_stateD [OF assms]
  have kinds: "access_rate st k = Some a \<Longrightarrow> quota st k' \<noteq> Some a" for k k' a
    using wf(3) [of k a k'] wf(4) [of k a] wf(5) [of k' a] by auto
  have inj: "access_rate st k = Some a \<Longrightarrow> access_rate st k' = Some a \<Longrightarrow> k' = k"
      "quota st k = Some a \<Longrightarrow> quota st k' = Some a \<Longrightarrow> k' = k" for k k' a
    using wf(3) [of k a k'] by auto
  show "access_rate st k = Some a \<Longrightarrow>
      access_rate_bucket (store_cell a s st) = (access_rate_bucket st)(k \<mapsto> s)"
    by (auto dest: inj intro!: ext simp: access_rate_bucket_def deref_def split: bind_splits)
  show "quota st k = Some a \<Longrightarrow> quota_bucket (store_cell a s st) = (quota_bucket st)(k \<mapsto> s)"
    by (auto dest: inj intro!: ext simp: quota_bucket_def deref_def split: bind_splits)
  show "access_rate st k = Some a \<Longrightarrow> quota_bucket (store_cell a s st) = quota_bucket st"
    using kinds by (auto intro!: ext simp: quota_bucket_def deref_def split: bind_splits)
  show "quota st k = Some a \<Longrightarrow> access_rate_bucket (store_cell a s st) = access_rate_bucket st"
    using kinds by (auto intro!: ext simp: access_rate_bucket_def deref_def split: bind_splits)
qed

definition unpoisoned :: "access_state \<Rightarrow> bool" where
  "unpoisoned st \<longleftrightarrow> (\<forall>a c. heap st a = Some c \<longrightarrow> \<not> cell_poisoned c)"

lemma lock_rate_cell:
  assumes "wf_access_state st" "unpoisoned st"
  shows "access_rate st k = Some a \<Longrightarrow> lock_cell st a = access_rate_bucket st k \<and> lock_cell st a \<noteq> None"
    and "quota st k = Some a \<Longrightarrow> lock_cell st a = quota_bucket st k \<and> lock_cell st a \<noteq> None"
  using assms(2) wf_access_stateD(1) [OF assms(1), of k a]
  by (auto simp: lock_cell_def unpoisoned_def access_rate_bucket_def quota_bucket_def deref_def
      handlesI split: option.splits)

lemma missing_iff:
  assumes "wf_access_state st"
  shows "access_rate st k = None \<longleftrightarrow> access_rate_bucket st k = None"
    and "quota st k = None \<longleftrightarrow> quota_bucket st k = None"
  using wf_access_stateD(1) [OF assms] 
  by (auto simp: access_rate_bucket_def quota_bucket_def deref_def handlesI split: bind_splits)

subsection \<open>All or nothing\<close>

lemma verified_debits_succeed:
  "verify_all m now gs = Ok () \<Longrightarrow> fst (debit_all m now gs) = Ok ()"
proof (induction gs)
  case (Cons g gs)
  then show ?case
    by (auto simp: rbind_eq_Ok check_is_debit_result split: prod.splits sum.splits)
qed simp

lemma verify_access_error_keeps_state:
  assumes "fst (verify_access as_str parse req caller micros ps) = Err resp"
  shows "snd (verify_access as_str parse req caller micros ps) = ps"
  using assms verified_debits_succeed
  by (auto simp: verify_access_def split: sum.splits prod.splits)
   (metis fst_conv rbind_simps(2) sum.distinct(1))

end
