(* ===== verification/Handlers.thy ===== *)
theory Handlers
  imports Ldk_Service Route_Finder Offer_Store Address_Store Subscription_Store Forwarding_Store
    Access_Control
begin

section \<open>The request handlers of \<open>src/lib.rs\<close>\<close>

text \<open>
  Every wallet method has a handler: \<open>validate\<close> looks at the request only, \<open>execute\<close> acts
  on the process-wide state, the record \<open>world\<close>. \<open>execute\<close> returns a response or an error,
  or panics; the state it leaves is returned with it. The parts of the crates that are
  called are in the record \<open>node_env\<close>, an argument. The clock is read once per request.
\<close>

subsection \<open>The process-wide state\<close>

record 'n world =
  w_service :: "network option"
    \<comment> \<open>\<open>LDK_SERVICE\<close>: attached, with its network, or not\<close>
  w_node :: 'n
  w_offers :: offers
  w_addresses :: addresses
  w_subscriptions :: subscriptions
  w_history :: "forwarding_entry list"
  w_profiles :: profile_state
  w_forced_failures :: "nip47_method set"
  w_node_alias :: "string option"
  w_own_pubkey :: "string option"
    \<comment> \<open>\<open>GLOBAL_KEYS\<close>\<close>

record bip321_builder =
  bld_amount_sat :: "u64 option"
  bld_label :: "string option"
  bld_message :: "string option"
  bld_lightning :: "string list"
  bld_lno :: "string list"
  bld_address :: "string option"

record 'n node_env =
  env_api :: "'n ldk_api"
  env_method_str :: "nip47_method \<Rightarrow> string"
  env_parse_uri :: bip321_parser
  env_show_uri :: "bip321_builder \<Rightarrow> string"
  env_address_parses :: "string \<Rightarrow> bool"
  env_join_error :: string

type_synonym 'n handled = "(nip47_error + nip47_response) \<times> 'n world"

text \<open>A call of the node inside the process-wide state.\<close>

definition call_node :: "('n \<Rightarrow> ('e + 'a) \<times> 'n) \<Rightarrow> 'n world \<Rightarrow> ('e + 'a) \<times> 'n world" where
  "call_node f w = (case f (w_node w) of (r, n) \<Rightarrow> (r, w\<lparr>w_node := n\<rparr>))"

lemma call_node_simps [simp]:
  "f (w_node w) = (r, n) \<Longrightarrow> call_node f w = (r, w\<lparr>w_node := n\<rparr>)"
  by (simp add: call_node_def)

definition map_ldk_service_error :: "string \<Rightarrow> error_code \<Rightarrow> ldk_service_error \<Rightarrow> nip47_error" where
  "map_ldk_service_error operation c e =
     nip47_err c (''ldk '' @ operation @ '' failed: '' @ show_ldk_error e)"

definition service_unavailable :: nip47_error where
  "service_unavailable = nip47_err Other ''ldk service unavailable''"

subsection \<open>Payments as the protocol shows them\<close>

definition payment_hash_from_kind :: "payment_kind \<Rightarrow> string option" where
  "payment_hash_from_kind kind =
     (case kind of
        Kind_Bolt11 h p \<Rightarrow> Some (hex_string h)
      | Kind_Bolt11Jit h p \<Rightarrow> Some (hex_string h)
      | Kind_Spontaneous h p \<Rightarrow> Some (hex_string h)
      | Kind_Bolt12Offer h p oid \<Rightarrow> map_option hex_string h
      | Kind_Bolt12Refund h p \<Rightarrow> map_option hex_string h
      | Kind_Onchain \<Rightarrow> None)"

definition preimage_from_kind :: "payment_kind \<Rightarrow> string option" where
  "preimage_from_kind kind =
     (case kind of
        Kind_Bolt11 h p \<Rightarrow> map_option hex_string p
      | Kind_Bolt11Jit h p \<Rightarrow> map_option hex_string p
      | Kind_Spontaneous h p \<Rightarrow> map_option hex_string p
      | Kind_Bolt12Offer h p oid \<Rightarrow> map_option hex_string p
      | Kind_Bolt12Refund h p \<Rightarrow> map_option hex_string p
      | Kind_Onchain \<Rightarrow> None)"

definition payment_method_from_kind :: "payment_kind \<Rightarrow> payment_method option" where
  "payment_method_from_kind kind =
     (case kind of
        Kind_Bolt11 h p \<Rightarrow> Some Bolt11
      | Kind_Bolt11Jit h p \<Rightarrow> Some Bolt11
      | Kind_Bolt12Offer h p oid \<Rightarrow> Some Bolt12
      | Kind_Bolt12Refund h p \<Rightarrow> Some Bolt12
      | Kind_Spontaneous h p \<Rightarrow> Some Keysend
      | Kind_Onchain \<Rightarrow> None)"

definition or_zero :: "u64 option \<Rightarrow> u64" where
  "or_zero v = (case v of None \<Rightarrow> 0 | Some x \<Rightarrow> x)"

definition or_empty :: "string option \<Rightarrow> string" where
  "or_empty v = (case v of None \<Rightarrow> [] | Some x \<Rightarrow> x)"

definition payment_details_to_lookup_invoice_response :: "payment_details \<Rightarrow> lookup_invoice_response" where
  "payment_details_to_lookup_invoice_response p =
     \<lparr>li_transaction_type =
        (case pd_direction p of Inbound \<Rightarrow> Some Incoming | Outbound \<Rightarrow> Some Outgoing),
      li_state =
        (case pd_status p of
           Status_Pending \<Rightarrow> Some Pending | Status_Succeeded \<Rightarrow> Some Settled | Status_Failed \<Rightarrow> Some Failed),
      li_invoice = None, li_description = None, li_description_hash = None,
      li_preimage = preimage_from_kind (pd_kind p),
      li_payment_hash = or_empty (payment_hash_from_kind (pd_kind p)),
      li_amount = or_zero (pd_amount_msat p),
      li_fees_paid = or_zero (pd_fee_paid_msat p),
      li_created_at = (if pd_latest_update_timestamp p > 0 then Some (pd_latest_update_timestamp p) else None),
      li_expires_at = None,
      li_settled_at = (if pd_status p = Status_Succeeded then Some (pd_latest_update_timestamp p) else None),
      li_payment_method = payment_method_from_kind (pd_kind p)\<rparr>"

subsection \<open>Pages\<close>

definition split_page :: "u64 option \<Rightarrow> u64 option \<Rightarrow> 'a list \<Rightarrow> 'a list" where
  "split_page offset limit xs =
     (let off = unat (or_zero offset);
          ys = (if off > 0 \<and> off < length xs then drop off xs
                else if off \<ge> length xs \<and> off > 0 then [] else xs)
      in case limit of None \<Rightarrow> ys | Some l \<Rightarrow> take (unat l) ys)"

definition split_page_invoices :: "u64 option \<Rightarrow> u64 option \<Rightarrow> 'a list \<Rightarrow> 'a list" where
  "split_page_invoices offset limit xs =
     (let off = unat (or_zero offset);
          ys = (if off > 0 \<and> off < length xs then drop off xs
                else if off \<ge> length xs then [] else xs)
      in case limit of None \<Rightarrow> ys | Some l \<Rightarrow> take (unat l) ys)"

lemma split_page_is_page:
  "split_page offset limit xs = page (unat (or_zero offset)) (map_option unat limit) xs"
  "split_page_invoices offset limit xs = page (unat (or_zero offset)) (map_option unat limit) xs"
  by (auto simp: split_page_def split_page_invoices_def page_def Let_def split: option.splits)

subsection \<open>Information\<close>

text \<open>The methods of \<open>SUPPORTED_METHODS\<close> that a profile opens.\<close>

definition SUPPORTED_METHODS :: "nip47_method list" where
  "SUPPORTED_METHODS =
     [Method_GetInfo, Method_GetBalance, Method_PayInvoice, Method_PayKeysend, Method_MakeInvoice,
      Method_LookupInvoice, Method_ListTransactions, Method_MakeHoldInvoice, Method_CancelHoldInvoice,
      Method_SettleHoldInvoice, Method_PayOnchain, Method_MakeNewAddress, Method_PayOffer,
      Method_MakeOffer, Method_LookupOffer, Method_LookupAddress, Method_ListInvoices,
      Method_ListOffers, Method_DisableOffer, Method_ListAddresses, Method_PayBip321,
      Method_MakeBip321, Method_SubscribeNotifications, Method_EstimateOnchainFees,
      Method_EstimateRoutingFees]"

definition allowed_methods_for :: "pubkey \<Rightarrow> profile_state \<Rightarrow> nip47_method list" where
  "allowed_methods_for caller ps =
     (case get_usage_profile caller ps of
        None \<Rightarrow> []
      | Some p \<Rightarrow>
         (case profile_methods p of
            None \<Rightarrow> SUPPORTED_METHODS
          | Some methods \<Rightarrow>
             if methods = [] then []
             else if map_of methods (Method_Unknown ''ALL'') \<noteq> None then SUPPORTED_METHODS
             else filter (\<lambda>m. map_of methods m \<noteq> None) SUPPORTED_METHODS))"

definition get_info_validate :: "nip47_request \<Rightarrow> nip47_error + unit" where
  "get_info_validate req =
     (if req_params req \<noteq> Params_GetInfo then Err (nip47_err Other ''invalid params for get_info'') else Ok ())"

definition get_info_execute ::
    "'n node_env \<Rightarrow> pubkey \<Rightarrow> 'n world \<Rightarrow> (nip47_error + nip47_response) outcome \<times> 'n world" where
  "get_info_execute env caller w =
     (let methods = allowed_methods_for caller (w_profiles w);
          attached = (w_service w \<noteq> None);
          info = (\<lambda>pubkey network height. Returned (Ok (ok_response Method_GetInfo (Result_GetInfo
            \<lparr>gi_alias = Some (case w_node_alias w of None \<Rightarrow> ''ldk-controller'' | Some a \<Rightarrow> a),
             gi_color = None, gi_pubkey = Some pubkey, gi_network = Some network,
             gi_block_height = Some height, gi_block_hash = None, gi_methods = methods,
             gi_notifications =
               (if attached then [''payment_received'', ''payment_sent'', ''hold_invoice_accepted''] else []),
             gi_bip321_methods =
               (if attached then
                  Some [\<lparr>info_method = ''bolt11'', info_address_types = None\<rparr>,
                        \<lparr>info_method = ''bolt12'', info_address_types = None\<rparr>,
                        \<lparr>info_method = ''onchain'', info_address_types = Some [''p2tr'']\<rparr>]
                else None)\<rparr>))))
      in case w_service w of
           Some net \<Rightarrow>
             (info (node_id_string (env_api env)) (network_name net)
                (api_best_block_height (env_api env) (w_node w)), w)
         | None \<Rightarrow>
            (case w_own_pubkey w of
               None \<Rightarrow> (Panicked, w)
             | Some pk \<Rightarrow> (info pk ''regtest'' 0, w)))"

definition get_balance_validate :: "nip47_request \<Rightarrow> nip47_error + unit" where
  "get_balance_validate req =
     (if req_params req \<noteq> Params_GetBalance then Err (nip47_err Other ''invalid params for get_balance'') else Ok ())"

definition get_balance_execute :: "'n node_env \<Rightarrow> 'n world \<Rightarrow> 'n handled" where
  "get_balance_execute env w =
     sbind (case w_service w of
              None \<Rightarrow> (Ok \<lparr>total_msat = 0, lightning_msat = 0, onchain_msat = 0\<rparr>, w)
            | Some _ \<Rightarrow>
               sbind (smap_err (\<lambda>e. nip47_err Other (''ldk sync failed: '' @ show_ldk_error e))
                        (call_node (sync_wallets (env_api env)) w)) (\<lambda>_ w.
                 (map_err (\<lambda>e. nip47_err Other (''ldk balance failed: '' @ show_ldk_error e))
                    (get_balance (env_api env) (w_node w)), w)))
       (\<lambda>bal w. (Ok (ok_response Method_GetBalance (Result_GetBalance
            \<lparr>gb_balance = total_msat bal, gb_lightning_balance = Some (lightning_msat bal),
             gb_onchain_balance_sats = Some (onchain_msat bal div 1000)\<rparr>)), w))"

subsection \<open>Payments\<close>

definition pay_invoice_validate :: "nip47_request \<Rightarrow> nip47_error + unit" where
  "pay_invoice_validate req =
     (case req_params req of
        Params_PayInvoice invoice amount \<Rightarrow>
          if trim_is_empty invoice then Err (nip47_err Other ''invoice is required'')
          else if amount = Some 0 then Err (nip47_err Other ''amount must be greater than 0'')
          else Ok ()
      | _ \<Rightarrow> Err (nip47_err Other ''invalid params for pay_invoice''))"

definition pay_invoice_execute :: "'n node_env \<Rightarrow> nip47_request \<Rightarrow> 'n world \<Rightarrow> 'n handled" where
  "pay_invoice_execute env req w =
     (case (w_service w, req_params req) of
        (Some _, Params_PayInvoice invoice amount) \<Rightarrow>
          sbind (smap_err (map_ldk_service_error ''pay_invoice'' PaymentFailed)
                   (call_node (pay_invoice (env_api env) invoice amount) w)) (\<lambda>payment w.
            (Ok (ok_response Method_PayInvoice
               (Result_PayInvoice (lpr_preimage payment) (lpr_fees_paid_msat payment))), w))
      | _ \<Rightarrow> (Ok (ok_response Method_PayInvoice (Result_PayInvoice ''00'' (Some 0))), w))"

definition pay_keysend_validate :: "nip47_request \<Rightarrow> nip47_error + unit" where
  "pay_keysend_validate req =
     (case req_params req of
        Params_PayKeysend dest amount \<Rightarrow>
          if trim_is_empty dest then Err (nip47_err Other ''pubkey is required'')
          else if amount = 0 then Err (nip47_err Other ''amount must be greater than 0'')
          else Ok ()
      | _ \<Rightarrow> Err (nip47_err Other ''invalid params for pay_keysend''))"

definition pay_keysend_execute :: "'n node_env \<Rightarrow> nip47_request \<Rightarrow> 'n world \<Rightarrow> 'n handled" where
  "pay_keysend_execute env req w =
     (case (w_service w, req_params req) of
        (Some _, Params_PayKeysend dest amount) \<Rightarrow>
          sbind (smap_err (map_ldk_service_error ''pay_keysend'' PaymentFailed)
                   (call_node (pay_keysend (env_api env) dest amount) w)) (\<lambda>payment w.
            (Ok (ok_response Method_PayKeysend
               (Result_PayKeysend (lpr_preimage payment) (lpr_fees_paid_msat payment))), w))
      | _ \<Rightarrow> (Ok (ok_response Method_PayKeysend (Result_PayKeysend ''00'' (Some 0))), w))"

definition pay_onchain_validate :: "nip47_request \<Rightarrow> nip47_error + unit" where
  "pay_onchain_validate req =
     (case req_params req of
        Params_PayOnchain addr sats feerate \<Rightarrow>
          if trim_is_empty addr then Err (nip47_err Other ''address is required'')
          else if sats = 0 then Err (nip47_err Other ''amount_sats must be greater than 0'')
          else Ok ()
      | _ \<Rightarrow> Err (nip47_err Other ''invalid params for pay_onchain''))"

definition pay_onchain_execute :: "'n node_env \<Rightarrow> nip47_request \<Rightarrow> 'n world \<Rightarrow> 'n handled" where
  "pay_onchain_execute env req w =
     (case w_service w of
        None \<Rightarrow> (Err service_unavailable, w)
      | Some net \<Rightarrow>
         (case req_params req of
            Params_PayOnchain addr sats feerate \<Rightarrow>
              sbind (smap_err (map_ldk_service_error ''pay_onchain'' PaymentFailed)
                       (call_node (pay_onchain (env_api env) net addr sats feerate) w)) (\<lambda>txid w.
                (Ok (ok_response Method_PayOnchain (Result_PayOnchain txid)), w))
          | _ \<Rightarrow> (Err (nip47_err Other ''invalid params for pay_onchain''), w)))"

definition pay_offer_validate :: "nip47_request \<Rightarrow> nip47_error + unit" where
  "pay_offer_validate req =
     (case req_params req of
        Params_PayOffer offer amount note \<Rightarrow>
          if trim_is_empty offer then Err (nip47_err Other ''offer is required'') else Ok ()
      | _ \<Rightarrow> Err (nip47_err Other ''invalid params for pay_offer''))"

definition pay_offer_execute :: "'n node_env \<Rightarrow> nip47_request \<Rightarrow> 'n world \<Rightarrow> 'n handled" where
  "pay_offer_execute env req w =
     (case w_service w of
        None \<Rightarrow> (Err service_unavailable, w)
      | Some _ \<Rightarrow>
         (case req_params req of
            Params_PayOffer offer amount note \<Rightarrow>
              sbind (smap_err (map_ldk_service_error ''pay_offer'' PaymentFailed)
                       (call_node (pay_offer (env_api env) offer amount note) w)) (\<lambda>payment w.
                (Ok (ok_response Method_PayOffer
                   (Result_PayOffer (Some (lpr_preimage payment)) (lpr_fees_paid_msat payment))), w))
          | _ \<Rightarrow> (Err (nip47_err Other ''invalid params for pay_offer''), w)))"

definition pay_bip321_validate :: "bip321_parser \<Rightarrow> nip47_request \<Rightarrow> nip47_error + unit" where
  "pay_bip321_validate parse req =
     (case req_params req of
        Params_PayBip321 uri \<Rightarrow>
          if trim_is_empty uri then Err (nip47_err Other ''uri is required'')
          else rbind (map_err (\<lambda>e. nip47_err Other (''invalid BIP-321 URI: '' @ e)) (parse uri)) (\<lambda>_. Ok ())
      | _ \<Rightarrow> Err (nip47_err Other ''invalid params for pay_bip321''))"

definition pay_bip321_execute :: "'n node_env \<Rightarrow> nip47_request \<Rightarrow> 'n world \<Rightarrow> 'n handled" where
  "pay_bip321_execute env req w =
     (case w_service w of
        None \<Rightarrow> (Err service_unavailable, w)
      | Some net \<Rightarrow>
         (case req_params req of
            Params_PayBip321 uri_text \<Rightarrow>
              sbind (map_err (\<lambda>e. nip47_err Other (''invalid BIP-321 URI: '' @ e)) (env_parse_uri env uri_text), w) (\<lambda>uri w.
              let amount = map_option (\<lambda>a. a * 1000) (uri_amount uri) in
              (case uri_lightning uri of
                 invoice # _ \<Rightarrow>
                   sbind (smap_err (map_ldk_service_error ''pay_bip321/bolt11'' PaymentFailed)
                            (call_node (pay_invoice (env_api env) invoice amount) w)) (\<lambda>payment w.
                     (Ok (ok_response Method_PayBip321 (Result_PayBip321
                        \<lparr>pb_preimage = Some (lpr_preimage payment), pb_txid = None,
                         pb_fees_paid = lpr_fees_paid_msat payment, pb_payment_method = ''bolt11''\<rparr>)), w))
               | [] \<Rightarrow>
              (case uri_lno uri of
                 offer # _ \<Rightarrow>
                   sbind (smap_err (map_ldk_service_error ''pay_bip321/bolt12'' PaymentFailed)
                            (call_node (pay_offer (env_api env) offer amount None) w)) (\<lambda>payment w.
                     (Ok (ok_response Method_PayBip321 (Result_PayBip321
                        \<lparr>pb_preimage = Some (lpr_preimage payment), pb_txid = None,
                         pb_fees_paid = lpr_fees_paid_msat payment, pb_payment_method = ''bolt12''\<rparr>)), w))
               | [] \<Rightarrow>
              if uri_has_address uri then
                sbind (ok_or (nip47_err Other ''on-chain payment requires amount'') (uri_amount uri), w) (\<lambda>sats w.
                sbind (ok_or (nip47_err Other ''missing address string'') (uri_address_str uri), w) (\<lambda>addr w.
                sbind (smap_err (map_ldk_service_error ''pay_bip321/onchain'' PaymentFailed)
                         (call_node (pay_onchain (env_api env) net addr sats None) w)) (\<lambda>txid w.
                  (Ok (ok_response Method_PayBip321 (Result_PayBip321
                     \<lparr>pb_preimage = None, pb_txid = Some txid, pb_fees_paid = None,
                      pb_payment_method = ''onchain''\<rparr>)), w))))
              else (Err (nip47_err Other ''no supported payment method in URI''), w))))
          | _ \<Rightarrow> (Err (nip47_err Other ''invalid params for pay_bip321''), w)))"

subsection \<open>Invoices and transactions\<close>

definition make_invoice_validate :: "nip47_request \<Rightarrow> nip47_error + unit" where
  "make_invoice_validate req =
     (case req_params req of
        Params_MakeInvoice amount description description_hash expiry \<Rightarrow>
          if amount = 0 then Err (nip47_err Other ''amount must be greater than 0'') else Ok ()
      | _ \<Rightarrow> Err (nip47_err Other ''invalid params for make_invoice''))"

definition make_invoice_execute :: "'n node_env \<Rightarrow> u64 \<Rightarrow> nip47_request \<Rightarrow> 'n world \<Rightarrow> 'n handled" where
  "make_invoice_execute env now req w =
     (case (w_service w, req_params req) of
        (Some _, Params_MakeInvoice amount description description_hash expiry) \<Rightarrow>
          sbind (smap_err (map_ldk_service_error ''make_invoice'' Other)
                   (call_node (make_invoice (env_api env) amount description description_hash expiry) w)) (\<lambda>invoice w.
            (Ok (ok_response Method_MakeInvoice (Result_MakeInvoice
               \<lparr>mi_invoice = lir_invoice invoice, mi_payment_hash = lir_payment_hash invoice,
                mi_description = description, mi_description_hash = description_hash, mi_preimage = None,
                mi_amount = lir_amount_msat invoice, mi_created_at = Some now,
                mi_expires_at = lir_expires_at invoice\<rparr>)), w))
      | _ \<Rightarrow> (Ok (ok_response Method_MakeInvoice (Result_MakeInvoice
               \<lparr>mi_invoice = ''dummy_invoice'', mi_payment_hash = None, mi_description = None,
                mi_description_hash = None, mi_preimage = None, mi_amount = None, mi_created_at = None,
                mi_expires_at = None\<rparr>)), w))"

definition lookup_invoice_validate :: "nip47_request \<Rightarrow> nip47_error + unit" where
  "lookup_invoice_validate req =
     (case req_params req of
        Params_LookupInvoice payment_hash invoice \<Rightarrow>
          if or_empty payment_hash = [] \<and> or_empty invoice = []
          then Err (nip47_err Other ''payment_hash or invoice is required'') else Ok ()
      | _ \<Rightarrow> Err (nip47_err Other ''invalid params for lookup_invoice''))"

definition lookup_invoice_stub :: "u64 \<Rightarrow> lookup_invoice_response" where
  "lookup_invoice_stub now =
     \<lparr>li_transaction_type = Some Outgoing, li_state = Some Settled, li_invoice = None, li_description = None,
      li_description_hash = None, li_preimage = None, li_payment_hash = ''00'', li_amount = 0,
      li_fees_paid = 0, li_created_at = Some now, li_expires_at = None, li_settled_at = None,
      li_payment_method = None\<rparr>"

definition lookup_invoice_execute ::
    "'n node_env \<Rightarrow> u64 \<Rightarrow> nip47_request \<Rightarrow> 'n world \<Rightarrow> (nip47_error + nip47_response) outcome \<times> 'n world" where
  "lookup_invoice_execute env now req w =
     (case (w_service w, req_params req) of
        (Some _, Params_LookupInvoice payment_hash invoice) \<Rightarrow>
          (let payment = (case invoice of
               Some i \<Rightarrow> Some (lookup_payment_by_bolt11 (env_api env) i (w_node w))
             | None \<Rightarrow> map_option (\<lambda>h. lookup_payment_by_hash (env_api env) h (w_node w)) payment_hash)
           in ((case payment of
                  None \<Rightarrow> Returned (Err (nip47_err Other ''payment_hash or invoice is required''))
                | Some Panicked \<Rightarrow> Panicked
                | Some (Returned (Ok details)) \<Rightarrow>
                    Returned (Ok (ok_response Method_LookupInvoice
                      (Result_LookupInvoice (payment_details_to_lookup_invoice_response details))))
                | Some (Returned (Err (PaymentNotFound msg))) \<Rightarrow>
                    Returned (Err (nip47_err NotFound (''payment not found: '' @ msg)))
                | Some (Returned (Err e)) \<Rightarrow>
                    Returned (Err (map_ldk_service_error ''lookup_invoice'' Other e))), w))
      | _ \<Rightarrow> (Returned (Ok (ok_response Method_LookupInvoice (Result_LookupInvoice (lookup_invoice_stub now)))), w))"

definition list_transactions_validate :: "nip47_request \<Rightarrow> nip47_error + unit" where
  "list_transactions_validate req =
     (case req_params req of
        Params_ListTransactions _ _ _ _ _ _ _ \<Rightarrow> Ok ()
      | _ \<Rightarrow> Err (nip47_err Other ''invalid params for list_transactions''))"

definition list_transactions_execute :: "'n node_env \<Rightarrow> nip47_request \<Rightarrow> 'n world \<Rightarrow> 'n handled" where
  "list_transactions_execute env req w =
     (case (w_service w, req_params req) of
        (Some _, Params_ListTransactions from_ts until_ts limit offset unpaid tt pm) \<Rightarrow>
          (let direction = map_option (\<lambda>t. case t of Incoming \<Rightarrow> Inbound | Outgoing \<Rightarrow> Outbound) tt;
               payments = list_payments_filtered (env_api env) from_ts until_ts limit offset unpaid direction pm (w_node w)
           in (Ok (ok_response Method_ListTransactions (Result_ListTransactions
                 (map payment_details_to_lookup_invoice_response payments))), w))
      | _ \<Rightarrow> (Ok (ok_response Method_ListTransactions (Result_ListTransactions [])), w))"

definition list_invoices_validate :: "nip47_request \<Rightarrow> nip47_error + unit" where
  "list_invoices_validate req =
     (case req_params req of
        Params_ListInvoices _ _ _ _ _ \<Rightarrow> Ok ()
      | _ \<Rightarrow> Err (nip47_err Other ''invalid params for list_invoices''))"

definition invoice_state_name :: "payment_status \<Rightarrow> string" where
  "invoice_state_name st =
     (case st of Status_Pending \<Rightarrow> ''pending'' | Status_Succeeded \<Rightarrow> ''settled'' | Status_Failed \<Rightarrow> ''expired'')"

definition invoice_entry_of :: "string option \<Rightarrow> payment_details \<Rightarrow> invoice_entry option" where
  "invoice_entry_of state_filter p =
     (let state_str = invoice_state_name (pd_status p) in
      if (case state_filter of None \<Rightarrow> False | Some f \<Rightarrow> f \<noteq> state_str) then None
      else Some
        \<lparr>ie_invoice = None, ie_description = None,
         ie_payment_hash = or_empty (payment_hash_from_kind (pd_kind p)),
         ie_amount = or_zero (pd_amount_msat p), ie_state = state_str,
         ie_preimage = preimage_from_kind (pd_kind p),
         ie_created_at = (if pd_latest_update_timestamp p > 0 then Some (pd_latest_update_timestamp p) else None),
         ie_expires_at = None,
         ie_settled_at = (if pd_status p = Status_Succeeded then Some (pd_latest_update_timestamp p) else None)\<rparr>)"

definition list_invoices_execute :: "'n node_env \<Rightarrow> nip47_request \<Rightarrow> 'n world \<Rightarrow> 'n handled" where
  "list_invoices_execute env req w =
     (case (w_service w, req_params req) of
        (Some _, Params_ListInvoices from_ts until_ts limit offset state_filter) \<Rightarrow>
          (let payments = list_payments_filtered (env_api env) from_ts until_ts None None (Some True)
                 (Some Inbound) (Some Bolt11) (w_node w);
               invoices = List.map_filter (invoice_entry_of state_filter) payments
           in (Ok (ok_response Method_ListInvoices (Result_ListInvoices
                 (split_page_invoices offset limit invoices))), w))
      | _ \<Rightarrow> (Ok (ok_response Method_ListInvoices (Result_ListInvoices [])), w))"

definition make_hold_invoice_validate :: "nip47_request \<Rightarrow> nip47_error + unit" where
  "make_hold_invoice_validate req =
     (case req_params req of
        Params_MakeHoldInvoice payment_hash amount \<Rightarrow>
          if trim_is_empty payment_hash then Err (nip47_err Other ''payment_hash is required'')
          else if amount = 0 then Err (nip47_err Other ''amount must be greater than 0'')
          else Ok ()
      | _ \<Rightarrow> Err (nip47_err Other ''invalid params for make_hold_invoice''))"

definition make_hold_invoice_execute :: "u64 \<Rightarrow> 'n world \<Rightarrow> 'n handled" where
  "make_hold_invoice_execute now w =
     (Ok (ok_response Method_MakeHoldInvoice (Result_MakeHoldInvoice
        \<lparr>mh_transaction_type = Incoming, mh_invoice = None, mh_description = None,
         mh_description_hash = None, mh_payment_hash = ''00'', mh_amount = 0, mh_created_at = now,
         mh_expires_at = now\<rparr>)), w)"

definition cancel_hold_invoice_validate :: "nip47_request \<Rightarrow> nip47_error + unit" where
  "cancel_hold_invoice_validate req =
     (case req_params req of
        Params_CancelHoldInvoice payment_hash \<Rightarrow>
          if trim_is_empty payment_hash then Err (nip47_err Other ''payment_hash is required'') else Ok ()
      | _ \<Rightarrow> Err (nip47_err Other ''invalid params for cancel_hold_invoice''))"

definition cancel_hold_invoice_execute :: "'n world \<Rightarrow> 'n handled" where
  "cancel_hold_invoice_execute w = (Ok (ok_response Method_CancelHoldInvoice Result_CancelHoldInvoice), w)"

definition settle_hold_invoice_validate :: "nip47_request \<Rightarrow> nip47_error + unit" where
  "settle_hold_invoice_validate req =
     (case req_params req of
        Params_SettleHoldInvoice preimage \<Rightarrow>
          if trim_is_empty preimage then Err (nip47_err Other ''preimage is required'') else Ok ()
      | _ \<Rightarrow> Err (nip47_err Other ''invalid params for settle_hold_invoice''))"

definition settle_hold_invoice_execute :: "'n world \<Rightarrow> 'n handled" where
  "settle_hold_invoice_execute w = (Ok (ok_response Method_SettleHoldInvoice Result_SettleHoldInvoice), w)"

subsection \<open>Addresses and offers\<close>

definition make_new_address_validate :: "nip47_request \<Rightarrow> nip47_error + unit" where
  "make_new_address_validate req =
     (if req_params req \<noteq> Params_MakeNewAddress
      then Err (nip47_err Other ''invalid params for make_new_address'') else Ok ())"

definition make_new_address_execute :: "'n node_env \<Rightarrow> 'n world \<Rightarrow> 'n handled" where
  "make_new_address_execute env w =
     (case w_service w of
        None \<Rightarrow> (Err service_unavailable, w)
      | Some _ \<Rightarrow>
         sbind (smap_err (map_ldk_service_error ''make_new_address'' Other)
                  (call_node (new_onchain_address (env_api env)) w)) (\<lambda>addr w.
           (Ok (ok_response Method_MakeNewAddress (Result_MakeNewAddress addr)),
            w\<lparr>w_addresses := register_address addr (w_addresses w)\<rparr>)))"

text \<open>The id of an offer the node just made; zeros if its text does not parse.\<close>

definition offer_id_of :: "'n ldk_api \<Rightarrow> string \<Rightarrow> u8 list" where
  "offer_id_of api offer =
     (case api_parse_offer api offer of Ok po \<Rightarrow> po_id po | Err _ \<Rightarrow> replicate 32 0)"

definition make_offer_validate :: "nip47_request \<Rightarrow> nip47_error + unit" where
  "make_offer_validate req =
     (case req_params req of
        Params_MakeOffer amount description expiry \<Rightarrow>
          if amount = 0 then Err (nip47_err Other ''amount must be greater than 0'')
          else if trim_is_empty description then Err (nip47_err Other ''description is required'')
          else Ok ()
      | _ \<Rightarrow> Err (nip47_err Other ''invalid params for make_offer''))"

definition make_offer_execute :: "'n node_env \<Rightarrow> nip47_request \<Rightarrow> 'n world \<Rightarrow> 'n handled" where
  "make_offer_execute env req w =
     (case w_service w of
        None \<Rightarrow> (Err service_unavailable, w)
      | Some _ \<Rightarrow>
         (case req_params req of
            Params_MakeOffer amount description expiry \<Rightarrow>
              sbind (smap_err (map_ldk_service_error ''make_offer'' Other)
                       (call_node (make_offer (env_api env) amount description expiry) w)) (\<lambda>offer w.
                (Ok (ok_response Method_MakeOffer (Result_MakeOffer offer (Some description) (Some amount))),
                 w\<lparr>w_offers := insert_offer offer description amount (offer_id_of (env_api env) offer) (w_offers w)\<rparr>))
          | _ \<Rightarrow> (Err (nip47_err Other ''invalid params for make_offer''), w)))"

definition offer_entry_of :: "offer_record \<Rightarrow> offer_entry" where
  "offer_entry_of r =
     \<lparr>oe_offer = offer_text r, oe_description = Some (offer_description r), oe_amount = Some (amount_msat r),
      oe_active = active r, oe_num_payments_received = num_payments_received r,
      oe_total_received = total_received_msat r\<rparr>"

definition lookup_offer_validate :: "nip47_request \<Rightarrow> nip47_error + unit" where
  "lookup_offer_validate req =
     (case req_params req of
        Params_LookupOffer offer \<Rightarrow>
          if trim_is_empty offer then Err (nip47_err Other ''offer is required'') else Ok ()
      | _ \<Rightarrow> Err (nip47_err Other ''invalid params for lookup_offer''))"

definition lookup_offer_execute :: "nip47_request \<Rightarrow> 'n world \<Rightarrow> 'n handled" where
  "lookup_offer_execute req w =
     (case req_params req of
        Params_LookupOffer offer \<Rightarrow>
          (rbind (ok_or (nip47_err NotFound (''offer not found: '' @ offer)) (get_offer offer (w_offers w)))
             (\<lambda>r. Ok (ok_response Method_LookupOffer (Result_LookupOffer (offer_entry_of r)))), w)
      | _ \<Rightarrow> (Err (nip47_err Other ''invalid params for lookup_offer''), w))"

definition list_offers_validate :: "nip47_request \<Rightarrow> nip47_error + unit" where
  "list_offers_validate req =
     (case req_params req of
        Params_ListOffers _ _ _ \<Rightarrow> Ok ()
      | _ \<Rightarrow> Err (nip47_err Other ''invalid params for list_offers''))"

definition list_offers_execute :: "nip47_request \<Rightarrow> 'n world \<Rightarrow> 'n handled" where
  "list_offers_execute req w =
     (case req_params req of
        Params_ListOffers active_only limit offset \<Rightarrow>
          (let selected = filter (\<lambda>r. if (case active_only of Some b \<Rightarrow> b | None \<Rightarrow> False) then active r else True)
                 (list_offers (w_offers w))
           in (Ok (ok_response Method_ListOffers (Result_ListOffers
                 (split_page offset limit (map offer_entry_of selected)))), w))
      | _ \<Rightarrow> (Err (nip47_err Other ''invalid params for list_offers''), w))"

definition disable_offer_validate :: "nip47_request \<Rightarrow> nip47_error + unit" where
  "disable_offer_validate req =
     (case req_params req of
        Params_DisableOffer offer \<Rightarrow>
          if trim_is_empty offer then Err (nip47_err Other ''offer is required'') else Ok ()
      | _ \<Rightarrow> Err (nip47_err Other ''invalid params for disable_offer''))"

definition disable_offer_execute :: "nip47_request \<Rightarrow> 'n world \<Rightarrow> 'n handled" where
  "disable_offer_execute req w =
     (case req_params req of
        Params_DisableOffer offer \<Rightarrow>
          (case disable_offer offer (w_offers w) of
             (False, store) \<Rightarrow> (Err (nip47_err NotFound (''offer not found: '' @ offer)), w\<lparr>w_offers := store\<rparr>)
           | (True, store) \<Rightarrow> (Ok (ok_response Method_DisableOffer Result_DisableOffer), w\<lparr>w_offers := store\<rparr>))
      | _ \<Rightarrow> (Err (nip47_err Other ''invalid params for disable_offer''), w))"

definition lookup_address_validate :: "nip47_request \<Rightarrow> nip47_error + unit" where
  "lookup_address_validate req =
     (case req_params req of
        Params_LookupAddress addr \<Rightarrow>
          if trim_is_empty addr then Err (nip47_err Other ''address is required'') else Ok ()
      | _ \<Rightarrow> Err (nip47_err Other ''invalid params for lookup_address''))"

definition total_received_sats :: "address_record \<Rightarrow> u64" where
  "total_received_sats r = sum_list (map amount_sats (transactions r))"

definition lookup_address_execute :: "nip47_request \<Rightarrow> 'n world \<Rightarrow> 'n handled" where
  "lookup_address_execute req w =
     (case req_params req of
        Params_LookupAddress addr \<Rightarrow>
          (rbind (ok_or (nip47_err NotFound (''address not found: '' @ addr)) (get_address addr (w_addresses w)))
             (\<lambda>r. Ok (ok_response Method_LookupAddress (Result_LookupAddress
                \<lparr>la_address = address r, la_total_received_sats = total_received_sats r,
                 la_transactions = map (\<lambda>tx. \<lparr>at_txid = txid tx, at_amount_sats = amount_sats tx,
                   at_timestamp = timestamp tx\<rparr>) (transactions r)\<rparr>))), w)
      | _ \<Rightarrow> (Err (nip47_err Other ''invalid params for lookup_address''), w))"

definition list_addresses_validate :: "nip47_request \<Rightarrow> nip47_error + unit" where
  "list_addresses_validate req =
     (case req_params req of
        Params_ListAddresses _ _ \<Rightarrow> Ok ()
      | _ \<Rightarrow> Err (nip47_err Other ''invalid params for list_addresses''))"

definition list_addresses_execute :: "nip47_request \<Rightarrow> 'n world \<Rightarrow> 'n handled" where
  "list_addresses_execute req w =
     (case req_params req of
        Params_ListAddresses limit offset \<Rightarrow>
          (Ok (ok_response Method_ListAddresses (Result_ListAddresses
             (split_page offset limit
               (map (\<lambda>r. (address r, total_received_sats r)) (list_addresses (w_addresses w)))))), w)
      | _ \<Rightarrow> (Err (nip47_err Other ''invalid params for list_addresses''), w))"

subsection \<open>Making a BIP 321 URI\<close>

definition make_bip321_validate :: "nip47_request \<Rightarrow> nip47_error + unit" where
  "make_bip321_validate req =
     (case req_params req of
        Params_MakeBip321 _ _ _ _ \<Rightarrow> Ok ()
      | _ \<Rightarrow> Err (nip47_err Other ''invalid params for make_bip321''))"

definition default_bip321_methods :: "bip321_method_entry list" where
  "default_bip321_methods =
     [\<lparr>entry_method = ''bolt11'', entry_expiry = None, entry_address_type = None\<rparr>,
      \<lparr>entry_method = ''bolt12'', entry_expiry = None, entry_address_type = None\<rparr>,
      \<lparr>entry_method = ''onchain'', entry_expiry = None, entry_address_type = None\<rparr>]"

text \<open>One entry of the method list: the URI so far, whether anything was generated, the state.\<close>

definition bip321_entry ::
    "'n node_env \<Rightarrow> u64 option \<Rightarrow> string option \<Rightarrow> bip321_method_entry \<Rightarrow>
       bip321_builder \<times> bool \<times> 'n world \<Rightarrow> bip321_builder \<times> bool \<times> 'n world" where
  "bip321_entry env amount msg entry st =
     (case st of (uri, generated, w) \<Rightarrow>
        if entry_method entry = ''bolt11'' then
          (case amount of
             None \<Rightarrow> (uri, generated, w)
           | Some a \<Rightarrow>
              (case call_node (make_invoice (env_api env) a msg None (entry_expiry entry)) w of
                 (Ok made, w) \<Rightarrow> (uri\<lparr>bld_lightning := bld_lightning uri @ [lir_invoice made]\<rparr>, True, w)
               | (Err _, w) \<Rightarrow> (uri, generated, w)))
        else if entry_method entry = ''bolt12'' then
          (let a = or_zero amount;
               desc = (case msg of None \<Rightarrow> ''bip321 offer'' | Some m \<Rightarrow> m);
               expiry = Option.bind (entry_expiry entry) u32_try_from_u64
           in case call_node (make_offer (env_api env) a desc expiry) w of
                (Ok offer, w) \<Rightarrow>
                  (uri\<lparr>bld_lno := bld_lno uri @ [offer]\<rparr>, True,
                   w\<lparr>w_offers := insert_offer offer desc a (offer_id_of (env_api env) offer) (w_offers w)\<rparr>)
              | (Err _, w) \<Rightarrow> (uri, generated, w))
        else if entry_method entry = ''onchain'' then
          (if (case entry_address_type entry of None \<Rightarrow> False | Some t \<Rightarrow> t \<noteq> ''p2tr'')
           then (uri, generated, w)
           else
             (case call_node (new_onchain_address (env_api env)) w of
                (Ok addr, w) \<Rightarrow>
                  (let w' = w\<lparr>w_addresses := register_address addr (w_addresses w)\<rparr> in
                   if env_address_parses env addr then (uri\<lparr>bld_address := Some addr\<rparr>, True, w')
                   else (uri, generated, w'))
              | (Err _, w) \<Rightarrow> (uri, generated, w)))
        else (uri, generated, w))"

definition make_bip321_execute :: "'n node_env \<Rightarrow> nip47_request \<Rightarrow> 'n world \<Rightarrow> 'n handled" where
  "make_bip321_execute env req w =
     (case w_service w of
        None \<Rightarrow> (Err service_unavailable, w)
      | Some _ \<Rightarrow>
         (case req_params req of
            Params_MakeBip321 amount label msg methods \<Rightarrow>
              (let uri0 = \<lparr>bld_amount_sat = map_option (\<lambda>a. a div 1000) amount, bld_label = label,
                           bld_message = msg, bld_lightning = [], bld_lno = [], bld_address = None\<rparr>
               in case fold (bip321_entry env amount msg)
                         (case methods of None \<Rightarrow> default_bip321_methods | Some ms \<Rightarrow> ms) (uri0, False, w) of
                    (uri, generated, w') \<Rightarrow>
                      if \<not> generated then (Err (nip47_err Other ''failed to generate any payment instruction''), w')
                      else (Ok (ok_response Method_MakeBip321 (Result_MakeBip321 (env_show_uri env uri))), w'))
          | _ \<Rightarrow> (Err (nip47_err Other ''invalid params for make_bip321''), w)))"

subsection \<open>Estimates\<close>

definition estimate_onchain_fees_validate :: "nip47_request \<Rightarrow> nip47_error + unit" where
  "estimate_onchain_fees_validate req =
     (if req_params req \<noteq> Params_EstimateOnchainFees
      then Err (nip47_err Other ''invalid params for estimate_onchain_fees'') else Ok ())"

definition estimate_onchain_fees_execute :: "'n world \<Rightarrow> 'n handled" where
  "estimate_onchain_fees_execute w =
     (Err (nip47_err NotImplemented ''estimate_onchain_fees not yet implemented''), w)"

definition estimate_routing_fees_validate :: "nip47_request \<Rightarrow> nip47_error + unit" where
  "estimate_routing_fees_validate req =
     (case req_params req of
        Params_EstimateRoutingFees destination amount \<Rightarrow>
          if destination = [] \<or> amount = 0 then Err (nip47_err Other ''destination and amount required'')
          else Ok ()
      | _ \<Rightarrow> Err (nip47_err Other ''invalid params for estimate_routing_fees''))"

definition estimate_routing_fees_execute :: "'n node_env \<Rightarrow> nip47_request \<Rightarrow> 'n world \<Rightarrow> 'n handled" where
  "estimate_routing_fees_execute env req w =
     (case req_params req of
        Params_EstimateRoutingFees destination amount \<Rightarrow>
          (case (case w_service w of
                   None \<Rightarrow> []
                 | Some _ \<Rightarrow> find_routes (env_api env) destination amount 1 (w_node w)) of
             [] \<Rightarrow> (Err (nip47_err Other ''no route found to destination''), w)
           | route # _ \<Rightarrow> (Ok (ok_response Method_EstimateRoutingFees
               (Result_EstimateRoutingFees (total_fee route) (total_time_lock route))), w))
      | _ \<Rightarrow> (Err (nip47_err Other ''invalid params for estimate_routing_fees''), w))"

subsection \<open>The table of handlers\<close>

record 'n handler =
  h_validate :: "nip47_request \<Rightarrow> nip47_error + unit"
  h_execute :: "nip47_request \<Rightarrow> pubkey \<Rightarrow> 'n world \<Rightarrow> (nip47_error + nip47_response) outcome \<times> 'n world"

definition never_panics ::
    "(nip47_request \<Rightarrow> nip47_error + unit) \<Rightarrow> (nip47_request \<Rightarrow> 'n world \<Rightarrow> 'n handled) \<Rightarrow> 'n handler" where
  "never_panics v ex =
     \<lparr>h_validate = v, h_execute = (\<lambda>req caller w. case ex req w of (r, w') \<Rightarrow> (Returned r, w'))\<rparr>"

definition request_handlers :: "'n node_env \<Rightarrow> u64 \<Rightarrow> nip47_method \<Rightarrow> 'n handler option" where
  "request_handlers env now m =
     (case m of
        Method_GetInfo \<Rightarrow> Some \<lparr>h_validate = get_info_validate, h_execute = (\<lambda>req. get_info_execute env)\<rparr>
      | Method_GetBalance \<Rightarrow> Some (never_panics get_balance_validate (\<lambda>_. get_balance_execute env))
      | Method_PayInvoice \<Rightarrow> Some (never_panics pay_invoice_validate (pay_invoice_execute env))
      | Method_PayKeysend \<Rightarrow> Some (never_panics pay_keysend_validate (pay_keysend_execute env))
      | Method_MakeInvoice \<Rightarrow> Some (never_panics make_invoice_validate (make_invoice_execute env now))
      | Method_LookupInvoice \<Rightarrow>
          Some \<lparr>h_validate = lookup_invoice_validate, h_execute = (\<lambda>req caller. lookup_invoice_execute env now req)\<rparr>
      | Method_ListTransactions \<Rightarrow> Some (never_panics list_transactions_validate (list_transactions_execute env))
      | Method_MakeHoldInvoice \<Rightarrow> Some (never_panics make_hold_invoice_validate (\<lambda>_. make_hold_invoice_execute now))
      | Method_CancelHoldInvoice \<Rightarrow> Some (never_panics cancel_hold_invoice_validate (\<lambda>_. cancel_hold_invoice_execute))
      | Method_SettleHoldInvoice \<Rightarrow> Some (never_panics settle_hold_invoice_validate (\<lambda>_. settle_hold_invoice_execute))
      | Method_MakeNewAddress \<Rightarrow> Some (never_panics make_new_address_validate (\<lambda>_. make_new_address_execute env))
      | Method_PayOnchain \<Rightarrow> Some (never_panics pay_onchain_validate (pay_onchain_execute env))
      | Method_MakeOffer \<Rightarrow> Some (never_panics make_offer_validate (make_offer_execute env))
      | Method_PayOffer \<Rightarrow> Some (never_panics pay_offer_validate (pay_offer_execute env))
      | Method_LookupOffer \<Rightarrow> Some (never_panics lookup_offer_validate lookup_offer_execute)
      | Method_LookupAddress \<Rightarrow> Some (never_panics lookup_address_validate lookup_address_execute)
      | Method_ListInvoices \<Rightarrow> Some (never_panics list_invoices_validate (list_invoices_execute env))
      | Method_ListOffers \<Rightarrow> Some (never_panics list_offers_validate list_offers_execute)
      | Method_DisableOffer \<Rightarrow> Some (never_panics disable_offer_validate disable_offer_execute)
      | Method_ListAddresses \<Rightarrow> Some (never_panics list_addresses_validate list_addresses_execute)
      | Method_PayBip321 \<Rightarrow> Some (never_panics (pay_bip321_validate (env_parse_uri env)) (pay_bip321_execute env))
      | Method_MakeBip321 \<Rightarrow> Some (never_panics make_bip321_validate (make_bip321_execute env))
      | Method_EstimateOnchainFees \<Rightarrow> Some (never_panics estimate_onchain_fees_validate (\<lambda>_. estimate_onchain_fees_execute))
      | Method_EstimateRoutingFees \<Rightarrow> Some (never_panics estimate_routing_fees_validate (estimate_routing_fees_execute env))
      | Method_SubscribeNotifications \<Rightarrow> None
      | Method_Unknown _ \<Rightarrow> None)"

end
