(* ===== verification/Access_Spec.thy ===== *)
theory Access_Spec
  imports Access_Control
begin

section \<open>The contract of access control\<close>

text \<open>
  An account book is the access layer without handles, locks and phases. \<open>spec_verify\<close>
  is the contract of \<open>verify_access\<close> on it, and \<open>verify_access_spec\<close> the refinement: under
  the invariant of the store the code gives the answer and the new state of the contract.
\<close>

subsection \<open>The contract: an account book\<close>

text \<open>
  What access control promises, without handles, locks, sorting or phases: each caller
  has a profile and buckets, and a request is either refused with nothing changed or it
  debits the bucket of its method and the caller's quota.
\<close>

record account_book =
  book_profiles :: "pubkey \<rightharpoonup> usage_profile"
  book_rate :: "access_key \<rightharpoonup> rate_state"
  book_quota :: "access_key \<rightharpoonup> rate_state"

definition book_of :: "profile_state \<Rightarrow> account_book" where
  "book_of ps =
     \<lparr>book_profiles = usage_profiles ps,
      book_rate = access_rate_bucket (access ps),
      book_quota = quota_bucket (access ps)\<rparr>"

fun spec_slot ::
    "nip47_method \<Rightarrow> access_error_context \<Rightarrow> rate_limit_rule option \<Rightarrow> 'b option \<Rightarrow>
       nip47_response + (rate_limit_rule \<times> 'b) option" where
  "spec_slot m ctx None b = Ok None"
| "spec_slot m ctx (Some rule) None = Err (missing_state_response m ctx)"
| "spec_slot m ctx (Some rule) (Some s) = Ok (Some (rule, s))"

fun spec_debit ::
    "nip47_method \<Rightarrow> access_error_context \<Rightarrow> u64 \<Rightarrow> u64 \<Rightarrow> (rate_limit_rule \<times> rate_state) option \<Rightarrow>
       nip47_response + rate_state option" where
  "spec_debit m ctx amount now None = Ok None"
| "spec_debit m ctx amount now (Some (rule, s)) =
     (case withdraw_after_refill s amount now rule of
        (Err e, _) \<Rightarrow> Err (rate_state_error_response m e ctx)
      | (Ok _, s') \<Rightarrow> Ok (Some s'))"

definition write_slot :: "'k \<Rightarrow> 'v option \<Rightarrow> ('k \<rightharpoonup> 'v) \<Rightarrow> ('k \<rightharpoonup> 'v)" where
  "write_slot k v m = (case v of None \<Rightarrow> m | Some x \<Rightarrow> m(k \<mapsto> x))"

definition quota_rule_for :: "u64 \<Rightarrow> usage_profile \<Rightarrow> rate_limit_rule option" where
  "quota_rule_for amount p = (if amount > 0 then profile_quota p else None)"

definition spend_of :: "bip321_parser \<Rightarrow> nip47_request \<Rightarrow> u64" where
  "spend_of parse req = (case request_spend_msat parse req of None \<Rightarrow> 0 | Some a \<Rightarrow> a)"

definition spec_verify ::
    "nip47_method \<Rightarrow> pubkey \<Rightarrow> u64 \<Rightarrow> u64 \<Rightarrow> account_book \<Rightarrow> nip47_response + account_book" where
  "spec_verify m caller amount now book =
     rbind (ok_or (unauthorized_response m) (book_profiles book caller)) (\<lambda>p.
     rbind (method_rule_for m p) (\<lambda>method_rule.
     rbind (spec_slot m AccessRate (Option.bind method_rule rule_access_rate)
              (book_rate book (AccessKey_Method caller m))) (\<lambda>rate_slot.
     rbind (spec_slot m Quota (quota_rule_for amount p)
              (book_quota book (AccessKey_Quota caller))) (\<lambda>quota_slot.
     rbind (spec_debit m AccessRate 1000000 now rate_slot) (\<lambda>rate_bucket.
     rbind (spec_debit m Quota amount now quota_slot) (\<lambda>quota_bucket.
       Ok (book\<lparr>book_rate := write_slot (AccessKey_Method caller m) rate_bucket (book_rate book),
                book_quota := write_slot (AccessKey_Quota caller) quota_bucket (book_quota book)\<rparr>)))))))"

text \<open>The handle behind a filled slot, and the update that the code makes of it.\<close>

definition rate_update :: "nip47_method \<Rightarrow> pubkey \<Rightarrow> rate_limit_rule \<Rightarrow> addr \<Rightarrow> state_update_request" where
  "rate_update m caller rule a = \<lparr>upd_key = AccessKey_Method caller m, upd_rule = rule,
     upd_amount = 1000000, upd_context = AccessRate, upd_state = a\<rparr>"

definition quota_update :: "pubkey \<Rightarrow> u64 \<Rightarrow> rate_limit_rule \<Rightarrow> addr \<Rightarrow> state_update_request" where
  "quota_update caller amount rule a = \<lparr>upd_key = AccessKey_Quota caller, upd_rule = rule,
     upd_amount = amount, upd_context = Quota, upd_state = a\<rparr>"

lemma update_selectors [simp]:
  "upd_key (rate_update m caller rule a) = AccessKey_Method caller m"
  "upd_rule (rate_update m caller rule a) = rule"
  "upd_amount (rate_update m caller rule a) = 1000000"
  "upd_context (rate_update m caller rule a) = AccessRate"
  "upd_state (rate_update m caller rule a) = a"
  "upd_key (quota_update caller amount rule a) = AccessKey_Quota caller"
  "upd_rule (quota_update caller amount rule a) = rule"
  "upd_amount (quota_update caller amount rule a) = amount"
  "upd_context (quota_update caller amount rule a) = Quota"
  "upd_state (quota_update caller amount rule a) = a"
  by (simp_all add: rate_update_def quota_update_def)

text \<open>The updates a request can have: none, its method's, its quota's, or both in this order.\<close>

definition updates_of ::
    "nip47_method \<Rightarrow> pubkey \<Rightarrow> u64 \<Rightarrow> (rate_limit_rule \<times> addr) option \<Rightarrow>
       (rate_limit_rule \<times> addr) option \<Rightarrow> state_update_request list" where
  "updates_of m caller amount r q =
     (case r of None \<Rightarrow> [] | Some (rule, a) \<Rightarrow> [rate_update m caller rule a]) @
     (case q of None \<Rightarrow> [] | Some (rule, a) \<Rightarrow> [quota_update caller amount rule a])"

lemma sort_updates_of:
  "sort_by (\<lambda>a b. compare_access_keys as_str (upd_key a) (upd_key b)) (updates_of m caller amount r q)
     = updates_of m caller amount r q"
  by (rule update_order.sort_by_sorted_id) (auto simp: updates_of_def split: option.splits)

lemma access_rate_updates_cases:
  "access_rate_updates m caller mr st =
     (case Option.bind mr rule_access_rate of
        None \<Rightarrow> Ok []
      | Some rule \<Rightarrow>
         (case access_rate st (AccessKey_Method caller m) of
            None \<Rightarrow> Err (missing_state_response m AccessRate)
          | Some a \<Rightarrow> Ok [rate_update m caller rule a]))"
  by (auto simp: access_rate_updates_def get_access_rate_state_def Let_def rate_update_def
      split: option.splits)

lemma quota_updates_cases:
  "quota_updates m caller amount (profile_quota p) st =
     (case quota_rule_for amount p of
        None \<Rightarrow> Ok []
      | Some rule \<Rightarrow>
         (case quota st (AccessKey_Quota caller) of
            None \<Rightarrow> Err (missing_state_response m Quota)
          | Some a \<Rightarrow> Ok [quota_update caller amount rule a]))"
  by (auto simp: quota_updates_def get_quota_state_def Let_def quota_update_def quota_rule_for_def
      split: option.splits)

lemma prepare_updates_eq:
  "prepare_updates as_str parse req caller ps =
     rbind (ok_or (unauthorized_response (req_method req)) (usage_profiles ps caller)) (\<lambda>p.
     rbind (method_rule_for (req_method req) p) (\<lambda>mr.
     rbind (spec_slot (req_method req) AccessRate (Option.bind mr rule_access_rate)
              (access_rate (access ps) (AccessKey_Method caller (req_method req)))) (\<lambda>r.
     rbind (spec_slot (req_method req) Quota (quota_rule_for (spend_of parse req) p)
              (quota (access ps) (AccessKey_Quota caller))) (\<lambda>q.
       Ok (updates_of (req_method req) caller (spend_of parse req) r q)))))"
proof (cases "usage_profiles ps caller")
  case None
  then show ?thesis by (simp add: prepare_updates_def get_usage_profile_def)
next
  case (Some p)
  show ?thesis
  proof (cases "method_rule_for (req_method req) p")
    case (Inl e)
    with Some show ?thesis by (simp add: prepare_updates_def get_usage_profile_def)
  next
    case (Inr mr)
    let ?m = "req_method req" and ?amount = "spend_of parse req"
    have "prepare_updates as_str parse req caller ps =
       rbind (access_rate_updates ?m caller mr (access ps)) (\<lambda>us1.
       rbind (quota_updates ?m caller ?amount (profile_quota p) (access ps)) (\<lambda>us2.
         Ok (sort_by (\<lambda>a b. compare_access_keys as_str (upd_key a) (upd_key b)) (us1 @ us2))))"
      using Some Inr by (simp add: prepare_updates_def get_usage_profile_def spend_of_def)
    also have "\<dots> =
       rbind (spec_slot ?m AccessRate (Option.bind mr rule_access_rate)
                (access_rate (access ps) (AccessKey_Method caller ?m))) (\<lambda>r.
       rbind (spec_slot ?m Quota (quota_rule_for ?amount p)
                (quota (access ps) (AccessKey_Quota caller))) (\<lambda>q.
         Ok (sort_by (\<lambda>a b. compare_access_keys as_str (upd_key a) (upd_key b))
               (updates_of ?m caller ?amount r q))))"
      by (simp add: access_rate_updates_cases quota_updates_cases updates_of_def
          split: option.splits)
    finally show ?thesis
      using Some Inr by (simp add: sort_updates_of)
  qed
qed

text \<open>Reading the buckets through the handles.\<close>

definition open_slot ::
    "access_state \<Rightarrow> (rate_limit_rule \<times> addr) option \<Rightarrow> (rate_limit_rule \<times> rate_state) option" where
  "open_slot st r = map_option (\<lambda>(rule, a). (rule, the (lock_cell st a))) r"

lemma open_slots:
  assumes "wf_access_state st" "unpoisoned st"
  shows "spec_slot m ctx rule (access_rate_bucket st k) =
      (case spec_slot m ctx rule (access_rate st k) of Err e \<Rightarrow> Err e | Ok r \<Rightarrow> Ok (open_slot st r))"
    and "spec_slot m ctx rule (quota_bucket st k) =
      (case spec_slot m ctx rule (quota st k) of Err e \<Rightarrow> Err e | Ok r \<Rightarrow> Ok (open_slot st r))"
  using lock_rate_cell [OF assms, of k] missing_iff [OF assms(1), of k]
  by (cases rule; cases "access_rate st k"; cases "quota st k"; force simp: open_slot_def)+

lemma spec_slot_Ok_addr:
  "spec_slot m ctx rule a = Ok r \<Longrightarrow> r = Some (rule', a') \<Longrightarrow> a = Some a' \<and> rule = Some rule'"
  by (cases rule; cases a) auto

lemma unpoisoned_store_cell [wf_intros]: "unpoisoned st \<Longrightarrow> unpoisoned (store_cell a s st)"
  by (simp add: unpoisoned_def)

text \<open>The locked part of \<open>verify_access\<close>, from the first lock to the last release.\<close>

definition settle ::
    "nip47_method \<Rightarrow> u64 \<Rightarrow> state_update_request list \<Rightarrow> access_state \<Rightarrow>
       (nip47_response + unit) \<times> access_state" where
  "settle m now us st =
     (case lock_all m st us of
        Err e \<Rightarrow> (Err e, st)
      | Ok gs \<Rightarrow>
         (case verify_all m now gs of
            Err e \<Rightarrow> (Err e, st)
          | Ok _ \<Rightarrow> (case debit_all m now gs of (r, gs') \<Rightarrow> (r, drop_guards gs' st))))"

lemma verify_access_settle:
  "verify_access as_str parse req caller micros ps =
     (case prepare_updates as_str parse req caller ps of
        Err e \<Rightarrow> (Err e, ps)
      | Ok us \<Rightarrow>
         (case settle (req_method req) (now_micros micros) us (access ps) of
            (r, st) \<Rightarrow> (rbind r (\<lambda>_. Ok us), ps\<lparr>access := st\<rparr>)))"
  by (simp add: verify_access_def settle_def split: sum.splits prod.splits)

lemma lock_all_cells:
  "lock_all m st us = Ok gs \<Longrightarrow>
     map gu_update gs = us \<and> (\<forall>g \<in> set gs. lock_cell st (upd_state (gu_update g)) = Some (gu_guard g))"
  by (induction us arbitrary: gs) (auto simp: rbind_eq_Ok split: option.splits)

lemma debit_all_updates: "map gu_update (snd (debit_all m now gs)) = map gu_update gs"
  by (induction gs) (auto split: prod.splits sum.splits)

lemma drop_guards_keeps:
  "wf_access_state st \<Longrightarrow> unpoisoned st \<Longrightarrow>
     \<forall>u \<in> set (map gu_update gs). heap st (upd_state u) \<noteq> None \<Longrightarrow>
     wf_access_state (drop_guards gs st) \<and> unpoisoned (drop_guards gs st)"
  by (induction gs arbitrary: st) (simp_all add: wf_intros)

lemma settle_keeps:
  assumes "wf_access_state st" "unpoisoned st"
  shows "wf_access_state (snd (settle m now us st)) \<and> unpoisoned (snd (settle m now us st))"
proof (cases "lock_all m st us")
  case (Inl e)
  with assms show ?thesis by (simp add: settle_def)
next
  case (Inr gs)
  have "\<forall>u \<in> set (map gu_update (snd (debit_all m now gs))). heap st (upd_state u) \<noteq> None"
    using lock_all_cells [OF Inr]
    by (auto simp: debit_all_updates lock_cell_def split: option.splits)
  with assms drop_guards_keeps [of st "snd (debit_all m now gs)"] 
  have "wf_access_state (drop_guards (snd (debit_all m now gs)) st) \<and>
      unpoisoned (drop_guards (snd (debit_all m now gs)) st)" by blast
  with assms Inr show ?thesis
    by (cases "debit_all m now gs") (simp add: settle_def split: sum.splits)
qed

definition slots_lead_to ::
    "nip47_method \<Rightarrow> pubkey \<Rightarrow> access_state \<Rightarrow> (rate_limit_rule \<times> addr) option \<Rightarrow>
       (rate_limit_rule \<times> addr) option \<Rightarrow> bool" where
  "slots_lead_to m caller st r q \<longleftrightarrow>
     (\<forall>rule a. r = Some (rule, a) \<longrightarrow> access_rate st (AccessKey_Method caller m) = Some a) \<and>
     (\<forall>rule a. q = Some (rule, a) \<longrightarrow> quota st (AccessKey_Quota caller) = Some a)"

lemma settle_updates_of:
  assumes wf: "wf_access_state st" "unpoisoned st" and h: "slots_lead_to m caller st r q"
  shows "rbind (spec_debit m AccessRate 1000000 now (open_slot st r)) (\<lambda>rb.
         rbind (spec_debit m Quota amount now (open_slot st q)) (\<lambda>qb.
           Ok (write_slot (AccessKey_Method caller m) rb (access_rate_bucket st),
               write_slot (AccessKey_Quota caller) qb (quota_bucket st)))) =
     (case settle m now (updates_of m caller amount r q) st of
        (Err e, st') \<Rightarrow> Err e
      | (Ok _, st') \<Rightarrow> Ok (access_rate_bucket st', quota_bucket st'))"
proof -
  let ?km = "AccessKey_Method caller m" and ?kq = "AccessKey_Quota caller"
  have rate: "\<exists>s. lock_cell st a = Some s \<and> access_rate st ?km = Some a" if "r = Some (rule, a)" for rule a
    using h that lock_rate_cell(1) [OF wf, of ?km a] by (metis not_Some_eq slots_lead_to_def)
  have quot: "\<exists>s. lock_cell st a = Some s \<and> quota st ?kq = Some a" if "q = Some (rule, a)" for rule a
    using h that lock_rate_cell(2) [OF wf, of ?kq a] by (metis not_Some_eq slots_lead_to_def)
  have stored: "wf_access_state (store_cell a s st)" if "access_rate st ?km = Some a" for a s
    using wf_store_cell [OF wf(1)] wf_access_stateD(1) [OF wf(1) handlesI(1) [OF that]] by blast
  note facts = settle_def updates_of_def open_slot_def write_slot_def check_is_debit_result
    bucket_store_cell wf
  show ?thesis
  proof (cases r)
    case None
    show ?thesis
    proof (cases q)
      case None
      with \<open>r = None\<close> show ?thesis by (simp add: facts)
    next
      case (Some x)
      obtain rule a where x: "x = (rule, a)" by fastforce
      with Some quot obtain s where s: "lock_cell st a = Some s" "quota st ?kq = Some a" by blast
      obtain res s' where "withdraw_after_refill s amount now rule = (res, s')" by fastforce
      with \<open>r = None\<close> Some x s show ?thesis by (cases res) (simp_all add: facts)
    qed
  next
    case (Some y)
    obtain rule a where y: "y = (rule, a)" by fastforce
    with Some rate obtain s where s: "lock_cell st a = Some s" "access_rate st ?km = Some a" by blast
    obtain res s' where w: "withdraw_after_refill s 1000000 now rule = (res, s')" by fastforce
    show ?thesis
    proof (cases q)
      case None
      with Some y s w show ?thesis by (cases res) (simp_all add: facts)
    next
      case (Some z)
      obtain qrule b where z: "z = (qrule, b)" by fastforce
      with Some quot obtain t where t: "lock_cell st b = Some t" "quota st ?kq = Some b" by blast
      obtain qres t' where v: "withdraw_after_refill t amount now qrule = (qres, t')" by fastforce
      show ?thesis
        using \<open>r = Some y\<close> Some y z s t w v stored [OF s(2)]
        by (cases res; cases qres) (simp_all add: facts)
    qed
  qed
qed

text \<open>The code implements the contract.\<close>

lemma verify_access_spec:
  assumes wf: "wf_access_state (access ps)" "unpoisoned (access ps)"
  shows "spec_verify (req_method req) caller (spend_of parse req) (now_micros micros) (book_of ps) =
     (case verify_access as_str parse req caller micros ps of
        (Err e, ps') \<Rightarrow> Err e
      | (Ok us, ps') \<Rightarrow> Ok (book_of ps'))"
proof -
  let ?m = "req_method req" and ?amount = "spend_of parse req" and ?now = "now_micros micros"
  let ?km = "AccessKey_Method caller ?m" and ?kq = "AccessKey_Quota caller"
  show ?thesis
  proof (cases "\<exists>p mr. usage_profiles ps caller = Some p \<and> method_rule_for ?m p = Ok mr")
    case False
    then show ?thesis
      by (cases "usage_profiles ps caller"; cases "method_rule_for ?m (the (usage_profiles ps caller))")
        (auto simp: spec_verify_def verify_access_settle prepare_updates_eq book_of_def)
  next
    case True
    then obtain p mr where p: "usage_profiles ps caller = Some p" "method_rule_for ?m p = Ok mr" by blast
    let ?r = "spec_slot ?m AccessRate (Option.bind mr rule_access_rate) (access_rate (access ps) ?km)"
    let ?q = "spec_slot ?m Quota (quota_rule_for ?amount p) (quota (access ps) ?kq)"
    show ?thesis
    proof (cases "(\<exists>r. ?r = Ok r) \<and> (\<exists>q. ?q = Ok q)")
      case False
      then show ?thesis
        using p
        by (cases ?r; cases ?q)
          (auto simp: spec_verify_def verify_access_settle prepare_updates_eq book_of_def
            open_slots [OF wf])
    next
      case True
      then obtain r q where rq: "?r = Ok r" "?q = Ok q" by blast
      then have "slots_lead_to ?m caller (access ps) r q"
        by (auto simp: slots_lead_to_def dest: spec_slot_Ok_addr)
      note eq = settle_updates_of [OF wf this, of ?now ?amount]
      have "spec_verify ?m caller ?amount ?now (book_of ps) =
          rbind (rbind (spec_debit ?m AccessRate 1000000 ?now (open_slot (access ps) r)) (\<lambda>rb.
                 rbind (spec_debit ?m Quota ?amount ?now (open_slot (access ps) q)) (\<lambda>qb.
                   Ok (write_slot ?km rb (access_rate_bucket (access ps)),
                       write_slot ?kq qb (quota_bucket (access ps))))))
            (\<lambda>(rate, quot). Ok \<lparr>book_profiles = usage_profiles ps, book_rate = rate, book_quota = quot\<rparr>)"
        using p rq
        by (simp add: spec_verify_def book_of_def open_slots [OF wf] rbind_def split: sum.splits)
      with eq show ?thesis
        using p rq
        by (simp add: verify_access_settle prepare_updates_eq book_of_def split: sum.splits prod.splits)
    qed
  qed
qed

end
