(* ===== verification/Access_Sync.thy ===== *)
theory Access_Sync
  imports Access_Spec
begin

section \<open>Profiles and buckets in step\<close>

text \<open>
  The invariant of the access layer between its operations: every key of a profile with a
  valid rule has a bucket, filled between zero and the rule's capacity, and no other key has
  one. Each operation, run to its end, keeps it. What holds while operations of several
  tasks interleave is in \<open>Access_Machine\<close>.
\<close>

subsection \<open>Profiles and buckets in step\<close>

text \<open>The rule in force for a key, the bucket behind it, and how the two fit.\<close>

fun rule_at :: "profile_state \<Rightarrow> access_key \<Rightarrow> rate_limit_rule option" where
  "rule_at ps (AccessKey_Method pk m) = Option.bind (usage_profiles ps pk) (\<lambda>p. method_rule_of p m)"
| "rule_at ps (AccessKey_Quota pk) = Option.bind (usage_profiles ps pk) profile_quota"

fun bucket_at :: "profile_state \<Rightarrow> access_key \<Rightarrow> rate_state option" where
  "bucket_at ps (AccessKey_Method pk m) = access_rate_bucket (access ps) (AccessKey_Method pk m)"
| "bucket_at ps (AccessKey_Quota pk) = quota_bucket (access ps) (AccessKey_Quota pk)"

definition bucket_matches :: "rate_limit_rule option \<Rightarrow> rate_state option \<Rightarrow> bool" where
  "bucket_matches r b \<longleftrightarrow>
     (case r of
        None \<Rightarrow> b = None
      | Some rule \<Rightarrow> if valid_rule rule then \<exists>s. b = Some s \<and> bucket_ok rule s else b = None)"

definition in_sync :: "profile_state \<Rightarrow> bool" where
  "in_sync ps \<longleftrightarrow> wf_profile_state ps \<and> unpoisoned (access ps) \<and>
     (\<forall>key. bucket_matches (rule_at ps key) (bucket_at ps key))"

lemma in_syncD:
  assumes "in_sync ps"
  shows "wf_profile_state ps" "wf_access_state (access ps)" "unpoisoned (access ps)"
    "bucket_matches (rule_at ps key) (bucket_at ps key)"
  using assms by (auto simp: in_sync_def wf_profile_state_def)

lemma bucket_matches_fresh: "bucket_matches r (Option.bind r (fresh_bucket now))"
  by (auto simp: bucket_matches_def fresh_bucket_def valid_rule_def from_rule_def
      rate_state_new_def bucket_ok_def split: option.splits)

lemma bucket_matches_Some:
  "bucket_matches r (Some s) \<Longrightarrow> \<exists>rule. r = Some rule \<and> bucket_ok rule s"
  by (auto simp: bucket_matches_def split: option.splits if_splits)

lemma bucket_matches_ok: "bucket_ok rule s \<Longrightarrow> bucket_matches (Some rule) (Some s)"
  using bucket_ok_valid by (auto simp: bucket_matches_def)

lemma in_sync_empty: "in_sync profile_state_empty"
proof -
  have "bucket_matches (rule_at profile_state_empty key) (bucket_at profile_state_empty key)" for key
    by (cases key) (simp_all add: profile_state_empty_def access_state_empty_def
        access_rate_bucket_def quota_bucket_def deref_def bucket_matches_def)
  then show ?thesis
    by (simp add: in_sync_def wf_profile_state_empty)
      (simp add: unpoisoned_def profile_state_empty_def access_state_empty_def)
qed

lemma unpoisoned_alloc:
  "unpoisoned st \<Longrightarrow> unpoisoned (snd (insert_access_rate_state k s st))"
  "unpoisoned st \<Longrightarrow> unpoisoned (snd (insert_quota_state k s st))"
  by (auto simp: unpoisoned_def insert_eqs)

lemma unpoisoned_initialize_methods:
  "unpoisoned st \<Longrightarrow> unpoisoned (initialize_method_states target ms now st)"
  by (induction target ms now st rule: initialize_method_states.induct)
    (auto simp: unpoisoned_alloc split: option.splits sum.splits)

lemma unpoisoned_upsert:
  "unpoisoned (access ps) \<Longrightarrow>
     unpoisoned (access (upsert_usage_profile_and_reset_states target p micros ps))"
proof -
  assume "unpoisoned (access ps)"
  then have "unpoisoned (clear_states_for_pubkey target (access ps))"
    by (simp add: unpoisoned_def clear_states_for_pubkey_def store_simps)
  then show ?thesis
    by (auto simp: upsert_usage_profile_and_reset_states_def upsert_usage_profile_def
        initialize_states_for_profile_def Let_def unpoisoned_alloc unpoisoned_initialize_methods
        split: option.splits sum.splits)
qed

lemma upsert_profiles [simp]:
  "usage_profiles (upsert_usage_profile_and_reset_states target p micros ps) =
     (usage_profiles ps)(target \<mapsto> p)"
  by (simp add: upsert_usage_profile_and_reset_states_def upsert_usage_profile_def)

lemma in_sync_upsert:
  assumes "in_sync ps" and "wf_profile p"
  shows "in_sync (upsert_usage_profile_and_reset_states target p micros ps)"
proof -
  let ?ps = "upsert_usage_profile_and_reset_states target p micros ps"
  have "bucket_matches (rule_at ?ps key) (bucket_at ?ps key)" for key
    using in_syncD(4) [OF assms(1), of key]
    by (cases key)
      (auto simp: upsert_method_bucket [OF in_syncD(1) [OF assms(1)] assms(2)]
        upsert_quota_bucket [OF in_syncD(1) [OF assms(1)]] bucket_matches_fresh)
  then show ?thesis
    using assms by (simp add: in_sync_def wf_upsert unpoisoned_upsert)
qed

lemma in_sync_clear_all:
  assumes "in_sync ps"
  shows "in_sync (clear_all_usage_profiles_and_states ps)"
proof -
  let ?ps = "clear_all_usage_profiles_and_states ps"
  have "bucket_matches (rule_at ?ps key) (bucket_at ?ps key)" for key
    by (cases key) (simp_all add: clear_all_usage_profiles_and_states_def bucket_matches_def
        clear_usage_profiles_store_def clear_all_access_states_def store_simps)
  then show ?thesis
    using assms
    by (simp add: in_sync_def wf_clear_all)
      (simp add: clear_all_usage_profiles_and_states_def clear_usage_profiles_store_def
        clear_all_access_states_def unpoisoned_def store_simps)
qed

text \<open>The rule that \<open>verify_access\<close> uses is the one in force, wherever a bucket exists.\<close>

lemma method_rule_for_in_force:
  assumes "method_rule_for m p = Ok mr" and "method_rule_of p m = Some rule"
  shows "Option.bind mr rule_access_rate = Some rule"
proof -
  from assms(2) obtain ms r where "profile_methods p = Some ms" "map_of ms m = Some r"
    "rule_access_rate r = Some rule"
    by (auto simp: method_rule_of_def Option.bind_eq_Some_conv)
  with assms(1) show ?thesis by (cases "ms = []") (auto simp: method_rule_for_def)
qed

lemma verify_access_Ok:
  assumes "verify_access as_str parse req caller micros ps = (Ok us, ps')"
  shows "prepare_updates as_str parse req caller ps = Ok us"
    and "settle (req_method req) (now_micros micros) us (access ps) = (Ok (), access ps')"
    and "ps' = ps\<lparr>access := access ps'\<rparr>"
  using assms by (auto simp: verify_access_settle rbind_eq_Ok split: sum.splits prod.splits)

subsection \<open>Requests in flight\<close>

text \<open>
  A request holds its handles from the moment it looked them up until it is answered. In
  the meantime its caller's profile can be replaced, which leaves the handle without a
  key. An update is live when the cell exists and is still in force for its key, or has no
  key any more.
\<close>

definition update_live :: "profile_state \<Rightarrow> state_update_request \<Rightarrow> bool" where
  "update_live ps u \<longleftrightarrow> heap (access ps) (upd_state u) \<noteq> None \<and>
     (\<forall>k. (k, upd_state u) \<in> handles (access ps) \<longrightarrow>
        k = upd_key u \<and> rule_at ps k = Some (upd_rule u))"

definition cell_bound :: "profile_state \<Rightarrow> addr \<Rightarrow> bool" where
  "cell_bound ps a \<longleftrightarrow> (\<exists>k. (k, a) \<in> handles (access ps))"

lemma handles_cases:
  assumes "wf_access_state st" and "(k, a) \<in> handles st"
  obtains (rate) pk m where "k = AccessKey_Method pk m" "access_rate st k = Some a"
  | (quota) pk where "k = AccessKey_Quota pk" "quota st k = Some a"
  using assms(2) wf_access_stateD(4,5) [OF assms(1), of k]
  by (cases k) (auto simp: handles_def)

lemma bucket_at_handle:
  assumes "in_sync ps" and "(k, a) \<in> handles (access ps)"
  shows "bucket_at ps k = lock_cell (access ps) a" and "lock_cell (access ps) a \<noteq> None"
proof -
  note wf = in_syncD(2,3) [OF assms(1)]
  show "bucket_at ps k = lock_cell (access ps) a"
    using lock_rate_cell [OF wf, of k a]
    by (cases rule: handles_cases [OF wf(1) assms(2)]) simp_all
  show "lock_cell (access ps) a \<noteq> None"
    by (cases rule: handles_cases [OF wf(1) assms(2)]) (use lock_rate_cell [OF wf] in blast)+
qed

lemma live_cell_ok:
  assumes "in_sync ps" and "update_live ps u" and "cell_bound ps (upd_state u)"
    and "lock_cell (access ps) (upd_state u) = Some s"
  shows "bucket_ok (upd_rule u) s"
proof -
  from assms(3) obtain k where k: "(k, upd_state u) \<in> handles (access ps)" by (auto simp: cell_bound_def)
  with assms(2) have r: "rule_at ps k = Some (upd_rule u)" by (simp add: update_live_def)
  have "bucket_matches (rule_at ps k) (Some s)"
    using in_syncD(4) [OF assms(1), of k] bucket_at_handle(1) [OF assms(1) k] assms(4) by simp
  then show ?thesis using r bucket_matches_Some by fastforce
qed

text \<open>Writing a cell through a live handle: the write matters only while the cell has a key.\<close>

definition with_access :: "profile_state \<Rightarrow> access_state \<Rightarrow> profile_state" where
  "with_access ps st = ps\<lparr>access := st\<rparr>"

lemma with_access_simps [simp]:
  "access (with_access ps st) = st"
  "usage_profiles (with_access ps st) = usage_profiles ps"
  "rule_at (with_access ps st) k = rule_at ps k"
  "with_access (with_access ps st) st' = with_access ps st'"
  "with_access ps (access ps) = ps"
  by (cases k; simp add: with_access_def)+

lemma update_live_store_cell:
  "update_live ps u \<Longrightarrow> update_live (with_access ps (store_cell a s (access ps))) u"
  by (simp add: update_live_def)

lemma in_sync_store_cell:
  assumes "in_sync ps" and "update_live ps u"
    and ok: "cell_bound ps (upd_state u) \<Longrightarrow> bucket_ok (upd_rule u) s"
  shows "in_sync (with_access ps (store_cell (upd_state u) s (access ps)))"
proof -
  let ?a = "upd_state u"
  let ?st = "store_cell ?a s (access ps)"
  note wf = in_syncD(2,3) [OF assms(1)]
  have "bucket_matches (rule_at ps k) (bucket_at (with_access ps ?st) k)" for k
  proof (cases "(k, ?a) \<in> handles (access ps)")
    case True
    then have "rule_at ps k = Some (upd_rule u)" and "bucket_ok (upd_rule u) s"
      using assms(2) ok by (auto simp: update_live_def cell_bound_def)
    moreover have "bucket_at (with_access ps ?st) k = Some s"
      by (cases rule: handles_cases [OF wf(1) True]) (simp_all add: bucket_store_cell [OF wf(1)])
    ultimately show ?thesis by (simp add: bucket_matches_ok)
  next
    case False
    then have "bucket_at (with_access ps ?st) k = bucket_at ps k"
      by (cases k) (auto simp: handles_def access_rate_bucket_def quota_bucket_def deref_def
          split: bind_splits)
    with in_syncD(4) [OF assms(1)] show ?thesis by simp
  qed
  with assms wf show ?thesis
    by (simp add: in_sync_def wf_profile_state_def wf_intros update_live_def)
qed

lemma in_sync_drop_guards:
  assumes "in_sync ps"
    and "\<forall>g \<in> set gs. update_live ps (gu_update g) \<and>
      (cell_bound ps (upd_state (gu_update g)) \<longrightarrow> bucket_ok (upd_rule (gu_update g)) (gu_guard g))"
  shows "in_sync (with_access ps (drop_guards gs (access ps)))"
  using assms
proof (induction gs arbitrary: ps)
  case Nil
  then show ?case by simp
next
  case (Cons g gs)
  let ?ps = "with_access ps (store_cell (upd_state (gu_update g)) (gu_guard g) (access ps))"
  have "in_sync ?ps" using Cons.prems by (intro in_sync_store_cell) auto
  then have "in_sync (with_access ?ps (drop_guards gs (access ?ps)))"
    by (rule Cons.IH) (use Cons.prems in \<open>auto simp: update_live_store_cell cell_bound_def\<close>)
  then show ?case by simp
qed

lemma debit_all_ok:
  assumes "\<forall>g \<in> set gs. P (gu_update g) \<longrightarrow> bucket_ok (upd_rule (gu_update g)) (gu_guard g)"
  shows "\<forall>g \<in> set (snd (debit_all m now gs)). P (gu_update g) \<longrightarrow>
    bucket_ok (upd_rule (gu_update g)) (gu_guard g)"
  using assms
proof (induction gs)
  case Nil
  then show ?case by simp
next
  case (Cons g gs)
  then show ?case
    using withdraw_bucket_ok [of "upd_rule (gu_update g)" "gu_guard g" "upd_amount (gu_update g)" now]
    by (auto split: prod.splits sum.splits)
qed

lemma in_sync_settle:
  assumes "in_sync ps" and "\<forall>u \<in> set us. update_live ps u"
  shows "in_sync (with_access ps (snd (settle m now us (access ps))))"
proof (cases "lock_all m (access ps) us")
  case (Inl e)
  with assms show ?thesis by (simp add: settle_def)
next
  case (Inr gs)
  note cells = lock_all_cells [OF Inr]
  have "\<forall>g \<in> set gs. cell_bound ps (upd_state (gu_update g)) \<longrightarrow>
      bucket_ok (upd_rule (gu_update g)) (gu_guard g)"
    using cells assms live_cell_ok by (metis imageI list.set_map)
  then have ok: "\<forall>g \<in> set (snd (debit_all m now gs)). cell_bound ps (upd_state (gu_update g)) \<longrightarrow>
      bucket_ok (upd_rule (gu_update g)) (gu_guard g)"
    by (rule debit_all_ok)
  have "gu_update ` set (snd (debit_all m now gs)) = set us"
    using cells debit_all_updates by (metis list.set_map)
  with ok assms have "in_sync (with_access ps (drop_guards (snd (debit_all m now gs)) (access ps)))"
    by (intro in_sync_drop_guards) auto
  with Inr assms(1) show ?thesis
    by (cases "debit_all m now gs") (simp add: settle_def split: sum.splits)
qed

lemma in_sync_refund:
  assumes "in_sync ps" and "\<forall>u \<in> set us. update_live ps u"
  shows "in_sync (with_access ps (refund_applied_state_updates us (access ps)))"
  using assms
proof (induction us arbitrary: ps)
  case Nil
  then show ?case by simp
next
  case (Cons u us)
  show ?case
  proof (cases "lock_cell (access ps) (upd_state u)")
    case None
    with Cons show ?thesis by simp
  next
    case (Some s)
    let ?ps = "with_access ps
      (store_cell (upd_state u) (snd (refund s (upd_amount u) (upd_rule u))) (access ps))"
    have "in_sync ?ps"
      using Cons.prems live_cell_ok [OF Cons.prems(1) _ _ Some]
      by (intro in_sync_store_cell) (auto intro: refund_bucket_ok)
    then have "in_sync (with_access ?ps (refund_applied_state_updates us (access ?ps)))"
      by (rule Cons.IH) (use Cons.prems in \<open>auto simp: update_live_store_cell\<close>)
    with Some show ?thesis by simp
  qed
qed

lemma drop_guards_fields [simp]:
  "access_rate (drop_guards gs st) = access_rate st"
  "quota (drop_guards gs st) = quota st"
  "handles (drop_guards gs st) = handles st"
  by (induction gs arbitrary: st) simp_all

lemma refund_updates_fields [simp]:
  "access_rate (refund_applied_state_updates us st) = access_rate st"
  "quota (refund_applied_state_updates us st) = quota st"
  "handles (refund_applied_state_updates us st) = handles st"
  by (induction us arbitrary: st) (simp_all split: option.splits)

lemma heap_drop_guards: "heap st a \<noteq> None \<Longrightarrow> heap (drop_guards gs st) a \<noteq> None"
  by (induction gs arbitrary: st) simp_all

lemma heap_refund_updates: "heap st a \<noteq> None \<Longrightarrow> heap (refund_applied_state_updates us st) a \<noteq> None"
  by (induction us arbitrary: st) (simp_all split: option.splits)

lemma settle_handles [simp]: "handles (snd (settle m now us st)) = handles st"
  by (simp add: settle_def split: sum.splits prod.splits)

lemma heap_settle: "heap st a \<noteq> None \<Longrightarrow> heap (snd (settle m now us st)) a \<noteq> None"
  using heap_drop_guards [of st a] by (auto simp: settle_def split: sum.splits prod.splits)

lemma live_settle:
  "update_live ps u \<Longrightarrow> update_live (with_access ps (snd (settle m now us (access ps)))) u"
  using heap_settle [of "access ps" "upd_state u" m now us] by (simp add: update_live_def)

lemma live_refund:
  "update_live ps u \<Longrightarrow>
     update_live (with_access ps (refund_applied_state_updates us (access ps))) u"
  using heap_refund_updates [of "access ps" "upd_state u" us] by (simp add: update_live_def)

lemma upsert_keeps_other_buckets:
  assumes "in_sync ps" and "wf_profile p" and "access_key_pubkey key \<noteq> target"
  shows "bucket_at (upsert_usage_profile_and_reset_states target p micros ps) key = bucket_at ps key"
  using assms in_syncD(1) [OF assms(1)]
  by (cases key) (simp_all add: upsert_method_bucket upsert_quota_bucket)

text \<open>The updates that a request looks up are live.\<close>

lemma slot_rule_in_force:
  assumes "in_sync ps" and "(k, a) \<in> handles (access ps)"
    and "\<And>rule'. rule_at ps k = Some rule' \<Longrightarrow> rule' = rule"
  shows "rule_at ps k = Some rule"
proof -
  obtain s where "bucket_at ps k = Some s"
    using bucket_at_handle [OF assms(1,2)] by auto
  then have "rule_at ps k \<noteq> None"
    using in_syncD(4) [OF assms(1), of k] bucket_matches_Some by fastforce
  with assms(3) show ?thesis by auto
qed

lemma prepared_updates_bound:
  assumes "prepare_updates as_str parse req caller ps = Ok us"
  shows "\<forall>u \<in> set us. (upd_key u, upd_state u) \<in> handles (access ps)"
proof
  fix u assume "u \<in> set us"
  with assms obtain r q where u: "u \<in> set (updates_of (req_method req) caller (spend_of parse req) r q)"
    and r: "\<And>rule a. r = Some (rule, a) \<Longrightarrow>
        access_rate (access ps) (AccessKey_Method caller (req_method req)) = Some a"
    and q: "\<And>rule a. q = Some (rule, a) \<Longrightarrow> quota (access ps) (AccessKey_Quota caller) = Some a"
    by (fastforce simp: prepare_updates_eq rbind_eq_Ok dest: spec_slot_Ok_addr)
  from u r q show "(upd_key u, upd_state u) \<in> handles (access ps)"
    by (fastforce simp: updates_of_def split: option.splits)
qed

lemma prepared_updates_live:
  assumes "in_sync ps" and "prepare_updates as_str parse req caller ps = Ok us"
  shows "\<forall>u \<in> set us. update_live ps u"
proof -
  let ?m = "req_method req" and ?amount = "spend_of parse req"
  note wf = in_syncD(2) [OF assms(1)]
  from assms(2) obtain p mr r q where p: "usage_profiles ps caller = Some p"
    and mr: "method_rule_for ?m p = Ok mr"
    and r: "spec_slot ?m AccessRate (Option.bind mr rule_access_rate)
        (access_rate (access ps) (AccessKey_Method caller ?m)) = Ok r"
    and q: "spec_slot ?m Quota (quota_rule_for ?amount p)
        (quota (access ps) (AccessKey_Quota caller)) = Ok q"
    and us: "us = updates_of ?m caller ?amount r q"
    by (auto simp: prepare_updates_eq rbind_eq_Ok)
  have live: "update_live ps u"
    if "(upd_key u, upd_state u) \<in> handles (access ps)" "rule_at ps (upd_key u) = Some (upd_rule u)" for u
  proof -
    have "k = upd_key u" if "(k, upd_state u) \<in> handles (access ps)" for k
      using that \<open>(upd_key u, upd_state u) \<in> handles (access ps)\<close> by (rule wf_access_stateD(3) [OF wf])
    with that wf_access_stateD(1) [OF wf] show ?thesis unfolding update_live_def by blast
  qed
  show ?thesis
  proof
    fix u assume "u \<in> set us"
    then consider (rate) rule a where "r = Some (rule, a)" "u = rate_update ?m caller rule a"
      | (quota) rule a where "q = Some (rule, a)" "u = quota_update caller ?amount rule a"
      by (auto simp: us updates_of_def split: option.splits)
    then show "update_live ps u"
    proof cases
      case rate
      then have a: "access_rate (access ps) (AccessKey_Method caller ?m) = Some a"
        "Option.bind mr rule_access_rate = Some rule"
        using spec_slot_Ok_addr [OF r] by auto
      then have "rule_at ps (AccessKey_Method caller ?m) = Some rule"
        using p method_rule_for_in_force [OF mr]
        by (intro slot_rule_in_force [OF assms(1) handlesI(1)]) auto
      with a rate handlesI(1) [OF a(1)] show ?thesis by (intro live) simp_all
    next
      case quota
      then have a: "quota (access ps) (AccessKey_Quota caller) = Some a"
        "quota_rule_for ?amount p = Some rule"
        using spec_slot_Ok_addr [OF q] by auto
      then have "rule_at ps (AccessKey_Quota caller) = Some rule"
        using p by (simp add: quota_rule_for_def split: if_splits)
      with a quota handlesI(2) [OF a(1)] show ?thesis by (intro live) simp_all
    qed
  qed
qed

end
