(* ===== verification/Lock_Order.thy ===== *)
theory Lock_Order
  imports Access_Sync
begin

section \<open>Locking in order: no deadlock\<close>

text \<open>
  Between \<open>// Lock\<close> and \<open>drop(guarded_updates)\<close> in \<open>verify_access\<close> a request takes
  the mutexes of its updates one after the other and then releases all of them. Several
  requests do so at once. A thread is the updates it holds and those it still wants, in
  the order in which it asks for them.
\<close>

type_synonym 'u lock_thread = "'u list \<times> 'u list"

definition held_locks :: "('u \<Rightarrow> 'l) \<Rightarrow> 'u lock_thread list \<Rightarrow> 'l set" where
  "held_locks lock_of ts = (\<Union>t \<in> set ts. lock_of ` set (fst t))"

definition lock_requests :: "'u lock_thread list \<Rightarrow> 'u set" where
  "lock_requests ts = (\<Union>t \<in> set ts. set (fst t @ snd t))"

inductive lock_step ::
    "('u \<Rightarrow> 'l) \<Rightarrow> 'u lock_thread list \<Rightarrow> 'u lock_thread list \<Rightarrow> bool"
  for lock_of :: "'u \<Rightarrow> 'l" where
  acquire: "lock_of u \<notin> held_locks lock_of (ts @ (hs, u # ws) # ts') \<Longrightarrow>
    lock_step lock_of (ts @ (hs, u # ws) # ts') (ts @ (hs @ [u], ws) # ts')"
| release: "hs \<noteq> [] \<Longrightarrow> lock_step lock_of (ts @ (hs, []) # ts') (ts @ ([], []) # ts')"

definition all_finished :: "'u lock_thread list \<Rightarrow> bool" where
  "all_finished ts \<longleftrightarrow> (\<forall>t \<in> set ts. t = ([], []))"

text \<open>
  The discipline: the requests of a thread ascend in a strict order that sees only which
  lock a request is for.
\<close>

locale lock_discipline =
  fixes lock_of :: "'u \<Rightarrow> 'l" and before :: "'u \<Rightarrow> 'u \<Rightarrow> bool"
  assumes before_irrefl: "\<not> before u u"
    and before_trans: "before u v \<Longrightarrow> before v w \<Longrightarrow> before u w"
begin

definition coherent :: "'u set \<Rightarrow> bool" where
  "coherent U \<longleftrightarrow>
     (\<forall>u \<in> U. \<forall>v \<in> U. lock_of u = lock_of v \<longrightarrow> (\<forall>w. before u w \<longrightarrow> before v w))"

definition disciplined :: "'u lock_thread list \<Rightarrow> bool" where
  "disciplined ts \<longleftrightarrow> (\<forall>t \<in> set ts. sorted_wrt before (fst t @ snd t)) \<and> coherent (lock_requests ts)"

lemma disciplinedD:
  assumes "disciplined ts"
  shows "(hs, ws) \<in> set ts \<Longrightarrow> sorted_wrt before (hs @ ws)"
    and "(hs, ws) \<in> set ts \<Longrightarrow> (hs', ws') \<in> set ts \<Longrightarrow> u \<in> set (hs @ ws) \<Longrightarrow>
       v \<in> set (hs' @ ws') \<Longrightarrow> lock_of u = lock_of v \<Longrightarrow> before u w \<Longrightarrow> before v w"
proof -
  show "(hs, ws) \<in> set ts \<Longrightarrow> sorted_wrt before (hs @ ws)"
    using assms by (fastforce simp: disciplined_def)
  assume *: "(hs, ws) \<in> set ts" "(hs', ws') \<in> set ts" "u \<in> set (hs @ ws)" "v \<in> set (hs' @ ws')"
    "lock_of u = lock_of v" "before u w"
  then have "u \<in> lock_requests ts" "v \<in> lock_requests ts"
    by (force simp: lock_requests_def)+
  with assms * show "before v w" unfolding disciplined_def coherent_def by blast
qed

lemma disciplined_step:
  assumes "lock_step lock_of ts ts'" and "disciplined ts"
  shows "disciplined ts'"
proof -
  have sub: "lock_requests ts' \<subseteq> lock_requests ts"
    using assms(1) by (cases rule: lock_step.cases) (auto simp: lock_requests_def)
  with assms(2) have "coherent (lock_requests ts')"
    unfolding disciplined_def coherent_def by (meson subsetD)
  moreover have "\<forall>t \<in> set ts'. sorted_wrt before (fst t @ snd t)"
    using assms by (cases rule: lock_step.cases) (auto simp: disciplined_def)
  ultimately show ?thesis by (simp add: disciplined_def)
qed

lemma not_stuck:
  assumes disc: "disciplined ts" and "\<not> all_finished ts"
  shows "\<exists>ts'. lock_step lock_of ts ts'"
proof (rule ccontr)
  assume stuck: "\<not> ?thesis"
  have busy: "(\<exists>u ws'. ws = u # ws' \<and> lock_of u \<in> held_locks lock_of ts) \<or> hs = [] \<and> ws = []"
    if "(hs, ws) \<in> set ts" for hs ws
  proof -
    from that obtain as bs where ts: "ts = as @ (hs, ws) # bs" by (meson split_list)
    show ?thesis
    proof (cases ws)
      case Nil
      with stuck ts show ?thesis by (metis lock_step.release)
    next
      case (Cons u ws')
      with stuck ts show ?thesis by (metis lock_step.acquire)
    qed
  qed
  let ?next = "{u. \<exists>hs ws. (hs, u # ws) \<in> set ts}"
  have "?next \<subseteq> (\<lambda>t. hd (snd t)) ` set ts" by force
  then have "finite ?next" by (rule finite_subset) simp
  moreover from assms(2) busy have "?next \<noteq> {}" by (fastforce simp: all_finished_def)
  moreover have "asymp_on ?next before" using before_irrefl before_trans by (auto simp: asymp_on_def)
  moreover have "transp_on ?next before" using before_trans by (auto simp: transp_on_def)
  ultimately obtain u where u: "u \<in> ?next" and max: "\<forall>v \<in> ?next. v \<noteq> u \<longrightarrow> \<not> before u v"
    using Finite_Set.bex_max_element [of ?next before] by blast
  from u obtain hs ws where t: "(hs, u # ws) \<in> set ts" by blast
  with busy have "lock_of u \<in> held_locks lock_of ts" by blast
  then obtain hs' ws' v where t': "(hs', ws') \<in> set ts" "v \<in> set hs'" "lock_of v = lock_of u"
    by (force simp: held_locks_def)
  with busy [of hs' ws'] obtain w ws'' where ws': "ws' = w # ws''" by fastforce
  then have "before v w" using disciplinedD(1) [OF disc t'(1)] t'(2) by (simp add: sorted_wrt_append)
  then have "before u w"
    using disciplinedD(2) [OF disc t'(1) t, of v u w] t'(2,3) by simp
  moreover from t'(1) ws' have "w \<in> ?next" by blast
  ultimately show False using max before_irrefl [of u] by (cases "w = u") auto
qed

end

text \<open>Every run ends: a step takes a lock that was wanted or empties a thread.\<close>

definition lock_work :: "'u lock_thread list \<Rightarrow> nat" where
  "lock_work ts = (\<Sum>(hs, ws) \<leftarrow> ts. length hs + 2 * length ws)"

lemma lock_step_works: "lock_step lock_of ts ts' \<Longrightarrow> lock_work ts' < lock_work ts"
  by (induction rule: lock_step.induct) (simp_all add: lock_work_def)

lemma lock_runs_bounded:
  "(lock_step lock_of ^^ n) ts ts' \<Longrightarrow> lock_work ts' + n \<le> lock_work ts"
proof (induction n arbitrary: ts')
  case (Suc n)
  then obtain t where "(lock_step lock_of ^^ n) ts t" "lock_step lock_of t ts'" by auto
  with Suc.IH [of t] lock_step_works [of lock_of t ts'] show ?case by simp
qed simp

definition key_before ::
    "(nip47_method \<Rightarrow> string) \<Rightarrow> state_update_request \<Rightarrow> state_update_request \<Rightarrow> bool" where
  "key_before as_str u v \<longleftrightarrow> compare_access_keys as_str (upd_key u) (upd_key v) = Less"

lemma then_with_Less [simp]: "then_with a b = Less \<longleftrightarrow> a = Less \<or> a = Equal \<and> b = Less"
  by (cases a; cases b; simp)

interpretation key_locks: lock_discipline upd_state "key_before as_str" for as_str
proof unfold_locales
  fix u v w
  show "\<not> key_before as_str u u"
    using update_order.cmp_self [of as_str u] by (simp add: key_before_def)
  assume "key_before as_str u v" "key_before as_str v w"
  then show "key_before as_str u w"
    unfolding key_before_def
    by (cases "upd_key u"; cases "upd_key v"; cases "upd_key w") auto
qed

lemma updates_of_ascend: "sorted_wrt (key_before as_str) (updates_of m caller amount r q)"
  by (auto simp: updates_of_def key_before_def split: option.splits)

end
