(* ===== verification/Access_Laws.thy ===== *)
theory Access_Laws
  imports Lock_Order
begin

section \<open>What access control guarantees\<close>

text \<open>
  The theorems about \<open>verify_access\<close>, its refund and the profile updates, each applied to a
  small example: Alice may spend 5000 msat by keysend, three times per bucket. The example
  is computed once and for all by the simplifier.
\<close>

subsection \<open>An example\<close>

definition demo_rule :: rate_limit_rule where
  "demo_rule = \<lparr>rate_per_micro = 0, max_capacity = 3000000\<rparr>"

definition demo_quota :: rate_limit_rule where
  "demo_quota = \<lparr>rate_per_micro = 0, max_capacity = 5000\<rparr>"

definition demo_profile :: usage_profile where
  "demo_profile = \<lparr>profile_quota = Some demo_quota,
     profile_methods = Some [(Method_PayKeysend, \<lparr>rule_access_rate = Some demo_rule\<rparr>),
                             (Method_PayInvoice, \<lparr>rule_access_rate = None\<rparr>)],
     profile_control = None\<rparr>"

definition demo_state :: profile_state where
  "demo_state = upsert_usage_profile_and_reset_states ''alice'' demo_profile 7 profile_state_empty"

definition demo_request :: "u64 \<Rightarrow> nip47_request" where
  "demo_request amount = \<lparr>req_method = Method_PayKeysend, req_params = Params_PayKeysend ''bob'' amount\<rparr>"

definition demo_as_str :: "nip47_method \<Rightarrow> string" where
  "demo_as_str m = (case m of Method_PayKeysend \<Rightarrow> ''pay_keysend'' | _ \<Rightarrow> ''other'')"

definition demo_parse :: bip321_parser where
  "demo_parse s = Err ''unsupported''"

lemmas rate_evals = withdraw_after_refill_def calculate_refill_def i64_try_from_u64_def
  i64_less_def Let_def u64_saturating_mul_def u64_saturating_sub_def i64_saturating_add_def
  i64_saturating_sub_def i64_min_def i64_clamp_def i64_of_int_def check_withdraw_after_refill_def
  refund_def from_rule_def rate_state_new_def

lemmas upsert_evals = upsert_usage_profile_and_reset_states_def upsert_usage_profile_def
  initialize_states_for_profile_def clear_states_for_pubkey_def profile_state_empty_def
  access_state_empty_def insert_eqs retain_quota_states_def retain_access_rate_states_def
  map_retain_def now_micros_def

lemmas verify_evals = verify_access_settle prepare_updates_eq method_rule_for_def spend_of_def
  quota_rule_for_def updates_of_def settle_def lock_cell_def store_cell_def

lemmas demo_evals = demo_profile_def demo_rule_def demo_quota_def demo_request_def now_micros_def
  rate_evals verify_evals

lemma demo_state_eq:
  "demo_state =
     \<lparr>usage_profiles = [''alice'' \<mapsto> demo_profile],
      access = \<lparr>access_rate = [AccessKey_Method ''alice'' Method_PayKeysend \<mapsto> 0],
        quota = [AccessKey_Quota ''alice'' \<mapsto> 1],
        heap = [0 \<mapsto> \<lparr>cell_state = \<lparr>balance = 3000000, last_refill_micros = 7\<rparr>, cell_poisoned = False\<rparr>,
                1 \<mapsto> \<lparr>cell_state = \<lparr>balance = 5000, last_refill_micros = 7\<rparr>, cell_poisoned = False\<rparr>],
        next_addr = 2\<rparr>\<rparr>"
  by (simp add: demo_state_def demo_profile_def demo_rule_def demo_quota_def upsert_evals
      rate_evals fun_eq_iff)

lemma demo_in_sync: "in_sync demo_state"
  unfolding demo_state_def
  by (intro in_sync_upsert in_sync_empty) (simp add: wf_profile_def demo_profile_def)

lemma demo_rate_rule: "rule_at demo_state (AccessKey_Method ''alice'' Method_PayKeysend) = Some demo_rule"
  by (simp add: demo_state_eq method_rule_of_def demo_profile_def)

lemma demo_granted:
  "verify_access demo_as_str demo_parse (demo_request 1000) ''alice'' 9 demo_state =
     (Ok (updates_of Method_PayKeysend ''alice'' 1000 (Some (demo_rule, 0)) (Some (demo_quota, 1))),
      demo_state\<lparr>access := (access demo_state)\<lparr>heap :=
        [0 \<mapsto> \<lparr>cell_state = \<lparr>balance = 2000000, last_refill_micros = 7\<rparr>, cell_poisoned = False\<rparr>,
         1 \<mapsto> \<lparr>cell_state = \<lparr>balance = 4000, last_refill_micros = 7\<rparr>, cell_poisoned = False\<rparr>]\<rparr>\<rparr>)"
  by (simp add: demo_state_eq demo_evals fun_eq_iff)

lemma demo_refused:
  "fst (verify_access demo_as_str demo_parse (demo_request 6000) ''alice'' 9 demo_state) =
     Err (quota_exceeded_response Method_PayKeysend)"
  by (simp add: demo_state_eq demo_evals rate_state_error_response_def quota_exceeded_response_def)

subsection \<open>Debits and refunds by key\<close>

lemma open_slot_bucket:
  assumes "wf_access_state st" "unpoisoned st" "slots_lead_to m caller st r q"
  shows "r = Some (rule, a) \<Longrightarrow> access_rate_bucket st (AccessKey_Method caller m) = lock_cell st a \<and>
      lock_cell st a \<noteq> None"
    and "q = Some (rule, a) \<Longrightarrow> quota_bucket st (AccessKey_Quota caller) = lock_cell st a \<and>
      lock_cell st a \<noteq> None"
  using lock_rate_cell [OF assms(1,2)] assms(3) by (metis slots_lead_to_def)+

lemma settle_Ok_debits:
  assumes wf: "wf_access_state st" "unpoisoned st" and h: "slots_lead_to m caller st r q"
    and ok: "settle m now (updates_of m caller amount r q) st = (Ok (), st')"
  shows "access_rate_bucket st' = write_slot (AccessKey_Method caller m)
      (map_option (\<lambda>(rule, s). snd (withdraw_after_refill s 1000000 now rule)) (open_slot st r))
      (access_rate_bucket st)"
    and "quota_bucket st' = write_slot (AccessKey_Quota caller)
      (map_option (\<lambda>(rule, s). snd (withdraw_after_refill s amount now rule)) (open_slot st q))
      (quota_bucket st)"
    and "open_slot st r = Some (rule, s) \<Longrightarrow> fst (withdraw_after_refill s 1000000 now rule) = Ok ()"
    and "open_slot st q = Some (rule, s) \<Longrightarrow> fst (withdraw_after_refill s amount now rule) = Ok ()"
proof -
  have debit: "spec_debit m ctx n now slot = Ok new \<Longrightarrow>
      new = map_option (\<lambda>(rule, s). snd (withdraw_after_refill s n now rule)) slot \<and>
      (\<forall>rule s. slot = Some (rule, s) \<longrightarrow> fst (withdraw_after_refill s n now rule) = Ok ())" for ctx n slot new
    by (cases slot) (auto split: prod.splits sum.splits)
  from settle_updates_of [OF wf h, of now amount] ok obtain rb qb
    where "spec_debit m AccessRate 1000000 now (open_slot st r) = Ok rb"
      and "spec_debit m Quota amount now (open_slot st q) = Ok qb"
      and new: "access_rate_bucket st' = write_slot (AccessKey_Method caller m) rb (access_rate_bucket st)"
        "quota_bucket st' = write_slot (AccessKey_Quota caller) qb (quota_bucket st)"
    by (auto simp: rbind_eq_Ok)
  with debit [of AccessRate 1000000 "open_slot st r" rb] debit [of Quota amount "open_slot st q" qb]
  show "access_rate_bucket st' = write_slot (AccessKey_Method caller m)
      (map_option (\<lambda>(rule, s). snd (withdraw_after_refill s 1000000 now rule)) (open_slot st r))
      (access_rate_bucket st)"
    and "quota_bucket st' = write_slot (AccessKey_Quota caller)
      (map_option (\<lambda>(rule, s). snd (withdraw_after_refill s amount now rule)) (open_slot st q))
      (quota_bucket st)"
    and "open_slot st r = Some (rule, s) \<Longrightarrow> fst (withdraw_after_refill s 1000000 now rule) = Ok ()"
    and "open_slot st q = Some (rule, s) \<Longrightarrow> fst (withdraw_after_refill s amount now rule) = Ok ()"
    by simp_all
qed

lemma refund_updates_of:
  assumes wf: "wf_access_state st" "unpoisoned st" and h: "slots_lead_to m caller st r q"
  shows "access_rate_bucket (refund_applied_state_updates (updates_of m caller amount r q) st) =
      write_slot (AccessKey_Method caller m)
        (map_option (\<lambda>(rule, s). snd (refund s 1000000 rule)) (open_slot st r)) (access_rate_bucket st)"
    and "quota_bucket (refund_applied_state_updates (updates_of m caller amount r q) st) =
      write_slot (AccessKey_Quota caller)
        (map_option (\<lambda>(rule, s). snd (refund s amount rule)) (open_slot st q)) (quota_bucket st)"
proof -
  let ?km = "AccessKey_Method caller m" and ?kq = "AccessKey_Quota caller"
  have cells: "\<And>rule a. r = Some (rule, a) \<Longrightarrow> access_rate st ?km = Some a \<and> (\<exists>s. lock_cell st a = Some s)"
    "\<And>rule a. q = Some (rule, a) \<Longrightarrow> quota st ?kq = Some a \<and> (\<exists>s. lock_cell st a = Some s)"
    using h open_slot_bucket [OF wf h] by (auto simp: slots_lead_to_def)
  have stored: "wf_access_state (store_cell a s st)" if "access_rate st ?km = Some a" for a s
    using wf_store_cell [OF wf(1)] wf_access_stateD(1) [OF wf(1) handlesI(1) [OF that]] by blast
  have apart: "a \<noteq> b" if "access_rate st ?km = Some a" "quota st ?kq = Some b" for a b
    using wf_access_stateD(3) [OF wf(1) handlesI(1) [OF that(1)]] handlesI(2) [OF that(2)] by blast
  note facts = updates_of_def open_slot_def write_slot_def bucket_store_cell wf
  have "access_rate_bucket (refund_applied_state_updates (updates_of m caller amount r q) st) =
      write_slot ?km (map_option (\<lambda>(rule, s). snd (refund s 1000000 rule)) (open_slot st r))
        (access_rate_bucket st) \<and>
    quota_bucket (refund_applied_state_updates (updates_of m caller amount r q) st) =
      write_slot ?kq (map_option (\<lambda>(rule, s). snd (refund s amount rule)) (open_slot st q))
        (quota_bucket st)"
  proof (cases r)
    case None
    then show ?thesis
    proof (cases q)
      case (Some x)
      obtain rule a where "x = (rule, a)" by fastforce
      with Some cells(2) \<open>r = None\<close> show ?thesis by (auto simp: facts)
    qed (simp add: facts)
  next
    case (Some y)
    obtain rule a where y: "y = (rule, a)" by fastforce
    with Some cells(1) obtain s where s: "lock_cell st a = Some s" "access_rate st ?km = Some a" by blast
    show ?thesis
    proof (cases q)
      case None
      with Some y s show ?thesis by (simp add: facts)
    next
      case (Some z)
      obtain qrule b where z: "z = (qrule, b)" by fastforce
      with Some cells(2) obtain t where t: "lock_cell st b = Some t" "quota st ?kq = Some b" by blast
      have "lock_cell (store_cell a s' st) b = Some t" for s'
        using t apart [OF s(2) t(2)] by (simp add: lock_cell_def)
      with \<open>r = Some y\<close> Some y z s t stored [OF s(2)] show ?thesis by (simp add: facts)
    qed
  qed
  then show "access_rate_bucket (refund_applied_state_updates (updates_of m caller amount r q) st) =
      write_slot ?km (map_option (\<lambda>(rule, s). snd (refund s 1000000 rule)) (open_slot st r))
        (access_rate_bucket st)"
    and "quota_bucket (refund_applied_state_updates (updates_of m caller amount r q) st) =
      write_slot ?kq (map_option (\<lambda>(rule, s). snd (refund s amount rule)) (open_slot st q))
        (quota_bucket st)"
    by simp_all
qed

lemma settle_maps [simp]:
  "access_rate (snd (settle m now us st)) = access_rate st"
  "quota (snd (settle m now us st)) = quota st"
  by (simp_all add: settle_def split: sum.splits prod.splits)

lemma verify_access_granted:
  assumes "in_sync ps" and "verify_access as_str parse req caller micros ps = (Ok us, ps')"
  obtains p r q where "usage_profiles ps caller = Some p"
    and "us = updates_of (req_method req) caller (spend_of parse req) r q"
    and "slots_lead_to (req_method req) caller (access ps) r q"
    and "settle (req_method req) (now_micros micros) us (access ps) = (Ok (), access ps')"
    and "ps' = ps\<lparr>access := access ps'\<rparr>"
    and "\<And>rule a. r = Some (rule, a) \<Longrightarrow> rule_at ps (AccessKey_Method caller (req_method req)) = Some rule"
    and "\<And>rule a. q = Some (rule, a) \<Longrightarrow> rule_at ps (AccessKey_Quota caller) = Some rule"
    and "map_option fst q = quota_rule_for (spend_of parse req) p"
proof -
  let ?m = "req_method req" and ?amount = "spend_of parse req"
  note parts = verify_access_Ok [OF assms(2)]
  from parts(1) obtain p mr r q where p: "usage_profiles ps caller = Some p"
    and mr: "method_rule_for ?m p = Ok mr"
    and r: "spec_slot ?m AccessRate (Option.bind mr rule_access_rate)
        (access_rate (access ps) (AccessKey_Method caller ?m)) = Ok r"
    and q: "spec_slot ?m Quota (quota_rule_for ?amount p)
        (quota (access ps) (AccessKey_Quota caller)) = Ok q"
    and us: "us = updates_of ?m caller ?amount r q"
    by (auto simp: prepare_updates_eq rbind_eq_Ok)
  have rule: "rule_at ps (upd_key u) = Some (upd_rule u)" if "u \<in> set us" for u
    using that prepared_updates_live [OF assms(1) parts(1)] prepared_updates_bound [OF parts(1)]
    by (auto simp: update_live_def)
  show ?thesis
  proof (rule that [OF p us _ parts(2,3)])
    show "slots_lead_to ?m caller (access ps) r q"
      using spec_slot_Ok_addr [OF r] spec_slot_Ok_addr [OF q] by (simp add: slots_lead_to_def)
    show "rule_at ps (AccessKey_Method caller ?m) = Some rule" if "r = Some (rule, a)" for rule a
      using rule [of "rate_update ?m caller rule a"] that us by (simp add: updates_of_def)
    show "rule_at ps (AccessKey_Quota caller) = Some rule" if "q = Some (rule, a)" for rule a
      using rule [of "quota_update caller ?amount rule a"] that us by (simp add: updates_of_def)
    show "map_option fst q = quota_rule_for ?amount p"
      using q by (cases "quota_rule_for ?amount p"; cases "quota (access ps) (AccessKey_Quota caller)") auto
  qed
qed

text \<open>What a granted request did to a bucket, and what a refund makes of it afterwards.\<close>

definition charged :: "state_update_request list \<Rightarrow> u64 \<Rightarrow> access_key \<Rightarrow> rate_state \<Rightarrow> rate_state" where
  "charged us now key s =
     (case find (\<lambda>u. upd_key u = key) us of
        None \<Rightarrow> s
      | Some u \<Rightarrow> snd (withdraw_after_refill s (upd_amount u) now (upd_rule u)))"

definition repaid :: "state_update_request list \<Rightarrow> access_key \<Rightarrow> rate_state \<Rightarrow> rate_state" where
  "repaid us key s =
     (case find (\<lambda>u. upd_key u = key) us of
        None \<Rightarrow> s
      | Some u \<Rightarrow> snd (refund s (upd_amount u) (upd_rule u)))"

lemma bucket_at_settled:
  assumes "in_sync ps" and "verify_access as_str parse req caller micros ps = (Ok us, ps')"
  shows "bucket_at ps' key = map_option (charged us (now_micros micros) key) (bucket_at ps key)"
    and "u \<in> set us \<Longrightarrow> bucket_at ps (upd_key u) = Some s \<Longrightarrow>
      fst (withdraw_after_refill s (upd_amount u) (now_micros micros) (upd_rule u)) = Ok ()"
    and "bucket_at (ps'\<lparr>access := refund_applied_state_updates us (access ps')\<rparr>) key =
      map_option (repaid us key) (bucket_at ps' key)"
proof -
  let ?m = "req_method req" and ?amount = "spend_of parse req"
  note wf = in_syncD(2,3) [OF assms(1)]
  obtain p r q where us: "us = updates_of ?m caller ?amount r q"
    and h: "slots_lead_to ?m caller (access ps) r q"
    and s: "settle ?m (now_micros micros) us (access ps) = (Ok (), access ps')"
    using verify_access_granted [OF assms] by metis
  note debits = settle_Ok_debits [OF wf h s [unfolded us]]
  note opened = open_slot_bucket [OF wf h]
  show "bucket_at ps' key = map_option (charged us (now_micros micros) key) (bucket_at ps key)"
    using debits(1,2) opened
    by (cases key; cases r; cases q)
      (auto simp: us updates_of_def charged_def [abs_def] write_slot_def open_slot_def option.map_ident)
  show "u \<in> set us \<Longrightarrow> bucket_at ps (upd_key u) = Some s \<Longrightarrow>
      fst (withdraw_after_refill s (upd_amount u) (now_micros micros) (upd_rule u)) = Ok ()"
    using debits(3,4) opened
    by (cases r; cases q) (auto simp: us updates_of_def open_slot_def)
  have "in_sync ps'" using in_sync_settle [OF assms(1)] prepared_updates_live [OF assms(1)]
      verify_access_Ok [OF assms(2)] by (metis snd_conv with_access_def)
  note wf' = in_syncD(2,3) [OF this]
  have "access_rate (access ps') = access_rate (access ps) \<and> quota (access ps') = quota (access ps)"
    using settle_maps [of ?m "now_micros micros" us "access ps"] s by simp
  with h have h': "slots_lead_to ?m caller (access ps') r q" by (simp add: slots_lead_to_def)
  show "bucket_at (ps'\<lparr>access := refund_applied_state_updates us (access ps')\<rparr>) key =
      map_option (repaid us key) (bucket_at ps' key)"
    using refund_updates_of [OF wf' h', of ?amount] open_slot_bucket [OF wf' h']
    by (cases key; cases r; cases q)
      (auto simp: us updates_of_def repaid_def [abs_def] write_slot_def open_slot_def option.map_ident)
qed

lemma find_updates_of:
  assumes "find (\<lambda>u. upd_key u = key) us = Some u"
  shows "u \<in> set us \<and> upd_key u = key"
  using assms by (auto simp: find_Some_iff)

lemma granted_updates:
  assumes "in_sync ps" and "verify_access as_str parse req caller micros ps = (Ok us, ps')"
    and "u \<in> set us"
  shows "rule_at ps (upd_key u) = Some (upd_rule u)"
    and "bucket_at ps (upd_key u) = Some s \<Longrightarrow> bucket_ok (upd_rule u) s"
proof -
  note prep = verify_access_Ok(1) [OF assms(2)]
  show rule: "rule_at ps (upd_key u) = Some (upd_rule u)"
    using prepared_updates_live [OF assms(1) prep] prepared_updates_bound [OF prep] assms(3)
    by (auto simp: update_live_def)
  assume "bucket_at ps (upd_key u) = Some s"
  then show "bucket_ok (upd_rule u) s"
    using in_syncD(4) [OF assms(1), of "upd_key u"] rule bucket_matches_Some by fastforce
qed

lemma granted_profiles:
  assumes "verify_access as_str parse req caller micros ps = (Ok us, ps')"
  shows "usage_profiles ps' = usage_profiles ps"
proof -
  have "usage_profiles (ps\<lparr>access := st\<rparr>) = usage_profiles ps" for st by simp
  with verify_access_Ok(3) [OF assms] show ?thesis by metis
qed

lemma refunded_level:
  assumes "in_sync ps" and "verify_access as_str parse req caller micros ps = (Ok us, ps')"
  shows "bucket_at (ps'\<lparr>access := refund_applied_state_updates us (access ps')\<rparr>) key =
      (case find (\<lambda>u. upd_key u = key) us of
         None \<Rightarrow> bucket_at ps key
       | Some u \<Rightarrow> map_option (\<lambda>s. s\<lparr>balance := i64_of_int (level_at s (now_micros micros) (upd_rule u))\<rparr>)
           (bucket_at ps key))"
proof (cases "find (\<lambda>u. upd_key u = key) us")
  case None
  with bucket_at_settled(1,3) [OF assms, of key] show ?thesis
    by (simp add: charged_def [abs_def] repaid_def [abs_def] option.map_ident)
next
  case (Some u)
  let ?now = "now_micros micros"
  from find_updates_of [OF Some] have u: "u \<in> set us" "upd_key u = key" by auto
  have "repaid us key (charged us ?now key s) =
      s\<lparr>balance := i64_of_int (level_at s ?now (upd_rule u))\<rparr>" if s: "bucket_at ps key = Some s" for s
  proof -
    from granted_updates(2) [OF assms u(1)] u(2) s have ok: "bucket_ok (upd_rule u) s" by simp
    from bucket_at_settled(2) [OF assms u(1)] u(2) s
    have paid: "fst (withdraw_after_refill s (upd_amount u) ?now (upd_rule u)) = Ok ()" by simp
    from refund_restores_level [OF ok paid] Some show ?thesis
      by (simp add: charged_def repaid_def)
  qed
  with Some bucket_at_settled(1,3) [OF assms, of key] show ?thesis
    by (cases "bucket_at ps key") auto
qed

lemma charged_exact:
  assumes "in_sync ps" and "verify_access as_str parse req caller micros ps = (Ok us, ps')"
    and "find (\<lambda>u. upd_key u = key) us = Some u" and s: "bucket_at ps key = Some s"
  shows "charged us (now_micros micros) key s = s\<lparr>balance := i64_of_int
    (level_at s (now_micros micros) (upd_rule u) - int (unat (upd_amount u)))\<rparr>"
proof -
  let ?now = "now_micros micros"
  from find_updates_of [OF assms(3)] have u: "u \<in> set us" "upd_key u = key" by auto
  from granted_updates(2) [OF assms(1,2) u(1)] u(2) s have ok: "bucket_ok (upd_rule u) s" by simp
  from bucket_at_settled(2) [OF assms(1,2) u(1)] u(2) s
  have paid: "fst (withdraw_after_refill s (upd_amount u) ?now (upd_rule u)) = Ok ()" by simp
  from ok show ?thesis
    by (cases rule: withdraw_cases [of _ s "upd_amount u" ?now])
      (use paid assms(3) in \<open>simp_all add: charged_def\<close>)
qed

subsection \<open>The guarantees\<close>

text \<open>C8: \<open>verify_access\<close> implements its contract: it grants and refuses the same requests as
  the account book, with the same error response, and leaves the same buckets.\<close>

theorem verify_access_refines_account_book:
  assumes "wf_access_state (access ps)" and "unpoisoned (access ps)"
  shows "(case verify_access as_str parse req caller micros ps of
        (Err resp, ps') \<Rightarrow> Err resp
      | (Ok us, ps') \<Rightarrow> Ok (book_of ps')) =
    spec_verify (req_method req) caller (spend_of parse req) (now_micros micros) (book_of ps)"
  by (rule verify_access_spec [OF assms, symmetric])

theorem verify_access_refines_account_book_witness:
  "spec_verify Method_PayKeysend ''alice'' 6000 9 (book_of demo_state) =
     Err (quota_exceeded_response Method_PayKeysend)"
proof -
  obtain res ps' where v: "verify_access demo_as_str demo_parse (demo_request 6000) ''alice'' 9 demo_state
      = (res, ps')" by fastforce
  with demo_refused have "res = Err (quota_exceeded_response Method_PayKeysend)" by simp
  with v show ?thesis
    using verify_access_refines_account_book [OF in_syncD(2,3) [OF demo_in_sync],
        of demo_as_str demo_parse "demo_request 6000" "''alice''" 9]
    by (simp add: demo_request_def spend_of_def now_micros_def)
qed

text \<open>A refused request changes nothing: no bucket is debited unless all of them are.\<close>

theorem refused_request_changes_nothing:
  assumes "fst (verify_access as_str parse req caller micros ps) = Err resp"
  shows "snd (verify_access as_str parse req caller micros ps) = ps"
  using assms by (rule verify_access_error_keeps_state)

theorem refused_request_changes_nothing_witness:
  "snd (verify_access demo_as_str demo_parse (demo_request 6000) ''alice'' 9 demo_state) = demo_state"
  by (rule refused_request_changes_nothing [OF demo_refused])

text \<open>C6: a granted request debits exactly the buckets it has updates for, each by the amount of
  its update after the refill, and leaves every other bucket and every profile alone.\<close>

theorem granted_request_debits_exactly:
  assumes "in_sync ps" and "verify_access as_str parse req caller micros ps = (Ok us, ps')"
  shows "usage_profiles ps' = usage_profiles ps \<and>
    bucket_at ps' key =
      (case find (\<lambda>u. upd_key u = key) us of
         None \<Rightarrow> bucket_at ps key
       | Some u \<Rightarrow> map_option (\<lambda>s. s\<lparr>balance := i64_of_int
             (level_at s (now_micros micros) (upd_rule u) - int (unat (upd_amount u)))\<rparr>)
           (bucket_at ps key))"
proof (cases "find (\<lambda>u. upd_key u = key) us")
  case None
  with bucket_at_settled(1) [OF assms, of key] granted_profiles [OF assms(2)] show ?thesis
    by (simp add: charged_def [abs_def] option.map_ident)
next
  case (Some u)
  with charged_exact [OF assms Some] bucket_at_settled(1) [OF assms, of key] granted_profiles [OF assms(2)]
  show ?thesis by (cases "bucket_at ps key") auto
qed

theorem granted_request_debits_exactly_witness:
  "bucket_at (snd (verify_access demo_as_str demo_parse (demo_request 1000) ''alice'' 9 demo_state))
     (AccessKey_Quota ''alice'') = Some \<lparr>balance = 4000, last_refill_micros = 7\<rparr>"
  using granted_request_debits_exactly [OF demo_in_sync demo_granted, of "AccessKey_Quota ''alice''"]
  unfolding demo_granted
  by (simp add: updates_of_def)
    (simp add: demo_state_eq quota_bucket_def deref_def level_at_def refilled_tokens_def
      demo_quota_def i64_of_int_def now_micros_def)

text \<open>When the execution of a granted request fails, the refund brings every bucket that was
  debited back to the level it had, with the tokens that had come back: a failed request costs
  nothing and nobody else notices.\<close>

theorem failed_request_costs_nothing:
  assumes "in_sync ps" and "verify_access as_str parse req caller micros ps = (Ok us, ps')"
  shows "bucket_at (ps'\<lparr>access := refund_applied_state_updates us (access ps')\<rparr>) key =
      (case find (\<lambda>u. upd_key u = key) us of
         None \<Rightarrow> bucket_at ps key
       | Some u \<Rightarrow> map_option (\<lambda>s. s\<lparr>balance := i64_of_int (level_at s (now_micros micros) (upd_rule u))\<rparr>)
           (bucket_at ps key))"
  using assms by (rule refunded_level)

theorem failed_request_costs_nothing_witness:
  "bucket_at (let ps' = snd (verify_access demo_as_str demo_parse (demo_request 1000) ''alice'' 9 demo_state);
                  us = updates_of Method_PayKeysend ''alice'' 1000 (Some (demo_rule, 0)) (Some (demo_quota, 1))
              in ps'\<lparr>access := refund_applied_state_updates us (access ps')\<rparr>)
     (AccessKey_Quota ''alice'') = Some \<lparr>balance = 5000, last_refill_micros = 7\<rparr>"
  using failed_request_costs_nothing [OF demo_in_sync demo_granted, of "AccessKey_Quota ''alice''"]
  unfolding demo_granted Let_def snd_conv
  by (simp add: updates_of_def del: bucket_at.simps refund_applied_state_updates.simps)
    (simp add: demo_state_eq quota_bucket_def deref_def level_at_def refilled_tokens_def
      demo_quota_def i64_of_int_def now_micros_def del: refund_applied_state_updates.simps)

subsection \<open>Who is refused, and who pays nothing\<close>

text \<open>A caller without a profile is unauthorized, and a method that the profile's list (also
  an empty one) neither names nor covers by the name \<open>ALL\<close> is restricted, whatever the buckets
  hold and without touching them.\<close>

theorem method_needs_permission:
  "(usage_profiles ps caller = None \<longrightarrow>
      verify_access as_str parse req caller micros ps = (Err (unauthorized_response (req_method req)), ps)) \<and>
   (\<forall>p ms. usage_profiles ps caller = Some p \<longrightarrow> profile_methods p = Some ms \<longrightarrow>
      map_of ms (req_method req) = None \<longrightarrow> map_of ms (Method_Unknown ''ALL'') = None \<longrightarrow>
      verify_access as_str parse req caller micros ps = (Err (access_denied_response (req_method req)), ps))"
  by (auto simp: verify_access_settle prepare_updates_eq method_rule_for_def)

theorem method_needs_permission_witness:
  "verify_access demo_as_str demo_parse (demo_request 1000) ''bob'' 9 demo_state =
     (Err (unauthorized_response Method_PayKeysend), demo_state)"
  using method_needs_permission [of demo_state "''bob''" demo_as_str demo_parse "demo_request 1000" 9]
  by (simp add: demo_state_eq demo_request_def)

text \<open>C37: a rule with an access rate under the name \<open>ALL\<close> lets nobody in: buckets are made for
  the names in the profile, the request looks for one under its own method, and is refused for
  the missing bucket.\<close>

theorem all_rule_with_rate_refuses_everything:
  assumes "in_sync ps" and "usage_profiles ps caller = Some p" and "profile_methods p = Some ms"
    and "map_of ms (req_method req) = None" and "map_of ms (Method_Unknown ''ALL'') = Some r"
    and "rule_access_rate r = Some rule"
  shows "verify_access as_str parse req caller micros ps =
    (Err (missing_state_response (req_method req) AccessRate), ps)"
proof -
  let ?key = "AccessKey_Method caller (req_method req)"
  have "method_rule_of p (req_method req) = None"
    using assms(3,4) by (simp add: method_rule_of_def)
  then have "bucket_at ps ?key = None"
    using in_syncD(4) [OF assms(1), of ?key] assms(2) by (simp add: bucket_matches_def)
  then have "access_rate (access ps) ?key = None"
    using missing_iff(1) [OF in_syncD(2) [OF assms(1)]] by simp
  moreover have "ms \<noteq> []" using assms(5) by auto
  ultimately show ?thesis
    using assms(2-6) by (simp add: verify_access_settle prepare_updates_eq method_rule_for_def)
qed

definition all_profile :: usage_profile where
  "all_profile = \<lparr>profile_quota = None,
     profile_methods = Some [(Method_Unknown ''ALL'', \<lparr>rule_access_rate = Some demo_rule\<rparr>)],
     profile_control = None\<rparr>"

theorem all_rule_with_rate_refuses_everything_witness:
  "verify_access demo_as_str demo_parse (demo_request 1000) ''carol'' 9
       (upsert_usage_profile_and_reset_states ''carol'' all_profile 7 demo_state) =
     (Err (missing_state_response Method_PayKeysend AccessRate),
      upsert_usage_profile_and_reset_states ''carol'' all_profile 7 demo_state)"
proof -
  have "in_sync (upsert_usage_profile_and_reset_states ''carol'' all_profile 7 demo_state)"
    by (intro in_sync_upsert demo_in_sync) (simp add: wf_profile_def all_profile_def)
  from all_rule_with_rate_refuses_everything [OF this, of "''carol''" all_profile _ "demo_request 1000"]
  show ?thesis by (simp add: all_profile_def demo_request_def)
qed

text \<open>C33: a payment whose amount is not in the request (an invoice or an offer that carries its
  own amount, a URI without one) never touches the quota, however much it pays.\<close>

theorem payment_without_amount_is_not_metered:
  assumes "in_sync ps" and "request_spend_msat parse req = None"
  shows "quota_bucket (access (snd (verify_access as_str parse req caller micros ps))) (AccessKey_Quota pk) =
    quota_bucket (access ps) (AccessKey_Quota pk)"
proof -
  obtain res ps' where v: "verify_access as_str parse req caller micros ps = (res, ps')" by fastforce
  show ?thesis
  proof (cases res)
    case (Inl e)
    with v verify_access_error_keeps_state [of as_str parse req caller micros ps e]
    show ?thesis by simp
  next
    case (Inr us)
    with v have ok: "verify_access as_str parse req caller micros ps = (Ok us, ps')" by simp
    have "spend_of parse req = 0" using assms(2) by (simp add: spend_of_def)
    moreover have "quota_rule_for 0 p = None" for p by (simp add: quota_rule_for_def)
    ultimately obtain r where "us = updates_of (req_method req) caller 0 r None"
      using verify_access_granted [OF assms(1) ok] by (metis map_option_is_None)
    then have "find (\<lambda>u. upd_key u = AccessKey_Quota pk) us = None"
      by (auto simp: updates_of_def find_None_iff split: option.splits)
    with bucket_at_settled(1) [OF assms(1) ok, of "AccessKey_Quota pk"] v show ?thesis
      by (simp add: charged_def [abs_def] option.map_ident)
  qed
qed

theorem payment_without_amount_is_not_metered_witness:
  "quota_bucket (access (snd (verify_access demo_as_str demo_parse
       \<lparr>req_method = Method_PayInvoice, req_params = Params_PayInvoice ''lnbc1'' None\<rparr> ''alice'' 9 demo_state)))
     (AccessKey_Quota ''alice'') = Some \<lparr>balance = 5000, last_refill_micros = 7\<rparr>"
  using payment_without_amount_is_not_metered [OF demo_in_sync, of demo_parse
      "\<lparr>req_method = Method_PayInvoice, req_params = Params_PayInvoice ''lnbc1'' None\<rparr>"
      demo_as_str "''alice''" 9 "''alice''"]
  by (simp add: demo_state_eq quota_bucket_def deref_def)

text \<open>C25: replacing a caller's profile gives the caller exactly the buckets the new profile asks
  for, full and stamped with the time of the update, and changes no bucket of anybody else.\<close>

theorem profile_update_resets_its_caller_only:
  assumes "in_sync ps" and "wf_profile p"
  shows "bucket_at (upsert_usage_profile_and_reset_states target p micros ps) key =
    (if access_key_pubkey key = target then
       (case rule_at (upsert_usage_profile_and_reset_states target p micros ps) key of
          None \<Rightarrow> None
        | Some rule \<Rightarrow>
            if valid_rule rule then Some \<lparr>balance = max_capacity rule, last_refill_micros = now_micros micros\<rparr>
            else None)
     else bucket_at ps key)"
proof -
  have fresh: "fresh_bucket now rule =
      (if valid_rule rule then Some \<lparr>balance = max_capacity rule, last_refill_micros = now\<rparr> else None)"
    for now rule
    by (auto simp: fresh_bucket_def from_rule_def rate_state_new_def valid_rule_def)
  show ?thesis
    using assms in_syncD(1) [OF assms(1)]
    by (cases key) (auto simp: upsert_method_bucket upsert_quota_bucket fresh split: option.splits)
qed

theorem profile_update_resets_its_caller_only_witness:
  "bucket_at (upsert_usage_profile_and_reset_states ''carol'' all_profile 8 demo_state)
     (AccessKey_Method ''carol'' (Method_Unknown ''ALL'')) =
       Some \<lparr>balance = 3000000, last_refill_micros = 8\<rparr>"
proof -
  have "wf_profile all_profile" by (simp add: wf_profile_def all_profile_def)
  from profile_update_resets_its_caller_only [OF demo_in_sync this, of "''carol''" 8
      "AccessKey_Method ''carol'' (Method_Unknown ''ALL'')"]
  show ?thesis
    by (simp add: method_rule_of_def all_profile_def demo_rule_def valid_rule_def now_micros_def
        del: bucket_at.simps)
qed

end
