(* ===== verification/Grants.thy ===== *)
theory Grants
  imports Access_Sync
begin

section \<open>Access grants: \<open>parse_grant_target\<close> and its callers in \<open>src/lib.rs\<close>\<close>

text \<open>
  A grant is an event of kind 30078 whose \<open>d\<close> tag names the node and the user, and whose
  content is the user's profile. Grants arrive from a subscription and from a periodic
  fetch, in any order and more than once. For each user the newest event wins, by time of
  creation and then by id. The lemmas say when the outcome is independent of the order of
  arrival. Parsing of a profile from JSON belongs to \<open>serde_json\<close> and is an argument.
\<close>

subsection \<open>Events\<close>

record nostr_event =
  ev_id :: string
  ev_pubkey :: pubkey
  ev_created_at :: u64
  ev_tags :: "string list list"
  ev_content :: string

text \<open>\<open>tags.iter().find_map\<close> over the tags of a name: the value of the first that has one.\<close>

fun find_tag_value :: "string \<Rightarrow> string list list \<Rightarrow> string option" where
  "find_tag_value name [] = None"
| "find_tag_value name (parts # tags) =
     (case parts of
        n # v # _ \<Rightarrow> if n = name then Some v else find_tag_value name tags
      | _ \<Rightarrow> find_tag_value name tags)"

definition parse_grant_target :: "pubkey option \<Rightarrow> nostr_event \<Rightarrow> pubkey option" where
  "parse_grant_target relay_pubkey ev =
     Option.bind (find_tag_value ''d'' (ev_tags ev)) (\<lambda>d_tag.
       (case splitn2 (CHR '':'') d_tag of
          node_pubkey # rest \<Rightarrow>
            if (case relay_pubkey of None \<Rightarrow> False | Some configured \<Rightarrow> node_pubkey \<noteq> configured) then None
            else (case rest of
                    [] \<Rightarrow> None
                  | user_pubkey # _ \<Rightarrow> if user_pubkey = [] then None else Some user_pubkey)
        | [] \<Rightarrow> None))"

subsection \<open>The newest event wins\<close>

datatype applied_grant_event = AppliedGrantEvent (created_at: u64) (event_id: string)

text \<open>The order in which grants supersede each other: by time, then by id.\<close>

instantiation applied_grant_event :: linorder
begin

definition less_applied_grant_event :: "applied_grant_event \<Rightarrow> applied_grant_event \<Rightarrow> bool" where
  "less_applied_grant_event a b \<longleftrightarrow>
     created_at a < created_at b \<or> created_at a = created_at b \<and> event_id a < event_id b"

definition less_eq_applied_grant_event :: "applied_grant_event \<Rightarrow> applied_grant_event \<Rightarrow> bool" where
  "less_eq_applied_grant_event a b \<longleftrightarrow> a < b \<or> a = b"

instance
proof
  fix x y z :: applied_grant_event
  show "x < y \<longleftrightarrow> x \<le> y \<and> \<not> y \<le> x"
    by (auto simp: less_applied_grant_event_def less_eq_applied_grant_event_def)
  show "x \<le> x"
    by (simp add: less_eq_applied_grant_event_def)
  show "x \<le> y \<Longrightarrow> y \<le> z \<Longrightarrow> x \<le> z"
    by (auto simp: less_applied_grant_event_def less_eq_applied_grant_event_def)
  show "x \<le> y \<Longrightarrow> y \<le> x \<Longrightarrow> x = y"
    by (auto simp: less_applied_grant_event_def less_eq_applied_grant_event_def)
  show "x \<le> y \<or> y \<le> x"
    by (cases x; cases y) (auto simp: less_applied_grant_event_def less_eq_applied_grant_event_def)
qed

end

definition stamp :: "nostr_event \<Rightarrow> applied_grant_event" where
  "stamp ev = AppliedGrantEvent (ev_created_at ev) (ev_id ev)"

definition should_apply_grant_event ::
    "pubkey \<Rightarrow> nostr_event \<Rightarrow> (pubkey \<rightharpoonup> applied_grant_event) \<Rightarrow> bool \<times> (pubkey \<rightharpoonup> applied_grant_event)" where
  "should_apply_grant_event target ev applied =
     (case applied target of
        None \<Rightarrow> (True, applied(target \<mapsto> AppliedGrantEvent (ev_created_at ev) (ev_id ev)))
      | Some existing \<Rightarrow>
          (let should_apply = ev_created_at ev > created_at existing \<or>
                 ev_created_at ev = created_at existing \<and> ev_id ev > event_id existing
           in (should_apply,
               if should_apply then applied(target \<mapsto> AppliedGrantEvent (ev_created_at ev) (ev_id ev))
               else applied)))"

subsection \<open>Processing a grant\<close>

type_synonym profile_parser = "string \<Rightarrow> string + usage_profile"

record grant_state =
  applied :: "pubkey \<rightharpoonup> applied_grant_event"
  profiles :: profile_state

definition process_grant_event ::
    "profile_parser \<Rightarrow> pubkey option \<Rightarrow> nostr_event \<times> nat \<Rightarrow> grant_state \<Rightarrow> grant_state" where
  "process_grant_event parse relay_pubkey arrival gs =
     (case arrival of (ev, micros) \<Rightarrow>
       (case parse_grant_target relay_pubkey ev of
          None \<Rightarrow> gs
        | Some target \<Rightarrow>
           (case should_apply_grant_event target ev (applied gs) of
              (False, m) \<Rightarrow> gs\<lparr>applied := m\<rparr>
            | (True, m) \<Rightarrow>
               (case parse (ev_content ev) of
                  Err _ \<Rightarrow> gs\<lparr>applied := m\<rparr>
                | Ok p \<Rightarrow> gs\<lparr>applied := m,
                    profiles := upsert_usage_profile_and_reset_states target p micros (profiles gs)\<rparr>))))"

fun process_grants ::
    "profile_parser \<Rightarrow> pubkey option \<Rightarrow> (nostr_event \<times> nat) list \<Rightarrow> grant_state \<Rightarrow> grant_state" where
  "process_grants parse relay_pubkey [] gs = gs"
| "process_grants parse relay_pubkey (a # as) gs =
     process_grants parse relay_pubkey as (process_grant_event parse relay_pubkey a gs)"

definition grant_state_empty :: grant_state where
  "grant_state_empty = \<lparr>applied = Map.empty, profiles = profile_state_empty\<rparr>"

lemma should_apply_newer:
  "should_apply_grant_event target ev m =
     (let newer = (case m target of None \<Rightarrow> True | Some e \<Rightarrow> e < stamp ev)
      in (newer, if newer then m(target \<mapsto> stamp ev) else m))"
  by (auto simp: should_apply_grant_event_def stamp_def less_applied_grant_event_def Let_def
      split: option.splits)

text \<open>What one event does to the record of applied events and to the profile of each user.\<close>

definition supersedes :: "pubkey option \<Rightarrow> nostr_event \<Rightarrow> pubkey \<Rightarrow> grant_state \<Rightarrow> bool" where
  "supersedes relay ev pk gs \<longleftrightarrow> parse_grant_target relay ev = Some pk \<and>
     (case applied gs pk of None \<Rightarrow> True | Some e \<Rightarrow> e < stamp ev)"

lemma process_grant_event_applied:
  "applied (process_grant_event parse relay (ev, micros) gs) pk =
     (if supersedes relay ev pk gs then Some (stamp ev) else applied gs pk)"
  by (auto simp: process_grant_event_def should_apply_newer supersedes_def Let_def
      split: option.splits sum.splits prod.splits bool.splits if_splits)

lemma process_grant_event_profile:
  "usage_profiles (profiles (process_grant_event parse relay (ev, micros) gs)) pk =
     (if supersedes relay ev pk gs
      then (case parse (ev_content ev) of Ok p \<Rightarrow> Some p | Err _ \<Rightarrow> usage_profiles (profiles gs) pk)
      else usage_profiles (profiles gs) pk)"
  by (auto simp: process_grant_event_def should_apply_newer supersedes_def Let_def
      split: option.splits sum.splits prod.splits bool.splits if_splits)

lemma process_grant_event_in_sync:
  assumes "in_sync (profiles gs)" and "\<And>p. parse (ev_content ev) = Ok p \<Longrightarrow> wf_profile p"
  shows "in_sync (profiles (process_grant_event parse relay (ev, micros) gs))"
  using assms
  by (auto simp: process_grant_event_def in_sync_upsert
      split: option.splits sum.splits prod.splits bool.splits)

text \<open>
  The events for a user among those that arrived; the newest of them is what the record
  holds after any processing.
\<close>

definition grants_for :: "pubkey option \<Rightarrow> pubkey \<Rightarrow> nostr_event list \<Rightarrow> nostr_event set" where
  "grants_for relay pk evs = {ev \<in> set evs. parse_grant_target relay ev = Some pk}"

definition newest_grant :: "pubkey option \<Rightarrow> pubkey \<Rightarrow> nostr_event list \<Rightarrow> applied_grant_event option" where
  "newest_grant relay pk evs =
     (if grants_for relay pk evs = {} then None else Some (Max (stamp ` grants_for relay pk evs)))"

lemma grants_for_snoc [simp]:
  "grants_for relay pk (evs @ [e]) =
     (if parse_grant_target relay e = Some pk then insert e (grants_for relay pk evs)
      else grants_for relay pk evs)"
  by (auto simp: grants_for_def)

lemma newest_grant_snoc:
  "newest_grant relay pk (evs @ [e]) =
     (if parse_grant_target relay e = Some pk \<and>
         (case newest_grant relay pk evs of None \<Rightarrow> True | Some n \<Rightarrow> n < stamp e)
      then Some (stamp e) else newest_grant relay pk evs)"
proof -
  let ?S = "stamp ` grants_for relay pk evs"
  have "finite ?S" by (simp add: grants_for_def)
  then have "grants_for relay pk evs \<noteq> {} \<Longrightarrow> Max (insert (stamp e) ?S) = max (stamp e) (Max ?S)"
    by (simp add: Max_insert)
  then show ?thesis
    by (auto simp: newest_grant_def max_def not_le simp del: Max_less_iff Max_gr_iff Max_ge_iff Max_le_iff)
qed

lemma newest_grant_in:
  "newest_grant relay pk evs = Some n \<Longrightarrow> \<exists>ev \<in> grants_for relay pk evs. stamp ev = n"
proof -
  assume n: "newest_grant relay pk evs = Some n"
  have "finite (stamp ` grants_for relay pk evs)" by (simp add: grants_for_def)
  from Max_in [OF this] n show ?thesis by (auto simp: newest_grant_def split: if_splits)
qed

lemma process_grants_snoc:
  "process_grants parse relay (as @ [a]) gs =
     process_grant_event parse relay a (process_grants parse relay as gs)"
  by (induction as arbitrary: gs) simp_all

lemma applied_is_newest:
  "applied (process_grants parse relay as grant_state_empty) pk = newest_grant relay pk (map fst as)"
proof (induction as rule: rev_induct)
  case Nil
  then show ?case by (simp add: newest_grant_def grants_for_def grant_state_empty_def)
next
  case (snoc a as)
  obtain ev micros where "a = (ev, micros)" by fastforce
  with snoc show ?case
    by (simp add: process_grants_snoc process_grant_event_applied supersedes_def newest_grant_snoc)
qed

text \<open>Events are told apart by their stamps, as ids are hashes of the events.\<close>

definition stamps_identify :: "nostr_event list \<Rightarrow> bool" where
  "stamps_identify evs \<longleftrightarrow> inj_on stamp (set evs)"

lemma profile_is_newest:
  assumes "stamps_identify (map fst as)"
    and "\<forall>ev \<in> grants_for relay pk (map fst as). \<exists>p. parse (ev_content ev) = Ok p"
    and "ev \<in> grants_for relay pk (map fst as)"
    and "newest_grant relay pk (map fst as) = Some (stamp ev)"
  shows "\<exists>p. parse (ev_content ev) = Ok p \<and>
    usage_profiles (profiles (process_grants parse relay as grant_state_empty)) pk = Some p"
  using assms
proof (induction as arbitrary: ev rule: rev_induct)
  case Nil
  then show ?case by (simp add: grants_for_def)
next
  case (snoc a as)
  obtain e micros where a: "a = (e, micros)" by fastforce
  let ?gs = "process_grants parse relay as grant_state_empty"
  let ?evs = "map fst as"
  have inj: "inj_on stamp (insert e (set ?evs))"
    using snoc.prems(1) by (simp add: stamps_identify_def a)
  have sub: "grants_for relay pk ?evs \<subseteq> set ?evs" by (auto simp: grants_for_def)
  from snoc.prems(3) have ev: "ev \<in> insert e (set ?evs)" using sub by (auto simp: a split: if_splits)
  have super: "supersedes relay e pk ?gs \<longleftrightarrow> parse_grant_target relay e = Some pk \<and>
      (case newest_grant relay pk ?evs of None \<Rightarrow> True | Some n \<Rightarrow> n < stamp e)"
    by (simp add: supersedes_def applied_is_newest)
  show ?case
  proof (cases "supersedes relay e pk ?gs")
    case True
    then have "stamp ev = stamp e" and e: "parse_grant_target relay e = Some pk"
      using snoc.prems(4) super by (auto simp: a newest_grant_snoc)
    then have "ev = e" using inj ev by (auto simp: inj_on_def)
    with snoc.prems(2) True e show ?thesis
      by (auto simp: a process_grants_snoc process_grant_event_profile split: sum.splits)
  next
    case False
    then have new: "newest_grant relay pk ?evs = Some (stamp ev)"
      using snoc.prems(4) super by (simp add: a newest_grant_snoc split: if_splits)
    then obtain f where f: "f \<in> grants_for relay pk ?evs" "stamp f = stamp ev"
      using newest_grant_in by blast
    then have "f = ev" using inj ev sub unfolding inj_on_def by blast
    moreover have "stamps_identify ?evs" using inj by (auto simp: stamps_identify_def intro: inj_on_subset)
    moreover have "\<forall>ev \<in> grants_for relay pk ?evs. \<exists>p. parse (ev_content ev) = Ok p"
      using snoc.prems(2) by (simp add: a split: if_splits)
    ultimately show ?thesis
      using snoc.IH [of ev] f(1) new False
      by (simp add: a process_grants_snoc process_grant_event_profile)
  qed
qed

lemma no_grant_no_profile:
  "grants_for relay pk (map fst as) = {} \<Longrightarrow>
     usage_profiles (profiles (process_grants parse relay as grant_state_empty)) pk = None"
proof (induction as rule: rev_induct)
  case Nil
  then show ?case by (simp add: grant_state_empty_def profile_state_empty_def)
next
  case (snoc a as)
  obtain e micros where "a = (e, micros)" by fastforce
  with snoc show ?case
    by (auto simp: process_grants_snoc process_grant_event_profile supersedes_def split: if_splits)
qed

subsection \<open>What the grant protocol guarantees\<close>

definition demo_grant :: "string \<Rightarrow> u64 \<Rightarrow> string \<Rightarrow> nostr_event" where
  "demo_grant i t content = \<lparr>ev_id = i, ev_pubkey = ''owner'', ev_created_at = t,
     ev_tags = [[''d'', ''node:alice'']], ev_content = content\<rparr>"

definition demo_profile_parser :: profile_parser where
  "demo_profile_parser s =
     (if s = ''bad'' then Err ''expected value''
      else Ok \<lparr>profile_quota = None, profile_methods = (if s = ''none'' then Some [] else None),
              profile_control = None\<rparr>)"

text \<open>C12: the profiles that grants lead to depend on the events that arrived only, not on their
  order, their number or the time of arrival, as long as every profile parses.\<close>

theorem grants_converge:
  assumes "set (map fst as) = set (map fst bs)"
    and "stamps_identify (map fst as)"
    and "\<forall>ev \<in> set (map fst as). \<exists>p. parse (ev_content ev) = Ok p"
  shows "usage_profiles (profiles (process_grants parse relay as grant_state_empty)) =
    usage_profiles (profiles (process_grants parse relay bs grant_state_empty))"
proof
  fix pk
  have same: "grants_for relay pk (map fst as) = grants_for relay pk (map fst bs)"
    using assms(1) by (simp add: grants_for_def)
  then have new: "newest_grant relay pk (map fst as) = newest_grant relay pk (map fst bs)"
    by (simp add: newest_grant_def)
  have ident: "stamps_identify (map fst bs)" using assms(1,2) by (simp add: stamps_identify_def)
  have parses: "\<forall>ev \<in> grants_for relay pk (map fst bs). \<exists>p. parse (ev_content ev) = Ok p"
    using assms(1,3) by (auto simp: grants_for_def)
  show "usage_profiles (profiles (process_grants parse relay as grant_state_empty)) pk =
    usage_profiles (profiles (process_grants parse relay bs grant_state_empty)) pk"
  proof (cases "grants_for relay pk (map fst bs) = {}")
    case True
    with same show ?thesis by (simp add: no_grant_no_profile)
  next
    case False
    then obtain n where n: "newest_grant relay pk (map fst bs) = Some n" by (simp add: newest_grant_def)
    from newest_grant_in [OF n] obtain ev where ev: "ev \<in> grants_for relay pk (map fst bs)" "stamp ev = n"
      by blast
    with profile_is_newest [OF assms(2) _ _ _, of relay pk parse ev] same new n parses
      profile_is_newest [OF ident parses ev(1)]
    show ?thesis by auto
  qed
qed

theorem grants_converge_witness:
  "usage_profiles (profiles (process_grants demo_profile_parser None
       [(demo_grant ''a'' 1 ''all'', 5), (demo_grant ''b'' 2 ''none'', 6)] grant_state_empty)) =
   usage_profiles (profiles (process_grants demo_profile_parser None
       [(demo_grant ''b'' 2 ''none'', 1), (demo_grant ''a'' 1 ''all'', 2), (demo_grant ''b'' 2 ''none'', 3)]
       grant_state_empty))"
  by (rule grants_converge)
    (auto simp: stamps_identify_def stamp_def demo_grant_def demo_profile_parser_def)

text \<open>C36: a grant whose profile does not parse is recorded as applied before it is parsed. When it
  arrives first it blocks the older grants of its user for good; when it arrives last the older
  profile stays in force: the outcome depends on the order of arrival.\<close>

theorem malformed_grant_blocks_older_ones:
  assumes "parse_grant_target relay bad = Some pk" and "parse_grant_target relay good = Some pk"
    and "parse (ev_content bad) = Err e" and "parse (ev_content good) = Ok p"
    and "stamp good < stamp bad"
  shows "usage_profiles (profiles (process_grants parse relay [(bad, t), (good, t')] grant_state_empty)) pk = None \<and>
    usage_profiles (profiles (process_grants parse relay [(good, t), (bad, t')] grant_state_empty)) pk = Some p"
  using assms
  by (simp add: process_grant_event_profile process_grant_event_applied supersedes_def
      grant_state_empty_def profile_state_empty_def less_not_sym)

theorem malformed_grant_blocks_older_ones_witness:
  "usage_profiles (profiles (process_grants demo_profile_parser None
     [(demo_grant ''b'' 2 ''bad'', 1), (demo_grant ''a'' 1 ''all'', 2)] grant_state_empty)) ''alice'' = None"
proof -
  have "parse_grant_target None (demo_grant i t c) = Some ''alice''" for i t c
    by (simp add: parse_grant_target_def demo_grant_def)
  from malformed_grant_blocks_older_ones [OF this this,
      of demo_profile_parser "''b''" 2 "''bad''" _ "''a''" 1 "''all''"]
  show ?thesis
    by (simp add: demo_grant_def demo_profile_parser_def stamp_def less_applied_grant_event_def)
qed

text \<open>A grant is accepted whoever signed it, also when the node's key is configured: the first part
  of the \<open>d\<close> tag has to name the node, but nothing binds the event to an owner, so any client can give
  itself the profile it likes.\<close>

theorem anyone_can_grant:
  assumes "ev_tags ev = [''d'', node @ CHR '':'' # user] # tags" and "CHR '':'' \<notin> set node"
    and "relay = None \<or> relay = Some node"
    and "user \<noteq> []" and "applied gs user = None" and "parse (ev_content ev) = Ok p"
  shows "get_usage_profile user (profiles (process_grant_event parse relay (ev\<lparr>ev_pubkey := anyone\<rparr>, t) gs)) = Some p"
proof -
  have "parse_grant_target relay (ev\<lparr>ev_pubkey := anyone\<rparr>) = Some user"
    using assms(1-4) by (auto simp: parse_grant_target_def splitn2_append_sep)
  with assms(5,6) show ?thesis
    by (simp add: get_usage_profile_def process_grant_event_profile supersedes_def)
qed

theorem anyone_can_grant_witness:
  "get_usage_profile ''alice'' (profiles (process_grant_event demo_profile_parser (Some ''node'')
      ((demo_grant ''a'' 1 ''all'')\<lparr>ev_pubkey := ''alice''\<rparr>, 5) grant_state_empty)) =
    Some \<lparr>profile_quota = None, profile_methods = None, profile_control = None\<rparr>"
  by (rule anyone_can_grant [where node = "''node''" and tags = "[]"])
    (simp_all add: demo_grant_def grant_state_empty_def demo_profile_parser_def)

end
