(* ===== verification/Nwc_Dispatch.thy ===== *)
theory Nwc_Dispatch
  imports Handlers Access_Laws Grants
begin

section \<open>Wallet requests: \<open>process_nwc_request\<close> and \<open>handle_nwc_request\<close> in \<open>src/lib.rs\<close>\<close>

text \<open>
  The life of a wallet request: decryption, access control with its debits, the handler's
  validation and execution, the refund when the execution failed, the encrypted answer.
  Encryption, JSON and the relay belong to crates and services and are the record
  \<open>transport\<close>; the events handed to the relay are kept in the order of sending.
\<close>

subsection \<open>Subscriptions\<close>

definition KNOWN_NWC_NOTIFICATION_TYPES :: "string list" where
  "KNOWN_NWC_NOTIFICATION_TYPES = [''payment_received'', ''payment_sent'', ''hold_invoice_accepted'']"

text \<open>The loop over the types: the first one that is not known.\<close>

definition first_unknown :: "string list \<Rightarrow> string list \<Rightarrow> string option" where
  "first_unknown known types = find (\<lambda>t. t \<notin> set known) types"

definition apply_subscription :: "pubkey \<Rightarrow> string list \<Rightarrow> 'n world \<Rightarrow> 'n world" where
  "apply_subscription caller types w =
     (if types = [] then w\<lparr>w_subscriptions := unsubscribe caller (w_subscriptions w)\<rparr>
      else w\<lparr>w_subscriptions := subscribe caller types (w_subscriptions w)\<rparr>)"

definition handle_nwc_subscribe_notifications ::
    "nip47_request \<Rightarrow> pubkey \<Rightarrow> 'n world \<Rightarrow> nip47_response \<times> 'n world" where
  "handle_nwc_subscribe_notifications req caller w =
     (case req_params req of
        Params_SubscribeNotifications types \<Rightarrow>
          (case first_unknown KNOWN_NWC_NOTIFICATION_TYPES types of
             Some t \<Rightarrow> (error_response Method_SubscribeNotifications
                         (nip47_err Other (''unknown notification type: '' @ t)), w)
           | None \<Rightarrow> (ok_response Method_SubscribeNotifications Result_SubscribeNotifications,
                       apply_subscription caller types w))
      | _ \<Rightarrow> (error_response Method_SubscribeNotifications
                (nip47_err Other ''invalid params for subscribe_notifications''), w))"

subsection \<open>Processing a request\<close>

text \<open>
  \<open>execute_request\<close> is the execution with its test seam: a forced failure, or the handler on
  a thread of its own, whose panic becomes an error.
\<close>

definition execute_request ::
    "'n node_env \<Rightarrow> 'n handler \<Rightarrow> nip47_request \<Rightarrow> pubkey \<Rightarrow> 'n world \<Rightarrow> 'n handled" where
  "execute_request env h req caller w =
     (if req_method req \<in> w_forced_failures w
      then (Err (nip47_err Other ''forced execute failure for testing''), w)
      else (case h_execute h req caller w of
              (Returned r, w') \<Rightarrow> (r, w')
            | (Panicked, w') \<Rightarrow>
                (Err (nip47_err Other (''internal execution task failed: '' @ env_join_error env)), w')))"

definition refund_world :: "state_update_request list \<Rightarrow> 'n world \<Rightarrow> 'n world" where
  "refund_world updates w =
     w\<lparr>w_profiles := (w_profiles w)\<lparr>access := refund_applied_state_updates updates (access (w_profiles w))\<rparr>\<rparr>"

definition process_nwc_request ::
    "'n node_env \<Rightarrow> nip47_request \<Rightarrow> pubkey \<Rightarrow> nat \<Rightarrow> u64 \<Rightarrow> 'n world \<Rightarrow> nip47_response \<times> 'n world" where
  "process_nwc_request env req caller micros now w =
     (case verify_access (env_method_str env) (env_parse_uri env) req caller micros (w_profiles w) of
        (Err resp, ps) \<Rightarrow> (resp, w\<lparr>w_profiles := ps\<rparr>)
      | (Ok updates, ps) \<Rightarrow>
         (let w = w\<lparr>w_profiles := ps\<rparr> in
          if req_method req = Method_SubscribeNotifications
          then handle_nwc_subscribe_notifications req caller w
          else (case request_handlers env now (req_method req) of
             None \<Rightarrow> (error_response (req_method req)
                       (nip47_err NotImplemented (env_method_str env (req_method req) @ '' not implemented yet'')), w)
           | Some h \<Rightarrow>
              (case h_validate h req of
                 Err e \<Rightarrow> (error_response (req_method req) e, w)
               | Ok _ \<Rightarrow>
                  (case execute_request env h req caller w of
                     (Ok response, w') \<Rightarrow> (response, w')
                   | (Err e, w') \<Rightarrow> (error_response (req_method req) e, refund_world updates w'))))))"

subsection \<open>Encryption and transport\<close>

record out_event =
  out_kind :: nat
  out_content :: string
  out_tags :: "string list list"

record transport =
  tr_nip04_encrypt :: "pubkey \<Rightarrow> string \<Rightarrow> string + string"
  tr_nip04_decrypt :: "pubkey \<Rightarrow> string \<Rightarrow> string + string"
  tr_nip44_encrypt :: "pubkey \<Rightarrow> string \<Rightarrow> string + string"
  tr_nip44_decrypt :: "pubkey \<Rightarrow> string \<Rightarrow> string + string"
  tr_parse_request :: "string \<Rightarrow> string + nip47_request"
  tr_show_response :: "nip47_response \<Rightarrow> string"
  tr_send :: "out_event \<Rightarrow> out_event list \<Rightarrow> string + unit"
    \<comment> \<open>the relay's answer, given what was sent before\<close>

definition get_encryption_scheme :: "nostr_event \<Rightarrow> string" where
  "get_encryption_scheme ev =
     (case find_tag_value ''encryption'' (ev_tags ev) of None \<Rightarrow> ''nip04'' | Some s \<Rightarrow> s)"

definition decrypt_content :: "transport \<Rightarrow> pubkey \<Rightarrow> string \<Rightarrow> string \<Rightarrow> string + string" where
  "decrypt_content tr pubkey content scheme =
     (if scheme = ''nip44_v2'' then tr_nip44_decrypt tr pubkey content
      else if scheme = ''nip04'' then tr_nip04_decrypt tr pubkey content
      else Err (''unsupported encryption: '' @ scheme))"

definition encrypt_content :: "transport \<Rightarrow> pubkey \<Rightarrow> string \<Rightarrow> string \<Rightarrow> string + string" where
  "encrypt_content tr pubkey content scheme =
     (if scheme = ''nip44_v2'' then tr_nip44_encrypt tr pubkey content
      else if scheme = ''nip04'' then tr_nip04_encrypt tr pubkey content
      else Err (''unsupported encryption: '' @ scheme))"

text \<open>Sending: the relay's answer, and the event on record.\<close>

definition send_event ::
    "transport \<Rightarrow> out_event \<Rightarrow> 'w \<times> out_event list \<Rightarrow> (string + unit) \<times> 'w \<times> out_event list" where
  "send_event tr ev st = (case st of (w, sent) \<Rightarrow> (tr_send tr ev sent, w, sent @ [ev]))"

text \<open>An answer to an event: addressed to its author, about it, and marked with the scheme.\<close>

definition response_event :: "nat \<Rightarrow> string \<Rightarrow> nostr_event \<Rightarrow> string \<Rightarrow> out_event" where
  "response_event kind content ev scheme =
     \<lparr>out_kind = kind, out_content = content,
      out_tags = [[''p'', ev_pubkey ev], [''e'', ev_id ev]] @
        (if scheme \<noteq> ''nip04'' then [[''encryption'', scheme]] else [])\<rparr>"

definition handle_nwc_request ::
    "'n node_env \<Rightarrow> transport \<Rightarrow> nostr_event \<Rightarrow> nat \<Rightarrow> u64 \<Rightarrow> 'n world \<times> out_event list \<Rightarrow>
       (string + unit) \<times> 'n world \<times> out_event list" where
  "handle_nwc_request env tr ev micros now st =
     (let sender = ev_pubkey ev; scheme = get_encryption_scheme ev in
      if scheme \<noteq> ''nip04'' \<and> scheme \<noteq> ''nip44_v2'' then
        sbind (tr_nip04_encrypt tr sender (tr_show_response tr (error_response Method_GetInfo
                 (nip47_err UnsupportedEncryption (''unsupported encryption: '' @ scheme)))), st) (\<lambda>encrypted st.
          send_event tr (response_event 23195 encrypted ev ''nip04'') st)
      else
        sbind (decrypt_content tr sender (ev_content ev) scheme, st) (\<lambda>decrypted st.
        sbind (tr_parse_request tr decrypted, st) (\<lambda>request st.
        (case st of (w, sent) \<Rightarrow>
           case process_nwc_request env request sender micros now w of
             (response, w') \<Rightarrow>
               sbind (encrypt_content tr sender (tr_show_response tr response) scheme, w', sent) (\<lambda>encrypted st.
                 send_event tr (response_event 23195 encrypted ev scheme) st)))))"

end
