(* ===== verification/Control.thy ===== *)
theory Control
  imports Nwc_Dispatch
begin

section \<open>Node control: \<open>process_control_request\<close> and \<open>handle_control_request\<close> in \<open>src/lib.rs\<close>\<close>

text \<open>
  The second protocol: requests by which an owner's client opens and closes channels, manages
  peers and fees, and reads the graph. Parameters arrive as JSON values. Reading them into
  the parameter structures is code that \<open>serde\<close> generates and is the record
  \<open>control_env\<close>; where the program reads the JSON itself, so does the model. Results are
  kept as values; printing them is left to \<open>serde_json\<close>.
\<close>

subsection \<open>Requests and responses\<close>

datatype json =
    JNull | JBool bool | JNat u64 | JNegInt int | JFloat string | JString string
  | JArray "json list" | JObject "(string \<times> json) list"

fun json_get :: "string \<Rightarrow> json \<Rightarrow> json option" where
  "json_get key (JObject kvs) = map_of kvs key"
| "json_get key _ = None"

fun json_as_str :: "json \<Rightarrow> string option" where
  "json_as_str (JString s) = Some s"
| "json_as_str _ = None"

fun json_as_u64 :: "json \<Rightarrow> u64 option" where
  "json_as_u64 (JNat n) = Some n"
| "json_as_u64 _ = None"

record control_request =
  ctl_method :: string
  ctl_params :: json

record control_error =
  ctl_code :: string
  ctl_message :: string

datatype control_result =
    Control_Empty
  | Control_Status string
  | Control_Channels "ldk_channel_info list"
  | Control_Peers "ldk_peer_info list"
  | Control_Fees "ldk_channel_fees list"
  | Control_Nodes "network_node_info list"
  | Control_Node network_node_info
  | Control_Stats network_stats
  | Control_Channel network_channel_info
  | Control_Forwards "forwarding_entry list"
  | Control_Routes "found_route list"

record control_response =
  ctl_result_type :: string
  ctl_result :: "control_result option"
  ctl_error :: "control_error option"

record open_channel_params =
  oc_pubkey :: string
  oc_host :: "string option"
  oc_amount_sats :: u64
  oc_push_amount :: "u64 option"

record connect_peer_params =
  cp_pubkey :: string
  cp_host :: string

record close_channel_params =
  cc_id :: string
  cc_force :: bool

record set_channel_fees_params =
  sf_id :: string
  sf_base_fee :: "u32 option"
  sf_fee_rate :: "u32 option"

record page_params =
  pg_limit :: usize
  pg_offset :: usize

record forwarding_history_params = page_params +
  fh_from :: "u64 option"
  fh_until :: "u64 option"

record control_env =
  de_open_channel :: "json \<Rightarrow> string + open_channel_params"
  de_connect_peer :: "json \<Rightarrow> string + connect_peer_params"
  de_disconnect_peer :: "json \<Rightarrow> string + string"
  de_close_channel :: "json \<Rightarrow> string + close_channel_params"
  de_get_channel_fees :: "json \<Rightarrow> string + string option"
  de_set_channel_fees :: "json \<Rightarrow> string + set_channel_fees_params"
  de_list_network_nodes :: "json \<Rightarrow> string + page_params"
  de_get_network_node :: "json \<Rightarrow> string + string"
  de_get_network_channel :: "json \<Rightarrow> string + string"
  de_get_forwarding_history :: "json \<Rightarrow> string + forwarding_history_params"
  de_subscribe :: "json \<Rightarrow> string + string list"
  de_request :: "string \<Rightarrow> string + control_request"
  show_control_response :: "control_response \<Rightarrow> string + string"

definition control_error_of :: "string \<Rightarrow> string \<Rightarrow> control_error" where
  "control_error_of c msg = \<lparr>ctl_code = c, ctl_message = msg\<rparr>"

definition control_fail :: "string \<Rightarrow> string \<Rightarrow> string \<Rightarrow> control_response" where
  "control_fail method c msg =
     \<lparr>ctl_result_type = method, ctl_result = None, ctl_error = Some (control_error_of c msg)\<rparr>"

definition control_ok :: "string \<Rightarrow> control_result \<Rightarrow> control_response" where
  "control_ok method r = \<lparr>ctl_result_type = method, ctl_result = Some r, ctl_error = None\<rparr>"

definition SUPPORTED_CONTROL_METHODS :: "string list" where
  "SUPPORTED_CONTROL_METHODS =
     [''connect_peer'', ''open_channel'', ''close_channel'', ''list_channels'', ''list_peers'',
      ''disconnect_peer'', ''subscribe_notifications'', ''get_channel_fees'', ''set_channel_fees'',
      ''list_network_nodes'', ''get_network_node'', ''get_network_stats'', ''get_network_channel'',
      ''get_forwarding_history'', ''get_pending_htlcs'', ''query_routes'']"

definition KNOWN_NNC_NOTIFICATION_TYPES :: "string list" where
  "KNOWN_NNC_NOTIFICATION_TYPES = [''channel_opened'', ''channel_closed'']"

subsection \<open>Permission\<close>

definition authorize_control_method :: "pubkey \<Rightarrow> string \<Rightarrow> profile_state \<Rightarrow> control_error + unit" where
  "authorize_control_method caller method ps =
     rbind (ok_or (control_error_of ''UNAUTHORIZED'' ''unauthorized'') (get_usage_profile caller ps)) (\<lambda>profile.
       case profile_control profile of
         None \<Rightarrow> Err (control_error_of ''RESTRICTED'' ''control access denied, missing control permissions'')
       | Some methods \<Rightarrow>
          if methods = [] \<or> map_of methods method = None \<and> map_of methods ''ALL'' = None
          then Err (control_error_of ''RESTRICTED'' ''control access denied, insufficient permission'')
          else Ok ())"

subsection \<open>One definition per method\<close>

text \<open>The two refusals that most methods begin with.\<close>

definition with_params ::
    "string \<Rightarrow> string + 'p \<Rightarrow> 'n world \<Rightarrow> ('p \<Rightarrow> control_response \<times> 'n world) \<Rightarrow> control_response \<times> 'n world" where
  "with_params method parsed w f =
     (case parsed of
        Err e \<Rightarrow> (control_fail method ''OTHER'' (''invalid '' @ method @ '' params: '' @ e), w)
      | Ok params \<Rightarrow> f params)"

definition with_service ::
    "string \<Rightarrow> 'n world \<Rightarrow> (unit \<Rightarrow> control_response \<times> 'n world) \<Rightarrow> control_response \<times> 'n world" where
  "with_service method w f =
     (case w_service w of
        None \<Rightarrow> (control_fail method ''OTHER'' ''ldk service unavailable'', w)
      | Some _ \<Rightarrow> f ())"

text \<open>The answer to a call of the service.\<close>

definition control_done ::
    "string \<Rightarrow> control_result \<Rightarrow> (ldk_service_error + unit) \<times> 'n world \<Rightarrow> control_response \<times> 'n world" where
  "control_done method r call =
     (case call of
        (Err e, w) \<Rightarrow> (control_fail method ''OTHER'' (method @ '' failed: '' @ show_ldk_error e), w)
      | (Ok _, w) \<Rightarrow> (control_ok method r, w))"

definition control_open_channel ::
    "'n ldk_api \<Rightarrow> string + open_channel_params \<Rightarrow> 'n world \<Rightarrow> control_response \<times> 'n world" where
  "control_open_channel api parsed w =
     with_params ''open_channel'' parsed w (\<lambda>params.
       if oc_amount_sats params = 0
       then (control_fail ''open_channel'' ''OTHER'' ''amount_sats must be greater than 0'', w)
       else with_service ''open_channel'' w (\<lambda>_.
         case (case oc_host params of
                 Some host \<Rightarrow> Some host
               | None \<Rightarrow> map_option pi_address
                   (find (\<lambda>p. pi_pubkey p = oc_pubkey params \<and> pi_connected p) (list_peers api (w_node w)))) of
           None \<Rightarrow> (control_fail ''open_channel'' ''OTHER'' ''peer not connected and no host provided'', w)
         | Some addr \<Rightarrow>
            control_done ''open_channel'' Control_Empty
              (call_node (open_channel api (oc_pubkey params) addr (oc_amount_sats params) (oc_push_amount params)) w)))"

definition control_connect_peer ::
    "'n ldk_api \<Rightarrow> string + connect_peer_params \<Rightarrow> 'n world \<Rightarrow> control_response \<times> 'n world" where
  "control_connect_peer api parsed w =
     with_params ''connect_peer'' parsed w (\<lambda>params.
     with_service ''connect_peer'' w (\<lambda>_.
       control_done ''connect_peer'' (Control_Status ''connected'')
         (call_node (connect_peer api (cp_pubkey params) (cp_host params)) w)))"

definition control_disconnect_peer ::
    "'n ldk_api \<Rightarrow> string + string \<Rightarrow> 'n world \<Rightarrow> control_response \<times> 'n world" where
  "control_disconnect_peer api parsed w =
     with_params ''disconnect_peer'' parsed w (\<lambda>pubkey.
     with_service ''disconnect_peer'' w (\<lambda>_.
       control_done ''disconnect_peer'' (Control_Status ''disconnected'')
         (call_node (disconnect_peer api pubkey) w)))"

definition control_list_channels :: "'n ldk_api \<Rightarrow> 'n world \<Rightarrow> control_response" where
  "control_list_channels api w =
     control_ok ''list_channels'' (Control_Channels
       (case w_service w of None \<Rightarrow> [] | Some _ \<Rightarrow> list_channels api (w_node w)))"

definition control_list_peers :: "'n ldk_api \<Rightarrow> 'n world \<Rightarrow> control_response" where
  "control_list_peers api w =
     control_ok ''list_peers'' (Control_Peers
       (case w_service w of None \<Rightarrow> [] | Some _ \<Rightarrow> list_peers api (w_node w)))"

definition control_close_channel ::
    "'n ldk_api \<Rightarrow> string + close_channel_params \<Rightarrow> 'n world \<Rightarrow> control_response \<times> 'n world" where
  "control_close_channel api parsed w =
     with_params ''close_channel'' parsed w (\<lambda>params.
     with_service ''close_channel'' w (\<lambda>_.
       control_done ''close_channel'' Control_Empty
         (call_node (close_channel api (cc_id params) (cc_force params)) w)))"

definition control_get_channel_fees ::
    "'n ldk_api \<Rightarrow> string + string option \<Rightarrow> 'n world \<Rightarrow> control_response \<times> 'n world" where
  "control_get_channel_fees api parsed w =
     with_params ''get_channel_fees'' parsed w (\<lambda>i.
       (control_ok ''get_channel_fees'' (Control_Fees
          (case w_service w of None \<Rightarrow> [] | Some _ \<Rightarrow> get_channel_fees api i (w_node w))), w))"

definition control_set_channel_fees ::
    "'n ldk_api \<Rightarrow> string + set_channel_fees_params \<Rightarrow> 'n world \<Rightarrow> control_response \<times> 'n world" where
  "control_set_channel_fees api parsed w =
     with_params ''set_channel_fees'' parsed w (\<lambda>params.
     with_service ''set_channel_fees'' w (\<lambda>_.
       control_done ''set_channel_fees'' Control_Empty
         (call_node (set_channel_fees api (sf_id params) (sf_base_fee params) (sf_fee_rate params)) w)))"

definition control_list_network_nodes ::
    "'n ldk_api \<Rightarrow> string + page_params \<Rightarrow> 'n world \<Rightarrow> control_response \<times> 'n world" where
  "control_list_network_nodes api parsed w =
     with_params ''list_network_nodes'' parsed w (\<lambda>params.
       (control_ok ''list_network_nodes'' (Control_Nodes
          (case w_service w of
             None \<Rightarrow> []
           | Some _ \<Rightarrow> list_network_nodes api (pg_limit params) (pg_offset params) (w_node w))), w))"

definition control_get_network_node ::
    "'n ldk_api \<Rightarrow> string + string \<Rightarrow> 'n world \<Rightarrow> control_response \<times> 'n world" where
  "control_get_network_node api parsed w =
     with_params ''get_network_node'' parsed w (\<lambda>pubkey.
     with_service ''get_network_node'' w (\<lambda>_.
       (case get_network_node api pubkey (w_node w) of
          Ok (Some node) \<Rightarrow> control_ok ''get_network_node'' (Control_Node node)
        | Ok None \<Rightarrow> control_fail ''get_network_node'' ''NOT_FOUND'' (''node not found: '' @ pubkey)
        | Err e \<Rightarrow> control_fail ''get_network_node'' ''OTHER'' (''get_network_node failed: '' @ show_ldk_error e), w)))"

definition control_get_network_stats :: "'n ldk_api \<Rightarrow> 'n world \<Rightarrow> control_response" where
  "control_get_network_stats api w =
     control_ok ''get_network_stats'' (Control_Stats
       (case w_service w of
          None \<Rightarrow> \<lparr>ns_num_nodes = 0, ns_num_channels = 0, ns_total_capacity = 0,
                    ns_avg_channel_size = 0, ns_max_channel_size = 0\<rparr>
        | Some _ \<Rightarrow> get_network_stats api (w_node w)))"

definition control_get_network_channel ::
    "'n ldk_api \<Rightarrow> string + string \<Rightarrow> 'n world \<Rightarrow> control_response \<times> 'n world" where
  "control_get_network_channel api parsed w =
     with_params ''get_network_channel'' parsed w (\<lambda>scid.
     with_service ''get_network_channel'' w (\<lambda>_.
       (case get_network_channel api scid (w_node w) of
          Ok (Some ch) \<Rightarrow> control_ok ''get_network_channel'' (Control_Channel ch)
        | Ok None \<Rightarrow> control_fail ''get_network_channel'' ''NOT_FOUND'' (''channel not found: '' @ scid)
        | Err e \<Rightarrow> control_fail ''get_network_channel'' ''OTHER''
            (''get_network_channel failed: '' @ show_ldk_error e), w)))"

definition control_get_forwarding_history ::
    "string + forwarding_history_params \<Rightarrow> 'n world \<Rightarrow> control_response \<times> 'n world" where
  "control_get_forwarding_history parsed w =
     with_params ''get_forwarding_history'' parsed w (\<lambda>params.
       (control_ok ''get_forwarding_history'' (Control_Forwards
          (get_history (fh_from params) (fh_until params) (pg_limit params) (pg_offset params) (w_history w))), w))"

definition control_subscribe ::
    "pubkey \<Rightarrow> string + string list \<Rightarrow> 'n world \<Rightarrow> control_response \<times> 'n world" where
  "control_subscribe caller parsed w =
     with_params ''subscribe_notifications'' parsed w (\<lambda>types.
       case first_unknown KNOWN_NNC_NOTIFICATION_TYPES types of
         Some t \<Rightarrow> (control_fail ''subscribe_notifications'' ''OTHER'' (''unknown notification type: '' @ t), w)
       | None \<Rightarrow> (control_ok ''subscribe_notifications'' Control_Empty, apply_subscription caller types w))"

definition control_query_routes :: "'n ldk_api \<Rightarrow> json \<Rightarrow> 'n world \<Rightarrow> control_response" where
  "control_query_routes api params w =
     (let destination = or_empty (Option.bind (json_get ''destination'' params) json_as_str);
          amount = or_zero (Option.bind (json_get ''amount'' params) json_as_u64);
          max_routes = (case Option.bind (json_get ''max_routes'' params) json_as_u64 of
                          None \<Rightarrow> 1 | Some k \<Rightarrow> unat k)
      in if destination = [] \<or> amount = 0
         then control_fail ''query_routes'' ''OTHER'' ''destination and amount required''
         else (case (case w_service w of
                       None \<Rightarrow> []
                     | Some _ \<Rightarrow> find_routes api destination amount max_routes (w_node w)) of
                 [] \<Rightarrow> control_fail ''query_routes'' ''NOT_FOUND'' ''no route found to destination''
               | routes \<Rightarrow> control_ok ''query_routes'' (Control_Routes routes)))"

subsection \<open>The dispatch\<close>

definition process_control_request ::
    "'n ldk_api \<Rightarrow> control_env \<Rightarrow> control_request \<Rightarrow> pubkey \<Rightarrow> 'n world \<Rightarrow> control_response \<times> 'n world" where
  "process_control_request api ce req caller w =
     (let method = ctl_method req; params = ctl_params req in
      case authorize_control_method caller method (w_profiles w) of
        Err e \<Rightarrow> (\<lparr>ctl_result_type = method, ctl_result = None, ctl_error = Some e\<rparr>, w)
      | Ok _ \<Rightarrow>
        if method \<notin> set SUPPORTED_CONTROL_METHODS
        then (control_fail method ''NOT_IMPLEMENTED'' (''unknown control method: '' @ method), w)
        else if method = ''open_channel'' then control_open_channel api (de_open_channel ce params) w
        else if method = ''connect_peer'' then control_connect_peer api (de_connect_peer ce params) w
        else if method = ''disconnect_peer'' then control_disconnect_peer api (de_disconnect_peer ce params) w
        else if method = ''list_channels'' then (control_list_channels api w, w)
        else if method = ''list_peers'' then (control_list_peers api w, w)
        else if method = ''close_channel'' then control_close_channel api (de_close_channel ce params) w
        else if method = ''get_channel_fees'' then control_get_channel_fees api (de_get_channel_fees ce params) w
        else if method = ''set_channel_fees'' then control_set_channel_fees api (de_set_channel_fees ce params) w
        else if method = ''list_network_nodes'' then control_list_network_nodes api (de_list_network_nodes ce params) w
        else if method = ''get_network_node'' then control_get_network_node api (de_get_network_node ce params) w
        else if method = ''get_network_stats'' then (control_get_network_stats api w, w)
        else if method = ''get_network_channel'' then control_get_network_channel api (de_get_network_channel ce params) w
        else if method = ''get_forwarding_history''
        then control_get_forwarding_history (de_get_forwarding_history ce params) w
        else if method = ''subscribe_notifications'' then control_subscribe caller (de_subscribe ce params) w
        else if method = ''query_routes'' then (control_query_routes api params w, w)
        else (control_fail method ''NOT_IMPLEMENTED'' ''control method not implemented yet'', w))"

subsection \<open>Transport\<close>

definition handle_control_request ::
    "'n ldk_api \<Rightarrow> control_env \<Rightarrow> transport \<Rightarrow> nostr_event \<Rightarrow> 'n world \<times> out_event list \<Rightarrow>
       (string + unit) \<times> 'n world \<times> out_event list" where
  "handle_control_request api ce tr ev st =
     (let sender = ev_pubkey ev; scheme = get_encryption_scheme ev in
      if scheme \<noteq> ''nip04'' \<and> scheme \<noteq> ''nip44_v2'' then
        sbind (show_control_response ce (control_fail ''unknown'' ''UNSUPPORTED_ENCRYPTION''
                 (''unsupported encryption: '' @ scheme)), st) (\<lambda>text st.
        sbind (tr_nip04_encrypt tr sender text, st) (\<lambda>encrypted st.
          send_event tr (response_event 23199 encrypted ev ''nip04'') st))
      else
        sbind (decrypt_content tr sender (ev_content ev) scheme, st) (\<lambda>decrypted st.
        (case st of (w, sent) \<Rightarrow>
           case (case de_request ce decrypted of
                   Ok request \<Rightarrow> process_control_request api ce request sender w
                 | Err e \<Rightarrow> (control_fail ''unknown'' ''OTHER'' (''invalid control request payload: '' @ e), w)) of
             (response, w') \<Rightarrow>
               sbind (show_control_response ce response, w', sent) (\<lambda>text st.
               sbind (encrypt_content tr sender text scheme, st) (\<lambda>encrypted st.
                 send_event tr (response_event 23199 encrypted ev scheme) st)))))"

end
