(* ===== verification/Node_Events.thy ===== *)
theory Node_Events
  imports Control
begin

section \<open>Events of the node: \<open>handle_ldk_event\<close> and its notifications in \<open>src/lib.rs\<close>\<close>

text \<open>
  What the node reports becomes a notification for the subscribed clients, a payment on
  record for an offer, or an entry of the forwarding history. Printing of notifications
  belongs to crates and is the record \<open>notify_env\<close>. Identifiers of channels are their
  texts.
\<close>

subsection \<open>Events and notifications\<close>

datatype closure_reason =
    CounterpartyForceClosed | HolderForceClosed | LegacyCooperativeClosure
  | LocallyInitiatedCooperativeClosure | CounterpartyInitiatedCooperativeClosure
  | Other_Closure string

datatype ldk_event =
    Payment_Received "u8 list" u64
      \<comment> \<open>hash, amount\<close>
  | Payment_Successful "u8 list" "u64 option"
      \<comment> \<open>hash, fee\<close>
  | Payment_Claimable "u8 list" u64 "u32 option"
      \<comment> \<open>hash, amount, deadline\<close>
  | Channel_Ready string "node_id option" "(string \<times> u32) option"
      \<comment> \<open>channel, counterparty, funding output\<close>
  | Channel_Closed string "node_id option" "closure_reason option"
  | Payment_Forwarded string string "u64 option" "u64 option"
      \<comment> \<open>from, to, fee, outgoing amount\<close>
  | Other_Event

record payment_notification =
  pn_transaction_type :: "transaction_type option"
  pn_state :: "transaction_state option"
  pn_invoice :: string
  pn_description :: "string option"
  pn_description_hash :: "string option"
  pn_preimage :: string
  pn_payment_hash :: string
  pn_amount :: u64
  pn_fees_paid :: u64
  pn_created_at :: "u64 option"
  pn_expires_at :: "u64 option"
  pn_settled_at :: u64

record hold_invoice_notification =
  hn_transaction_type :: transaction_type
  hn_state :: "transaction_state option"
  hn_invoice :: string
  hn_description :: "string option"
  hn_description_hash :: "string option"
  hn_payment_hash :: string
  hn_amount :: u64
  hn_created_at :: u64
  hn_expires_at :: u64
  hn_settle_deadline :: u32

record channel_opened_notification =
  on_id :: string
  on_short_channel_id :: "string option"
  on_peer_pubkey :: string
  on_capacity :: u64
  on_local_balance :: u64
  on_remote_balance :: u64
  on_funding_txid :: string
  on_is_private :: bool

record channel_closed_notification =
  cn_id :: string
  cn_short_channel_id :: "string option"
  cn_peer_pubkey :: string
  cn_capacity :: u64
  cn_closing_txid :: "string option"
  cn_close_type :: string

datatype notification =
    Notify_PaymentReceived payment_notification
  | Notify_PaymentSent payment_notification
  | Notify_HoldInvoiceAccepted hold_invoice_notification
  | Notify_ChannelOpened channel_opened_notification
  | Notify_ChannelClosed channel_closed_notification

record notify_env =
  ne_show :: "notification \<Rightarrow> string"
  ne_pubkey_from_hex :: "string \<Rightarrow> string + pubkey"

definition hex_payment_hash :: "u8 list \<Rightarrow> string" where
  "hex_payment_hash bytes = hex_string bytes"

subsection \<open>The builders\<close>

definition build_payment_received_notification :: "u64 \<Rightarrow> string \<Rightarrow> u64 \<Rightarrow> notification" where
  "build_payment_received_notification now payment_hash amount = Notify_PaymentReceived
     \<lparr>pn_transaction_type = Some Incoming, pn_state = Some Settled, pn_invoice = [],
      pn_description = None, pn_description_hash = None, pn_preimage = [],
      pn_payment_hash = payment_hash, pn_amount = amount, pn_fees_paid = 0,
      pn_created_at = Some now, pn_expires_at = None, pn_settled_at = now\<rparr>"

definition build_payment_sent_notification :: "u64 \<Rightarrow> string \<Rightarrow> u64 option \<Rightarrow> notification" where
  "build_payment_sent_notification now payment_hash fee = Notify_PaymentSent
     \<lparr>pn_transaction_type = Some Outgoing, pn_state = Some Settled, pn_invoice = [],
      pn_description = None, pn_description_hash = None, pn_preimage = [],
      pn_payment_hash = payment_hash, pn_amount = 0, pn_fees_paid = or_zero fee,
      pn_created_at = Some now, pn_expires_at = None, pn_settled_at = now\<rparr>"

definition build_hold_invoice_accepted_notification ::
    "u64 \<Rightarrow> string \<Rightarrow> u64 \<Rightarrow> u32 option \<Rightarrow> notification" where
  "build_hold_invoice_accepted_notification now payment_hash amount deadline = Notify_HoldInvoiceAccepted
     \<lparr>hn_transaction_type = Incoming, hn_state = Some Accepted, hn_invoice = [],
      hn_description = None, hn_description_hash = None, hn_payment_hash = payment_hash,
      hn_amount = amount, hn_created_at = now, hn_expires_at = now,
      hn_settle_deadline = (case deadline of None \<Rightarrow> 0 | Some d \<Rightarrow> d)\<rparr>"

definition show_counterparty :: "'n ldk_api \<Rightarrow> node_id option \<Rightarrow> string" where
  "show_counterparty api cp = or_empty (map_option (api_show_pubkey api) cp)"

definition build_channel_opened_notification ::
    "'n ldk_api \<Rightarrow> 'n \<Rightarrow> string \<Rightarrow> node_id option \<Rightarrow> (string \<times> u32) option \<Rightarrow> notification" where
  "build_channel_opened_notification api n channel_id counterparty funding =
     (let channel = find (\<lambda>c. ch_id c = channel_id) (list_channels api n) in
      Notify_ChannelOpened
        \<lparr>on_id = channel_id,
         on_short_channel_id = Option.bind channel ch_short_channel_id,
         on_peer_pubkey = show_counterparty api counterparty,
         on_capacity = or_zero (map_option ch_capacity channel),
         on_local_balance = or_zero (map_option ch_local_balance channel),
         on_remote_balance = or_zero (map_option ch_remote_balance channel),
         on_funding_txid = or_empty (map_option fst funding),
         on_is_private = (case channel of None \<Rightarrow> False | Some c \<Rightarrow> ch_is_private c)\<rparr>)"

definition close_type :: "closure_reason option \<Rightarrow> string" where
  "close_type reason =
     (case reason of
        Some CounterpartyForceClosed \<Rightarrow> ''force''
      | Some HolderForceClosed \<Rightarrow> ''force''
      | Some LegacyCooperativeClosure \<Rightarrow> ''cooperative''
      | Some LocallyInitiatedCooperativeClosure \<Rightarrow> ''cooperative''
      | Some CounterpartyInitiatedCooperativeClosure \<Rightarrow> ''cooperative''
      | _ \<Rightarrow> ''unknown'')"

definition build_channel_closed_notification ::
    "'n ldk_api \<Rightarrow> string \<Rightarrow> node_id option \<Rightarrow> closure_reason option \<Rightarrow> notification" where
  "build_channel_closed_notification api channel_id counterparty reason = Notify_ChannelClosed
     \<lparr>cn_id = channel_id, cn_short_channel_id = None,
      cn_peer_pubkey = show_counterparty api counterparty, cn_capacity = 0,
      cn_closing_txid = None, cn_close_type = close_type reason\<rparr>"

subsection \<open>The publishers\<close>

definition notification_event :: "nat \<Rightarrow> string \<Rightarrow> pubkey \<Rightarrow> out_event" where
  "notification_event kind content pk =
     \<lparr>out_kind = kind, out_content = content, out_tags = [[''p'', pk]]\<rparr>"

fun publish_nwc_to ::
    "transport \<Rightarrow> notify_env \<Rightarrow> string \<Rightarrow> string list \<Rightarrow> 'w \<times> out_event list \<Rightarrow>
       (string + unit) \<times> 'w \<times> out_event list" where
  "publish_nwc_to tr ne payload [] st = (Ok (), st)"
| "publish_nwc_to tr ne payload (sub # subs) st =
     sbind (ne_pubkey_from_hex ne sub, st) (\<lambda>pk st.
     sbind (tr_nip04_encrypt tr pk payload, st) (\<lambda>encrypted st.
     sbind (send_event tr (notification_event 23196 encrypted pk) st) (\<lambda>_ st.
     sbind (tr_nip44_encrypt tr pk payload, st) (\<lambda>encrypted st.
     sbind (send_event tr (notification_event 23197 encrypted pk) st) (\<lambda>_ st.
       publish_nwc_to tr ne payload subs st)))))"

fun publish_nnc_to ::
    "transport \<Rightarrow> notify_env \<Rightarrow> string \<Rightarrow> string list \<Rightarrow> 'w \<times> out_event list \<Rightarrow>
       (string + unit) \<times> 'w \<times> out_event list" where
  "publish_nnc_to tr ne payload [] st = (Ok (), st)"
| "publish_nnc_to tr ne payload (sub # subs) st =
     sbind (ne_pubkey_from_hex ne sub, st) (\<lambda>pk st.
     sbind (tr_nip44_encrypt tr pk payload, st) (\<lambda>encrypted st.
     sbind (send_event tr (notification_event 23200 encrypted pk) st) (\<lambda>_ st.
       publish_nnc_to tr ne payload subs st)))"

definition publish_nwc_notification ::
    "transport \<Rightarrow> notify_env \<Rightarrow> string \<Rightarrow> string \<Rightarrow> 'n world \<times> out_event list \<Rightarrow>
       (string + unit) \<times> 'n world \<times> out_event list" where
  "publish_nwc_notification tr ne notification_type payload st =
     publish_nwc_to tr ne payload (get_subscribers notification_type (w_subscriptions (fst st))) st"

definition publish_nnc_notification ::
    "transport \<Rightarrow> notify_env \<Rightarrow> string \<Rightarrow> string \<Rightarrow> 'n world \<times> out_event list \<Rightarrow>
       (string + unit) \<times> 'n world \<times> out_event list" where
  "publish_nnc_notification tr ne notification_type payload st =
     publish_nnc_to tr ne payload (get_subscribers notification_type (w_subscriptions (fst st))) st"

subsection \<open>The handler\<close>

text \<open>A received payment, once published, is put on record for its offer.\<close>

definition record_offer_payment ::
    "'n ldk_api \<Rightarrow> string \<Rightarrow> u64 \<Rightarrow> 'n world \<Rightarrow> 'n world outcome" where
  "record_offer_payment api hex_hash amount w =
     (case lookup_payment_by_hash api hex_hash (w_node w) of
        Panicked \<Rightarrow> Panicked
      | Returned (Err _) \<Rightarrow> Returned w
      | Returned (Ok details) \<Rightarrow> Returned
          (if pd_direction details = Inbound then
             (case pd_kind details of
                Kind_Bolt12Offer h p oid \<Rightarrow>
                  (case find_by_offer_id oid (w_offers w) of
                     None \<Rightarrow> w
                   | Some key \<Rightarrow> w\<lparr>w_offers := record_payment key amount (w_offers w)\<rparr>)
              | _ \<Rightarrow> w)
           else w))"

definition forwarding_entry_of ::
    "u64 \<Rightarrow> string \<Rightarrow> string \<Rightarrow> u64 option \<Rightarrow> u64 option \<Rightarrow> forwarding_entry" where
  "forwarding_entry_of now from_id to_id fee_earned_msat forwarded =
     (let fee = or_zero fee_earned_msat; outgoing = or_zero forwarded in
      \<lparr>incoming_channel_id = from_id, outgoing_channel_id = to_id,
       incoming_amount = u64_saturating_add outgoing fee, outgoing_amount = outgoing,
       fee_earned = fee, settled_at = now\<rparr>)"

definition handle_ldk_event ::
    "'n ldk_api \<Rightarrow> transport \<Rightarrow> notify_env \<Rightarrow> u64 \<Rightarrow> ldk_event \<Rightarrow> 'n world \<times> out_event list \<Rightarrow>
       (string + unit) outcome \<times> 'n world \<times> out_event list" where
  "handle_ldk_event api tr ne now event st =
     (case event of
        Payment_Received payment_hash amount \<Rightarrow>
          (let hex_hash = hex_payment_hash payment_hash in
           case publish_nwc_notification tr ne ''payment_received''
                  (ne_show ne (build_payment_received_notification now hex_hash amount)) st of
             (Err e, st) \<Rightarrow> (Returned (Err e), st)
           | (Ok _, (w, sent)) \<Rightarrow>
               (case record_offer_payment api hex_hash amount w of
                  Panicked \<Rightarrow> (Panicked, (w, sent))
                | Returned w' \<Rightarrow> (Returned (Ok ()), (w', sent))))
      | Payment_Successful payment_hash fee \<Rightarrow>
          (case publish_nwc_notification tr ne ''payment_sent''
                  (ne_show ne (build_payment_sent_notification now (hex_payment_hash payment_hash) fee)) st of
             (r, st) \<Rightarrow> (Returned r, st))
      | Payment_Claimable payment_hash amount deadline \<Rightarrow>
          (case publish_nwc_notification tr ne ''hold_invoice_accepted''
                  (ne_show ne (build_hold_invoice_accepted_notification now
                     (hex_payment_hash payment_hash) amount deadline)) st of
             (r, st) \<Rightarrow> (Returned r, st))
      | Channel_Ready channel_id counterparty funding \<Rightarrow>
          (case publish_nnc_notification tr ne ''channel_opened''
                  (ne_show ne (build_channel_opened_notification api (w_node (fst st)) channel_id counterparty funding)) st of
             (r, st) \<Rightarrow> (Returned r, st))
      | Channel_Closed channel_id counterparty reason \<Rightarrow>
          (case publish_nnc_notification tr ne ''channel_closed''
                  (ne_show ne (build_channel_closed_notification api channel_id counterparty reason)) st of
             (r, st) \<Rightarrow> (Returned r, st))
      | Payment_Forwarded from_id to_id fee forwarded \<Rightarrow>
          (case st of (w, sent) \<Rightarrow>
             (Returned (Ok ()),
              w\<lparr>w_history := record_forward (forwarding_entry_of now from_id to_id fee forwarded) (w_history w)\<rparr>, sent))
      | Other_Event \<Rightarrow> (Returned (Ok ()), st))"

end
