(* ===== verification/Handler_Laws.thy ===== *)
theory Handler_Laws
  imports Handlers
begin

section \<open>What the handlers leave alone\<close>

text \<open>
  Whatever a handler does, it acts on the node, the offers and the addresses only, and keeps
  the two stores well-formed. The rules follow the way the handlers are built up.
\<close>

named_theorems frame_intros "how the handlers' building blocks act on the state"

definition acts_on_wallet :: "'n world \<Rightarrow> 'n world \<Rightarrow> bool" where
  "acts_on_wallet w w' \<longleftrightarrow>
     w' = w\<lparr>w_node := w_node w', w_offers := w_offers w', w_addresses := w_addresses w'\<rparr> \<and>
     (wf_offers (w_offers w) \<longrightarrow> wf_offers (w_offers w')) \<and>
     (wf_addresses (w_addresses w) \<longrightarrow> wf_addresses (w_addresses w'))"

lemma acts_refl [frame_intros, simp]: "acts_on_wallet w w"
  by (simp add: acts_on_wallet_def)

lemma acts_trans: "acts_on_wallet w w' \<Longrightarrow> acts_on_wallet w' w'' \<Longrightarrow> acts_on_wallet w w''"
  unfolding acts_on_wallet_def
  by (cases w; cases w'; cases w'') simp

lemma acts_fields:
  assumes "acts_on_wallet w w'"
  shows "w_service w' = w_service w" "w_subscriptions w' = w_subscriptions w"
    "w_history w' = w_history w" "w_profiles w' = w_profiles w"
    "w_forced_failures w' = w_forced_failures w" "w_node_alias w' = w_node_alias w"
    "w_own_pubkey w' = w_own_pubkey w"
  using assms unfolding acts_on_wallet_def by (cases w; cases w'; simp)+

lemma acts_updates [frame_intros]:
  "acts_on_wallet w (w\<lparr>w_node := n\<rparr>)"
  "acts_on_wallet w (w\<lparr>w_offers := insert_offer offer d a oid (w_offers w)\<rparr>)"
  "acts_on_wallet w (w\<lparr>w_offers := snd (disable_offer offer (w_offers w))\<rparr>)"
  "acts_on_wallet w (w\<lparr>w_addresses := register_address addr (w_addresses w)\<rparr>)"
  by (simp_all add: acts_on_wallet_def wf_intros)

lemma acts_call_node [frame_intros]: "acts_on_wallet w (snd (call_node f w))"
  by (simp add: call_node_def acts_updates split: prod.splits)

lemma acts_sbind [frame_intros]:
  "acts_on_wallet w (snd call) \<Longrightarrow> (\<And>x w'. acts_on_wallet w' (snd (f x w'))) \<Longrightarrow>
     acts_on_wallet w (snd (sbind call f))"
  by (cases call; cases "fst call") (auto intro: acts_trans)

lemma acts_smap_err [frame_intros]:
  "acts_on_wallet w (snd call) \<Longrightarrow> acts_on_wallet w (snd (smap_err g call))"
  by (simp add: smap_err_def)

lemma acts_pair [frame_intros]: "acts_on_wallet w w' \<Longrightarrow> acts_on_wallet w (snd (r, w'))"
  by simp

lemma acts_case [frame_intros]:
  "(\<And>p. acts_on_wallet w (snd (g p))) \<Longrightarrow> acts_on_wallet w (snd h) \<Longrightarrow>
     acts_on_wallet w (snd (case v of None \<Rightarrow> h | Some p \<Rightarrow> g p))"
  "(\<And>p q. acts_on_wallet w (snd (k p q))) \<Longrightarrow> acts_on_wallet w (snd h) \<Longrightarrow>
     acts_on_wallet w (snd (case xs of [] \<Rightarrow> h | p # q \<Rightarrow> k p q))"
  "acts_on_wallet w (snd h) \<Longrightarrow> acts_on_wallet w (snd h') \<Longrightarrow>
     acts_on_wallet w (snd (if b then h else h'))"
  by (auto split: option.splits list.splits)

lemma payment_frames [frame_intros]:
  "acts_on_wallet w (snd (pay_invoice_execute env req w))"
  "acts_on_wallet w (snd (pay_keysend_execute env req w))"
  "acts_on_wallet w (snd (pay_onchain_execute env req w))"
  "acts_on_wallet w (snd (pay_offer_execute env req w))"
  "acts_on_wallet w (snd (pay_bip321_execute env req w))"
  by (cases "req_params req"; auto simp: pay_invoice_execute_def pay_keysend_execute_def
      pay_onchain_execute_def pay_offer_execute_def pay_bip321_execute_def Let_def
      intro!: frame_intros split: option.splits)+

text \<open>The handlers that only read.\<close>

lemma readers_keep_state [simp]:
  "snd (get_info_execute env caller w) = w"
  "snd (lookup_invoice_execute env now req w) = w"
  "snd (list_transactions_execute env req w) = w"
  "snd (list_invoices_execute env req w) = w"
  "snd (lookup_offer_execute req w) = w"
  "snd (lookup_address_execute req w) = w"
  "snd (list_offers_execute req w) = w"
  "snd (list_addresses_execute req w) = w"
  "snd (estimate_onchain_fees_execute w) = w"
  "snd (make_hold_invoice_execute now w) = w"
  "snd (cancel_hold_invoice_execute w) = w"
  "snd (settle_hold_invoice_execute w) = w"
proof -
  show "snd (get_info_execute env caller w) = w"
    by (simp add: get_info_execute_def Let_def split: option.split)
  show "snd (lookup_invoice_execute env now req w) = w"
    by (cases "w_service w"; cases "req_params req") (simp_all add: lookup_invoice_execute_def Let_def)
  show "snd (list_transactions_execute env req w) = w"
    by (cases "w_service w"; cases "req_params req") (simp_all add: list_transactions_execute_def Let_def)
  show "snd (list_invoices_execute env req w) = w"
    by (cases "w_service w"; cases "req_params req") (simp_all add: list_invoices_execute_def Let_def)
  show "snd (lookup_offer_execute req w) = w"
    by (cases "req_params req") (simp_all add: lookup_offer_execute_def)
  show "snd (lookup_address_execute req w) = w"
    by (cases "req_params req") (simp_all add: lookup_address_execute_def)
  show "snd (list_offers_execute req w) = w"
    by (cases "req_params req") (simp_all add: list_offers_execute_def Let_def)
  show "snd (list_addresses_execute req w) = w"
    by (cases "req_params req") (simp_all add: list_addresses_execute_def)
qed (simp_all add: estimate_onchain_fees_execute_def make_hold_invoice_execute_def
    cancel_hold_invoice_execute_def settle_hold_invoice_execute_def)

lemma estimate_routing_fees_keeps_state [simp]: "snd (estimate_routing_fees_execute env req w) = w"
  by (cases "req_params req") (simp_all add: estimate_routing_fees_execute_def split: list.split)

lemma get_balance_frame [frame_intros]: "acts_on_wallet w (snd (get_balance_execute env w))"
  by (auto simp: get_balance_execute_def intro!: frame_intros)

lemma disable_offer_frame [frame_intros]: "acts_on_wallet w (snd (disable_offer_execute req w))"
proof -
  have "acts_on_wallet w (w\<lparr>w_offers := store\<rparr>)" if "disable_offer offer (w_offers w) = (b, store)"
    for offer b store
    using acts_updates(3) [of w offer] that by simp
  then show ?thesis
    by (cases "req_params req") (auto simp: disable_offer_execute_def split: prod.splits bool.splits)
qed

lemma acts_updates_after [frame_intros]:
  "acts_on_wallet w w' \<Longrightarrow> acts_on_wallet w (w'\<lparr>w_offers := insert_offer offer d a oid (w_offers w')\<rparr>)"
  "acts_on_wallet w w' \<Longrightarrow> acts_on_wallet w (w'\<lparr>w_addresses := register_address addr (w_addresses w')\<rparr>)"
  using acts_trans acts_updates by blast+

lemma acts_call: "call_node f w = (r, w') \<Longrightarrow> acts_on_wallet w w'"
  by (metis acts_call_node snd_conv)

text \<open>A call whose result decides how the state goes on.\<close>

lemma acts_match:
  assumes "\<And>x w'. acts_on_wallet w w' \<Longrightarrow> acts_on_wallet w (snd (snd (good x w')))"
    and "\<And>e w'. acts_on_wallet w w' \<Longrightarrow> acts_on_wallet w (snd (snd (bad e w')))"
  shows "acts_on_wallet w (snd (snd (case call_node f w of (Ok x, w') \<Rightarrow> good x w' | (Err e, w') \<Rightarrow> bad e w')))"
  using acts_call [of f w] assms by (auto split: prod.splits sum.splits)

lemma acts_branch:
  "acts_on_wallet w (snd (snd h)) \<Longrightarrow> acts_on_wallet w (snd (snd h')) \<Longrightarrow>
     acts_on_wallet w (snd (snd (if b then h else h')))"
  "acts_on_wallet w (snd (snd h)) \<Longrightarrow> (\<And>x. acts_on_wallet w (snd (snd (g x)))) \<Longrightarrow>
     acts_on_wallet w (snd (snd (case v of None \<Rightarrow> h | Some x \<Rightarrow> g x)))"
  by (simp_all split: option.split)

lemma bip321_entry_frame: "acts_on_wallet w (snd (snd (bip321_entry env a msg e (uri, generated, w))))"
  unfolding bip321_entry_def Let_def prod.case
  by (intro acts_branch acts_match) (simp_all add: acts_updates_after)

lemma bip321_fold_frame:
  "acts_on_wallet w0 (snd (snd st)) \<Longrightarrow>
     acts_on_wallet w0 (snd (snd (fold (bip321_entry env a msg) es st)))"
proof (induction es arbitrary: st)
  case (Cons e es)
  obtain uri g w where st: "st = (uri, g, w)" by (cases st)
  with Cons.prems have "acts_on_wallet w0 (snd (snd (bip321_entry env a msg e st)))"
    using acts_trans bip321_entry_frame by fastforce
  from Cons.IH [OF this] show ?case by simp
qed simp

lemma making_frames [frame_intros]:
  "acts_on_wallet w (snd (make_invoice_execute env now req w))"
  "acts_on_wallet w (snd (make_new_address_execute env w))"
  "acts_on_wallet w (snd (make_offer_execute env req w))"
  "acts_on_wallet w (snd (make_bip321_execute env req w))"
proof -
  show "acts_on_wallet w (snd (make_bip321_execute env req w))"
    using bip321_fold_frame [of w "(_, _, w)"]
    by (cases "w_service w"; cases "req_params req")
      (auto simp: make_bip321_execute_def Let_def split: prod.splits, (metis snd_conv)+)
  show "acts_on_wallet w (snd (make_invoice_execute env now req w))"
    by (cases "w_service w"; cases "req_params req")
      (auto simp: make_invoice_execute_def intro!: frame_intros)
  show "acts_on_wallet w (snd (make_new_address_execute env w))"
    by (cases "w_service w") (auto simp: make_new_address_execute_def intro!: frame_intros)
  show "acts_on_wallet w (snd (make_offer_execute env req w))"
    by (cases "w_service w"; cases "req_params req")
      (auto simp: make_offer_execute_def intro!: frame_intros)
qed

lemma never_panics_frame:
  "(\<And>w. acts_on_wallet w (snd (ex req w))) \<Longrightarrow>
     acts_on_wallet w (snd (h_execute (never_panics v ex) req caller w))"
  by (simp add: never_panics_def split: prod.splits) (metis snd_conv)

lemma handler_frame:
  assumes "request_handlers env now m = Some h"
  shows "acts_on_wallet w (snd (h_execute h req caller w))"
  using assms
  by (cases m) (auto simp: request_handlers_def intro!: never_panics_frame frame_intros)

end
