(* ===== verification/Dispatch_Laws.thy ===== *)
theory Dispatch_Laws
  imports Nwc_Dispatch Handler_Laws
begin

section \<open>What the wallet side guarantees\<close>

text \<open>
  The theorems about \<open>process_nwc_request\<close>: what each way through it leaves behind. They
  rest on the frame of the handlers and on the laws of access control.
\<close>

subsection \<open>The ways through a request\<close>

lemma process_refused:
  assumes "fst (verify_access (env_method_str env) (env_parse_uri env) req caller micros (w_profiles w)) = Err resp"
  shows "process_nwc_request env req caller micros now w = (resp, w)"
proof -
  obtain ps where v: "verify_access (env_method_str env) (env_parse_uri env) req caller micros (w_profiles w)
      = (Err resp, ps)" using assms by (metis prod.collapse)
  have "ps = w_profiles w" using verify_access_error_keeps_state [OF assms] v by simp
  with v show ?thesis by (simp add: process_nwc_request_def)
qed

lemma process_granted:
  assumes "verify_access (env_method_str env) (env_parse_uri env) req caller micros (w_profiles w) = (Ok us, ps)"
    and "req_method req \<noteq> Method_SubscribeNotifications"
  shows "process_nwc_request env req caller micros now w =
    (let w1 = w\<lparr>w_profiles := ps\<rparr>; m = req_method req in
     case request_handlers env now m of
       None \<Rightarrow> (error_response m (nip47_err NotImplemented (env_method_str env m @ '' not implemented yet'')), w1)
     | Some h \<Rightarrow>
        (case h_validate h req of
           Err e \<Rightarrow> (error_response m e, w1)
         | Ok _ \<Rightarrow>
            (case execute_request env h req caller w1 of
               (Ok response, w2) \<Rightarrow> (response, w2)
             | (Err e, w2) \<Rightarrow> (error_response m e, refund_world us w2))))"
  using assms by (simp add: process_nwc_request_def Let_def)

lemma execute_frame:
  assumes "request_handlers env now m = Some h"
  shows "acts_on_wallet w (snd (execute_request env h req caller w))"
  using handler_frame [OF assms, of w req caller]
  by (auto simp: execute_request_def split: prod.splits outcome.splits)

lemma execute_profiles:
  "request_handlers env now m = Some h \<Longrightarrow> execute_request env h req caller w = (r, w') \<Longrightarrow>
     w_profiles w' = w_profiles w"
  using acts_fields(4) [OF execute_frame] by (metis snd_conv)

lemma subscribe_frame:
  "snd (handle_nwc_subscribe_notifications req caller w) = w \<or>
   (\<exists>types. snd (handle_nwc_subscribe_notifications req caller w) = apply_subscription caller types w)"
  by (auto simp: handle_nwc_subscribe_notifications_def split: request_params.split option.split)

lemma subscription_fields [simp]:
  "w_profiles (apply_subscription caller types w) = w_profiles w"
  "w_offers (apply_subscription caller types w) = w_offers w"
  "w_addresses (apply_subscription caller types w) = w_addresses w"
  "w_history (apply_subscription caller types w) = w_history w"
  "wf_hash_map (w_subscriptions w) \<Longrightarrow> wf_hash_map (w_subscriptions (apply_subscription caller types w))"
  by (simp_all add: apply_subscription_def wf_intros)

text \<open>What a request does to the profiles: nothing, a debit, or a debit and its refund.\<close>

lemma process_profiles:
  obtains (refused) "process_nwc_request env req caller micros now w =
      (projl (fst (verify_access (env_method_str env) (env_parse_uri env) req caller micros (w_profiles w))), w)"
      "isl (fst (verify_access (env_method_str env) (env_parse_uri env) req caller micros (w_profiles w)))"
  | (debited) us ps where
      "verify_access (env_method_str env) (env_parse_uri env) req caller micros (w_profiles w) = (Ok us, ps)"
      "w_profiles (snd (process_nwc_request env req caller micros now w)) = ps"
  | (refunded) us ps where
      "verify_access (env_method_str env) (env_parse_uri env) req caller micros (w_profiles w) = (Ok us, ps)"
      "w_profiles (snd (process_nwc_request env req caller micros now w)) =
         ps\<lparr>access := refund_applied_state_updates us (access ps)\<rparr>"
      "error (fst (process_nwc_request env req caller micros now w)) \<noteq> None"
proof (cases "verify_access (env_method_str env) (env_parse_uri env) req caller micros (w_profiles w)")
  case (Pair r ps)
  show thesis
  proof (cases r)
    case (Inl resp)
    with Pair process_refused [of env req caller micros w resp now] show thesis by (intro refused) simp_all
  next
    case (Inr us)
    note v = Pair [unfolded Inr]
    show thesis
    proof (cases "req_method req = Method_SubscribeNotifications")
      case True
      then have "process_nwc_request env req caller micros now w =
          handle_nwc_subscribe_notifications req caller (w\<lparr>w_profiles := ps\<rparr>)"
        by (simp add: process_nwc_request_def v)
      with subscribe_frame [of req caller "w\<lparr>w_profiles := ps\<rparr>"] v show thesis
        by (intro debited [OF v]) auto
    next
      case False
      note p = process_granted [OF v False, of now, unfolded Let_def]
      show thesis
      proof (cases "request_handlers env now (req_method req)")
        case None
        with p v show thesis by (intro debited [OF v]) simp
      next
        case (Some h)
        note exec = execute_profiles [OF Some, of req caller "w\<lparr>w_profiles := ps\<rparr>"]
        show thesis
        proof (cases "h_validate h req")
          case (Inl e)
          with p Some show thesis by (intro debited [OF v]) simp
        next
          case (Inr u)
          obtain r' w' where e: "execute_request env h req caller (w\<lparr>w_profiles := ps\<rparr>) = (r', w')" by fastforce
          show thesis
          proof (cases r')
            case (Inl err)
            with exec p Some Inr v e show thesis
              by (intro refunded [OF v]) (simp_all add: refund_world_def error_response_def)
          next
            case (Inr resp)
            with exec p Some \<open>h_validate h req = Ok u\<close> v e show thesis by (intro debited [OF v]) simp
          qed
        qed
      qed
    qed
  qed
qed

subsection \<open>Charges by key\<close>

lemma granted_keys:
  assumes "in_sync ps" and "verify_access as_str parse req caller micros ps = (Ok us, ps')"
  shows "\<forall>u \<in> set us. access_key_pubkey (upd_key u) = caller"
proof -
  obtain p r q where "us = updates_of (req_method req) caller (spend_of parse req) r q"
    using verify_access_granted [OF assms] by metis
  then show ?thesis by (auto simp: updates_of_def split: option.splits)
qed

subsection \<open>The guarantees\<close>

definition demo_env :: "payment_details list node_env" where
  "demo_env = \<lparr>env_api = demo_api, env_method_str = demo_as_str, env_parse_uri = demo_parse,
     env_show_uri = (\<lambda>u. ''bitcoin:''), env_address_parses = (\<lambda>a. True), env_join_error = ''cancelled''\<rparr>"

definition demo_world :: "payment_details list world" where
  "demo_world = \<lparr>w_service = Some Regtest, w_node = [], w_offers = [], w_addresses = [], w_subscriptions = [],
     w_history = [], w_profiles = demo_state, w_forced_failures = {}, w_node_alias = None,
     w_own_pubkey = Some ''us''\<rparr>"

lemma demo_env_simps [simp]:
  "env_api demo_env = demo_api" "env_method_str demo_env = demo_as_str" "env_parse_uri demo_env = demo_parse"
  by (simp_all add: demo_env_def)

lemma demo_world_simps [simp]:
  "w_profiles demo_world = demo_state" "w_forced_failures demo_world = {}" "w_service demo_world = Some Regtest"
  "w_node demo_world = []"
  by (simp_all add: demo_world_def)

text \<open>C20: a request that access control refuses never reaches a handler or the node: the answer is
  the refusal and the whole state is as before.\<close>

theorem refused_request_never_reaches_the_node:
  assumes "fst (verify_access (env_method_str env) (env_parse_uri env) req caller micros (w_profiles w)) = Err resp"
  shows "process_nwc_request env req caller micros now w = (resp, w)"
  using assms by (rule process_refused)

theorem refused_request_never_reaches_the_node_witness:
  "process_nwc_request demo_env (demo_request 6000) ''alice'' 9 0 demo_world =
     (quota_exceeded_response Method_PayKeysend, demo_world)"
  by (rule refused_request_never_reaches_the_node) (simp add: demo_refused)

text \<open>C7: when the execution of a granted request fails, or panics, or is made to fail, the client gets
  the error and every bucket that was debited is back at the level it had.\<close>

theorem failed_execution_is_refunded:
  assumes "in_sync (w_profiles w)"
    and "verify_access (env_method_str env) (env_parse_uri env) req caller micros (w_profiles w) = (Ok us, ps)"
    and "req_method req \<noteq> Method_SubscribeNotifications"
    and "request_handlers env now (req_method req) = Some h" and "h_validate h req = Ok ()"
    and "execute_request env h req caller (w\<lparr>w_profiles := ps\<rparr>) = (Err e, w')"
  shows "fst (process_nwc_request env req caller micros now w) = error_response (req_method req) e \<and>
    bucket_at (w_profiles (snd (process_nwc_request env req caller micros now w))) key =
      (case find (\<lambda>u. upd_key u = key) us of
         None \<Rightarrow> bucket_at (w_profiles w) key
       | Some u \<Rightarrow> map_option (\<lambda>s. s\<lparr>balance := i64_of_int (level_at s (now_micros micros) (upd_rule u))\<rparr>)
           (bucket_at (w_profiles w) key))"
proof -
  have "w_profiles w' = ps" using execute_profiles [OF assms(4,6)] by simp
  moreover have "process_nwc_request env req caller micros now w =
      (error_response (req_method req) e, refund_world us w')"
    using process_granted [OF assms(2,3), of now, unfolded Let_def] assms(4-6) by simp
  ultimately show ?thesis
    using refunded_level [OF assms(1,2), of key] by (simp add: refund_world_def)
qed

theorem failed_execution_is_refunded_witness:
  "bucket_at (w_profiles (snd (process_nwc_request demo_env (demo_request 1000) ''alice'' 9 0
       (demo_world\<lparr>w_forced_failures := {Method_PayKeysend}\<rparr>)))) (AccessKey_Quota ''alice'') =
     Some \<lparr>balance = 5000, last_refill_micros = 7\<rparr>"
proof -
  let ?w = "demo_world\<lparr>w_forced_failures := {Method_PayKeysend}\<rparr>"
  let ?h = "never_panics pay_keysend_validate (pay_keysend_execute demo_env)"
  have v: "verify_access (env_method_str demo_env) (env_parse_uri demo_env) (demo_request 1000) ''alice'' 9 (w_profiles ?w) =
      (Ok (updates_of Method_PayKeysend ''alice'' 1000 (Some (demo_rule, 0)) (Some (demo_quota, 1))),
       snd (verify_access demo_as_str demo_parse (demo_request 1000) ''alice'' 9 demo_state))"
    by (simp add: demo_granted)
  have h: "request_handlers demo_env 0 (req_method (demo_request 1000)) = Some ?h"
    by (simp add: request_handlers_def demo_request_def)
  have ok: "h_validate ?h (demo_request 1000) = Ok ()"
    by (simp add: never_panics_def pay_keysend_validate_def demo_request_def whitespace_len_def)
  have exec: "execute_request demo_env ?h (demo_request 1000) ''alice'' (?w\<lparr>w_profiles := ps\<rparr>) =
      (Err (nip47_err Other ''forced execute failure for testing''), ?w\<lparr>w_profiles := ps\<rparr>)" for ps
    by (simp add: execute_request_def demo_request_def)
  have "in_sync (w_profiles ?w)" "req_method (demo_request 1000) \<noteq> Method_SubscribeNotifications"
    by (simp_all add: demo_in_sync demo_request_def)
  from failed_execution_is_refunded [OF this(1) v this(2) h ok exec, of "AccessKey_Quota ''alice''"]
  have "bucket_at (w_profiles (snd (process_nwc_request demo_env (demo_request 1000) ''alice'' 9 0 ?w)))
      (AccessKey_Quota ''alice'') =
      map_option (\<lambda>s. s\<lparr>balance := i64_of_int (level_at s 9 demo_quota)\<rparr>) (quota_bucket (access demo_state) (AccessKey_Quota ''alice''))"
    by (simp add: updates_of_def now_micros_def)
  then show ?thesis
    by (simp add: demo_state_eq quota_bucket_def deref_def level_at_def refilled_tokens_def
        demo_quota_def i64_of_int_def del: bucket_at.simps)
qed

text \<open>C34: a granted request that is not implemented or whose parameters are not valid is answered with
  an error, and what it was charged is not given back.\<close>

theorem rejected_request_keeps_its_debit:
  assumes "verify_access (env_method_str env) (env_parse_uri env) req caller micros (w_profiles w) = (Ok us, ps)"
    and "req_method req \<noteq> Method_SubscribeNotifications"
    and "case request_handlers env now (req_method req) of None \<Rightarrow> True | Some h \<Rightarrow> h_validate h req \<noteq> Ok ()"
  shows "error (fst (process_nwc_request env req caller micros now w)) \<noteq> None \<and>
    snd (process_nwc_request env req caller micros now w) = w\<lparr>w_profiles := ps\<rparr>"
  using process_granted [OF assms(1,2), of now, unfolded Let_def] assms(3)
  by (simp split: option.splits sum.splits)

theorem rejected_request_keeps_its_debit_witness:
  "bucket_at (w_profiles (snd (process_nwc_request demo_env (demo_request 0) ''alice'' 9 0 demo_world)))
     (AccessKey_Method ''alice'' Method_PayKeysend) = Some \<lparr>balance = 2000000, last_refill_micros = 7\<rparr>"
proof -
  let ?h = "never_panics pay_keysend_validate (pay_keysend_execute demo_env)"
  let ?ps = "snd (verify_access demo_as_str demo_parse (demo_request 0) ''alice'' 9 demo_state)"
  have v: "verify_access (env_method_str demo_env) (env_parse_uri demo_env) (demo_request 0) ''alice'' 9 (w_profiles demo_world) =
      (Ok (updates_of Method_PayKeysend ''alice'' 0 (Some (demo_rule, 0)) None), ?ps)"
    by (simp add: demo_state_eq demo_evals)
  have m: "req_method (demo_request 0) = Method_PayKeysend" by (simp add: demo_request_def)
  have h: "request_handlers demo_env 0 Method_PayKeysend = Some ?h"
    by (simp add: request_handlers_def)
  have bad: "h_validate ?h (demo_request 0) \<noteq> Ok ()"
    by (simp add: never_panics_def pay_keysend_validate_def demo_request_def whitespace_len_def)
  have "snd (process_nwc_request demo_env (demo_request 0) ''alice'' 9 0 demo_world) =
      demo_world\<lparr>w_profiles := ?ps\<rparr>"
    using rejected_request_keeps_its_debit [OF v, of 0] m h bad by simp
  then show ?thesis
    by (simp add: demo_state_eq demo_evals access_rate_bucket_def deref_def)
qed

text \<open>A request leaves the buckets of everybody but its author, and every profile, as they were.\<close>

lemma request_touches_own_buckets:
  assumes "in_sync (w_profiles w)" and "access_key_pubkey key \<noteq> caller"
  shows "bucket_at (w_profiles (snd (process_nwc_request env req caller micros now w))) key =
    bucket_at (w_profiles w) key"
proof (cases rule: process_profiles [of env req caller micros now w])
  case refused
  then show ?thesis by simp
next
  case (debited us ps)
  from granted_keys [OF assms(1) debited(1)] assms(2) have "find (\<lambda>u. upd_key u = key) us = None"
    by (auto simp: find_None_iff)
  with bucket_at_settled(1) [OF assms(1) debited(1), of key] granted_profiles [OF debited(1)] debited(2)
  show ?thesis by (simp add: charged_def [abs_def] option.map_ident)
next
  case (refunded us ps)
  from granted_keys [OF assms(1) refunded(1)] assms(2) have "find (\<lambda>u. upd_key u = key) us = None"
    by (auto simp: find_None_iff)
  with bucket_at_settled(1,3) [OF assms(1) refunded(1), of key] granted_profiles [OF refunded(1)] refunded(2)
  show ?thesis by (simp add: charged_def [abs_def] repaid_def [abs_def] option.map_ident)
qed

lemma request_keeps_profiles:
  "usage_profiles (w_profiles (snd (process_nwc_request env req caller micros now w))) =
     usage_profiles (w_profiles w)"
proof (cases rule: process_profiles [of env req caller micros now w])
  case (debited us ps)
  then show ?thesis using granted_profiles [OF debited(1)] by simp
next
  case (refunded us ps)
  then show ?thesis using granted_profiles [OF refunded(1)] by simp
qed simp

text \<open>What every wallet request keeps: the profiles in step with their buckets, the stores well-formed.\<close>

definition world_ok :: "'n world \<Rightarrow> bool" where
  "world_ok w \<longleftrightarrow> in_sync (w_profiles w) \<and> wf_offers (w_offers w) \<and> wf_addresses (w_addresses w) \<and>
     wf_hash_map (w_subscriptions w)"

lemma in_sync_verify:
  assumes "in_sync ps" and "verify_access as_str parse req caller micros ps = (Ok us, ps')"
  shows "in_sync ps'" and "in_sync (ps'\<lparr>access := refund_applied_state_updates us (access ps')\<rparr>)"
proof -
  note live = prepared_updates_live [OF assms(1) verify_access_Ok(1) [OF assms(2)]]
  have eq: "ps' = with_access ps (snd (settle (req_method req) (now_micros micros) us (access ps)))"
    using verify_access_Ok(2,3) [OF assms(2)] by (simp add: with_access_def)
  then show sync: "in_sync ps'"
    using in_sync_settle [OF assms(1) live] by simp
  have "\<forall>u \<in> set us. update_live ps' u"
    using live_settle live eq by metis
  from in_sync_refund [OF sync this]
  show "in_sync (ps'\<lparr>access := refund_applied_state_updates us (access ps')\<rparr>)"
    by (simp add: with_access_def)
qed

text \<open>The stores after a request: those the handler left, or a subscription more or less.\<close>

lemma process_stores:
  "(wf_offers (w_offers w) \<longrightarrow> wf_offers (w_offers (snd (process_nwc_request env req caller micros now w)))) \<and>
   (wf_addresses (w_addresses w) \<longrightarrow> wf_addresses (w_addresses (snd (process_nwc_request env req caller micros now w)))) \<and>
   (wf_hash_map (w_subscriptions w) \<longrightarrow> wf_hash_map (w_subscriptions (snd (process_nwc_request env req caller micros now w))))"
    (is "?P (snd (process_nwc_request env req caller micros now w))")
proof (cases "verify_access (env_method_str env) (env_parse_uri env) req caller micros (w_profiles w)")
  case (Pair r ps)
  let ?w = "w\<lparr>w_profiles := ps\<rparr>"
  have acts: "?P w'" "?P (refund_world us w')" if "acts_on_wallet ?w w'" for w' us
    using that acts_fields(2) [OF that] by (auto simp: acts_on_wallet_def refund_world_def)
  show ?thesis
  proof (cases r)
    case (Inl resp)
    with Pair show ?thesis by (simp add: process_nwc_request_def)
  next
    case (Inr us)
    note v = Pair [unfolded Inr]
    show ?thesis
    proof (cases "req_method req = Method_SubscribeNotifications")
      case True
      then have "process_nwc_request env req caller micros now w =
          handle_nwc_subscribe_notifications req caller ?w"
        by (simp add: process_nwc_request_def v)
      with subscribe_frame [of req caller ?w] show ?thesis
        by (elim disjE exE) simp_all
    next
      case False
      note p = process_granted [OF v False, of now, unfolded Let_def]
      show ?thesis
      proof (cases "request_handlers env now (req_method req)")
        case None
        with p show ?thesis by simp
      next
        case (Some h)
        obtain r' w' where e: "execute_request env h req caller ?w = (r', w')" by fastforce
        with execute_frame [OF Some, of ?w req caller] have "acts_on_wallet ?w w'" by simp
        with acts e p Some show ?thesis
          by (cases "h_validate h req"; cases r') simp_all
      qed
    qed
  qed
qed

text \<open>A request keeps the profiles in step with their buckets and the stores well-formed.\<close>

lemma requests_keep_the_state_well_formed:
  assumes "world_ok w"
  shows "world_ok (snd (process_nwc_request env req caller micros now w))"
proof -
  have "in_sync (w_profiles (snd (process_nwc_request env req caller micros now w)))"
    using process_profiles [of env req caller micros now w] in_sync_verify assms
    by (metis snd_conv world_ok_def)
  with process_stores [of w env req caller micros now] assms show ?thesis
    by (simp add: world_ok_def)
qed

subsection \<open>What the node offers\<close>

text \<open>The refusals that are about permission: everything else is refused with another code.\<close>

definition permission_code :: "error_code \<Rightarrow> bool" where
  "permission_code c \<longleftrightarrow> c = Restricted \<or> c = Unauthorized"

lemma rate_error_code: "\<not> permission_code (code (map_rate_state_error e ctx))"
  by (cases "(e, ctx)" rule: map_rate_state_error.cases) (simp_all add: permission_code_def)

lemma lock_error_code: "lock_all m st us = Err resp \<Longrightarrow> \<exists>e. resp = error_response m e \<and> \<not> permission_code (code e)"
  by (induction us) (auto simp: poisoned_state_response_def permission_code_def result_eqs split: option.splits)

lemma verify_error_code: "verify_all m now gs = Err resp \<Longrightarrow> \<exists>e. resp = error_response m e \<and> \<not> permission_code (code e)"
  by (induction gs) (auto simp: rate_state_error_response_def rate_error_code result_eqs)

lemma debit_error_code:
  "fst (debit_all m now gs) = Err resp \<Longrightarrow> \<exists>e. resp = error_response m e \<and> \<not> permission_code (code e)"
  by (induction gs) (auto simp: rate_state_error_response_def rate_error_code split: prod.splits sum.splits)

lemma settle_error_code:
  "fst (settle m now us st) = Err resp \<Longrightarrow> \<exists>e. resp = error_response m e \<and> \<not> permission_code (code e)"
  using lock_error_code [of m st us resp] verify_error_code [of m now _ resp] debit_error_code [of m now _ resp]
  by (cases "lock_all m st us"; cases "verify_all m now (projr (lock_all m st us))")
    (auto simp: settle_def case_prod_unfold)

lemma updates_error_code:
  "access_rate_updates m caller mr st = Err resp \<Longrightarrow> \<exists>e. resp = error_response m e \<and> \<not> permission_code (code e)"
  "quota_updates m caller amount q st = Err resp \<Longrightarrow> \<exists>e. resp = error_response m e \<and> \<not> permission_code (code e)"
  by (auto simp: access_rate_updates_def quota_updates_def missing_state_response_def permission_code_def
      result_eqs Let_def split: option.splits if_splits)

lemma permitted_iff:
  "(\<exists>e. fst (verify_access as_str parse req caller micros ps) = Err (error_response (req_method req) e) \<and>
      permission_code (code e)) \<longleftrightarrow>
   \<not> (\<exists>p r. get_usage_profile caller ps = Some p \<and> method_rule_for (req_method req) p = Ok r)"
proof (cases "get_usage_profile caller ps")
  case None
  then show ?thesis
    by (simp add: verify_access_def prepare_updates_def unauthorized_response_def permission_code_def)
next
  case (Some p)
  show ?thesis
  proof (cases "method_rule_for (req_method req) p")
    case (Inl resp)
    then have "resp = access_denied_response (req_method req)"
      by (auto simp: method_rule_for_def split: option.splits if_splits)
    with Some Inl show ?thesis
      by (simp add: verify_access_def prepare_updates_def access_denied_response_def permission_code_def)
  next
    case (Inr r)
    have "\<not> permission_code (code e)"
      if "fst (verify_access as_str parse req caller micros ps) = Err (error_response (req_method req) e)" for e
    proof (cases "prepare_updates as_str parse req caller ps")
      case (Inl resp)
      with that have "resp = error_response (req_method req) e" by (simp add: verify_access_def)
      with Inl Some Inr updates_error_code show ?thesis
        by (fastforce simp: prepare_updates_def result_eqs)
    next
      case (Inr us)
      with that have "fst (settle (req_method req) (now_micros micros) us (access ps)) =
          Err (error_response (req_method req) e)"
        by (auto simp: verify_access_settle result_eqs split: prod.splits)
      from settle_error_code [OF this] show ?thesis by auto
    qed
    with Some Inr show ?thesis by blast
  qed
qed

text \<open>C14: the methods that \<open>get_info\<close> lists for a client are those of the supported ones that access
  control lets it call: no other answer to a listed method complains about permission, and every
  method that is not listed is refused for it.\<close>

theorem get_info_lists_what_is_permitted:
  assumes "req_method req \<in> set SUPPORTED_METHODS"
  shows "req_method req \<in> set (allowed_methods_for caller ps) \<longleftrightarrow>
    \<not> (\<exists>e. fst (verify_access as_str parse req caller micros ps) = Err (error_response (req_method req) e) \<and>
          (code e = Restricted \<or> code e = Unauthorized))"
  unfolding permission_code_def [symmetric] permitted_iff not_not
proof (cases "get_usage_profile caller ps")
  case None
  then show "req_method req \<in> set (allowed_methods_for caller ps) \<longleftrightarrow>
      (\<exists>p r. get_usage_profile caller ps = Some p \<and> method_rule_for (req_method req) p = Ok r)"
    by (simp add: allowed_methods_for_def)
next
  case (Some p)
  then show "req_method req \<in> set (allowed_methods_for caller ps) \<longleftrightarrow>
      (\<exists>p r. get_usage_profile caller ps = Some p \<and> method_rule_for (req_method req) p = Ok r)"
    using assms
    by (cases "profile_methods p") (auto simp: allowed_methods_for_def method_rule_for_def split: option.split)
qed

theorem get_info_lists_what_is_permitted_witness:
  "Method_PayKeysend \<in> set (allowed_methods_for ''alice'' demo_state)"
  using get_info_lists_what_is_permitted [of "demo_request 6000" "''alice''" demo_state demo_as_str demo_parse 9]
  by (simp add: demo_refused quota_exceeded_response_def)
    (simp add: demo_request_def SUPPORTED_METHODS_def)

text \<open>Exactly the methods the service advertises are served: all have a handler, but for the
  subscriptions, which are handled in the dispatch. One of them, the on-chain fee estimate, never
  answers with anything but \<open>NOT_IMPLEMENTED\<close>.\<close>

theorem advertised_methods_are_served:
  "(m \<in> set SUPPORTED_METHODS \<longleftrightarrow> m = Method_SubscribeNotifications \<or> (\<exists>h. request_handlers env now m = Some h)) \<and>
   (\<exists>h. request_handlers env now Method_EstimateOnchainFees = Some h \<and>
      (\<exists>e. fst (h_execute h req caller w) = Returned (Err e) \<and> code e = NotImplemented))"
proof
  show "m \<in> set SUPPORTED_METHODS \<longleftrightarrow> m = Method_SubscribeNotifications \<or> (\<exists>h. request_handlers env now m = Some h)"
    by (cases m) (simp_all add: SUPPORTED_METHODS_def request_handlers_def)
  show "\<exists>h. request_handlers env now Method_EstimateOnchainFees = Some h \<and>
      (\<exists>e. fst (h_execute h req caller w) = Returned (Err e) \<and> code e = NotImplemented)"
    by (simp add: request_handlers_def never_panics_def estimate_onchain_fees_execute_def)
qed

subsection \<open>Placeholders\<close>

text \<open>The requests that are answered without anything being done for them.\<close>

definition placeholder_answer :: "'n world \<Rightarrow> nip47_method \<Rightarrow> bool" where
  "placeholder_answer w m \<longleftrightarrow> m \<in> {Method_MakeHoldInvoice, Method_CancelHoldInvoice, Method_SettleHoldInvoice} \<or>
     w_service w = None \<and> m \<in> {Method_PayInvoice, Method_PayKeysend}"

lemma placeholder_execute:
  assumes "request_handlers env now (req_method req) = Some h" and "placeholder_answer w (req_method req)"
    and "req_method req \<notin> w_forced_failures w"
  shows "\<exists>response. execute_request env h req caller w = (Ok response, w) \<and> error response = None \<and>
    result_type response = req_method req"
  using assms
  by (auto simp: placeholder_answer_def request_handlers_def never_panics_def execute_request_def
      make_hold_invoice_execute_def cancel_hold_invoice_execute_def settle_hold_invoice_execute_def
      pay_invoice_execute_def pay_keysend_execute_def ok_response_def)

text \<open>C30: a granted and well-formed request to make, cancel or settle a hold invoice is answered with
  success and charged, but nothing is done; so is a \<open>pay_invoice\<close> and a \<open>pay_keysend\<close> request as long as
  no node is attached: the answer reports success with the preimage \<open>00\<close>. (The other ways to pay are
  answered with an error then, and refunded.)\<close>

theorem placeholder_requests_succeed_without_effect:
  assumes "verify_access (env_method_str env) (env_parse_uri env) req caller micros (w_profiles w) = (Ok us, ps)"
    and "req_method req \<in> {Method_MakeHoldInvoice, Method_CancelHoldInvoice, Method_SettleHoldInvoice} \<or>
      w_service w = None \<and> req_method req \<in> {Method_PayInvoice, Method_PayKeysend}"
    and "request_handlers env now (req_method req) = Some h" and "h_validate h req = Ok ()"
    and "req_method req \<notin> w_forced_failures w"
  shows "error (fst (process_nwc_request env req caller micros now w)) = None \<and>
    result_type (fst (process_nwc_request env req caller micros now w)) = req_method req \<and>
    snd (process_nwc_request env req caller micros now w) = w\<lparr>w_profiles := ps\<rparr>"
proof -
  let ?w = "w\<lparr>w_profiles := ps\<rparr>"
  have "placeholder_answer ?w (req_method req)" using assms(2) by (simp add: placeholder_answer_def)
  moreover have "req_method req \<notin> w_forced_failures ?w" using assms(5) by simp
  ultimately obtain response where r: "execute_request env h req caller ?w = (Ok response, ?w)"
    "error response = None" "result_type response = req_method req"
    using placeholder_execute [OF assms(3)] by blast
  have "req_method req \<noteq> Method_SubscribeNotifications" using assms(2) by auto
  from process_granted [OF assms(1) this, of now, unfolded Let_def] assms(3,4) r show ?thesis by simp
qed

theorem placeholder_requests_succeed_without_effect_witness:
  "error (fst (process_nwc_request demo_env (demo_request 1000) ''alice'' 9 0 (demo_world\<lparr>w_service := None\<rparr>))) = None \<and>
   bucket_at (w_profiles (snd (process_nwc_request demo_env (demo_request 1000) ''alice'' 9 0 (demo_world\<lparr>w_service := None\<rparr>))))
     (AccessKey_Quota ''alice'') = Some \<lparr>balance = 4000, last_refill_micros = 7\<rparr>"
proof -
  let ?w = "demo_world\<lparr>w_service := None\<rparr>"
  let ?ps = "snd (verify_access demo_as_str demo_parse (demo_request 1000) ''alice'' 9 demo_state)"
  have m: "req_method (demo_request 1000) = Method_PayKeysend" by (simp add: demo_request_def)
  have v: "verify_access (env_method_str demo_env) (env_parse_uri demo_env) (demo_request 1000) ''alice'' 9 (w_profiles ?w) =
      (Ok (updates_of Method_PayKeysend ''alice'' 1000 (Some (demo_rule, 0)) (Some (demo_quota, 1))), ?ps)"
    by (simp add: demo_granted)
  have h: "request_handlers demo_env 0 (req_method (demo_request 1000)) =
      Some (never_panics pay_keysend_validate (pay_keysend_execute demo_env))"
    by (simp add: request_handlers_def m)
  have ok: "h_validate (never_panics pay_keysend_validate (pay_keysend_execute demo_env)) (demo_request 1000) = Ok ()"
    by (simp add: never_panics_def pay_keysend_validate_def demo_request_def whitespace_len_def)
  have "bucket_at ?ps (AccessKey_Quota ''alice'') = Some \<lparr>balance = 4000, last_refill_micros = 7\<rparr>"
    unfolding demo_granted snd_conv by (simp add: demo_state_eq quota_bucket_def deref_def)
  with placeholder_requests_succeed_without_effect [OF v _ h ok] show ?thesis
    by (simp add: m del: bucket_at.simps)
qed

subsection \<open>What is paid and what is metered\<close>

definition offer_request :: "string \<Rightarrow> u64 option \<Rightarrow> string option \<Rightarrow> nip47_request" where
  "offer_request offer amount memo =
     \<lparr>req_method = Method_PayOffer, req_params = Params_PayOffer offer amount memo\<rparr>"

lemma pay_offer_execute_amount:
  "pay_offer_execute env (offer_request offer a memo) w = pay_offer_execute env (offer_request offer b memo) w"
proof -
  have "pay_offer api offer a memo = pay_offer api offer b memo" for api :: "'a ldk_api"
    by (rule ext) (simp add: pay_offer_def)
  then show ?thesis
    by (cases "w_service w") (simp_all add: pay_offer_execute_def offer_request_def)
qed

lemma refund_world_node [simp]: "w_node (refund_world us w) = w_node w"
  by (simp add: refund_world_def)

text \<open>The node after a granted payment of an offer, in a state where the profiles do not matter.\<close>

lemma call_node_profiles: "call_node f (w\<lparr>w_profiles := ps\<rparr>) =
    (case call_node f w of (r, w') \<Rightarrow> (r, w'\<lparr>w_profiles := ps\<rparr>))"
  by (simp add: call_node_def split: prod.splits)

lemma pay_offer_execute_profiles:
  "w_node (snd (pay_offer_execute env (offer_request offer a memo) (w\<lparr>w_profiles := ps\<rparr>))) =
     w_node (snd (pay_offer_execute env (offer_request offer a memo) w))"
proof (cases "w_service w")
  case None
  then show ?thesis by (simp add: pay_offer_execute_def offer_request_def)
next
  case (Some net)
  obtain r w' where "call_node (pay_offer (env_api env) offer a memo) w = (r, w')" by fastforce
  with Some show ?thesis
    by (cases r) (simp_all add: pay_offer_execute_def offer_request_def call_node_profiles)
qed

lemma offer_request_node:
  assumes "verify_access (env_method_str env) (env_parse_uri env) (offer_request offer a memo) caller micros (w_profiles w)
      = (Ok us, ps)"
  shows "w_node (snd (process_nwc_request env (offer_request offer a memo) caller micros now w)) =
    (if trim_is_empty offer \<or> Method_PayOffer \<in> w_forced_failures w then w_node w
     else w_node (snd (pay_offer_execute env (offer_request offer a memo) w)))"
proof -
  let ?req = "offer_request offer a memo" and ?w = "w\<lparr>w_profiles := ps\<rparr>"
  have m: "req_method ?req = Method_PayOffer" by (simp add: offer_request_def)
  have h: "request_handlers env now Method_PayOffer =
      Some (never_panics pay_offer_validate (pay_offer_execute env))" by (simp add: request_handlers_def)
  have v: "pay_offer_validate ?req = (if trim_is_empty offer then Err (nip47_err Other ''offer is required'') else Ok ())"
    by (simp add: pay_offer_validate_def offer_request_def)
  obtain r w' where e: "pay_offer_execute env ?req ?w = (r, w')" by fastforce
  then have n: "w_node w' = w_node (snd (pay_offer_execute env ?req w))"
    using pay_offer_execute_profiles [of env offer a memo ps w] by simp
  have "req_method ?req \<noteq> Method_SubscribeNotifications" by (simp add: m)
  from process_granted [OF assms this, of now, unfolded Let_def m] h v e n show ?thesis
    by (cases r) (simp_all add: never_panics_def execute_request_def m)
qed

lemma offer_request_charged:
  assumes sync: "in_sync (w_profiles w)"
    and v: "verify_access (env_method_str env) (env_parse_uri env) (offer_request offer (Some a) memo) caller micros (w_profiles w)
      = (Ok us, ps)"
    and rule: "usage_profiles (w_profiles w) caller = Some p" "profile_quota p = Some rule" and "0 < a"
    and paid: "error (fst (process_nwc_request env (offer_request offer (Some a) memo) caller micros now w)) = None"
  shows "bucket_at (w_profiles (snd (process_nwc_request env (offer_request offer (Some a) memo) caller micros now w)))
      (AccessKey_Quota caller) =
    map_option (\<lambda>s. s\<lparr>balance := i64_of_int (level_at s (now_micros micros) rule - int (unat a))\<rparr>)
      (bucket_at (w_profiles w) (AccessKey_Quota caller))"
proof -
  let ?req = "offer_request offer (Some a) memo" and ?w = "w\<lparr>w_profiles := ps\<rparr>" and ?key = "AccessKey_Quota caller"
  have m: "req_method ?req = Method_PayOffer" "spend_of (env_parse_uri env) ?req = a"
    by (simp_all add: offer_request_def spend_of_def)
  have h: "request_handlers env now Method_PayOffer =
      Some (never_panics pay_offer_validate (pay_offer_execute env))" by (simp add: request_handlers_def)
  have "req_method ?req \<noteq> Method_SubscribeNotifications" by (simp add: m)
  from process_granted [OF v this, of now, unfolded Let_def m] h paid execute_profiles [OF h]
  have ps: "w_profiles (snd (process_nwc_request env ?req caller micros now w)) = ps"
    by (auto split: sum.splits prod.splits)
  obtain r q where us: "us = updates_of Method_PayOffer caller a r q" "map_option fst q = quota_rule_for a p"
    using verify_access_granted [OF sync v] m rule(1) by (metis option.inject)
  then obtain cell where "q = Some (rule, cell)" using rule(2) \<open>0 < a\<close> by (auto simp: quota_rule_for_def)
  with us(1) have find: "find (\<lambda>u. upd_key u = ?key) us = Some (quota_update caller a rule cell)"
    by (auto simp: updates_of_def split: option.split)
  show ?thesis
    using charged_exact [OF sync v find] bucket_at_settled(1) [OF sync v, of ?key] unfolding ps
    by (cases "bucket_at (w_profiles w) ?key") simp_all
qed

text \<open>C32: the amount in a \<open>pay_offer\<close> request decides what the quota is charged, and nothing else: of
  two granted requests that differ in the amount only, the node pays the same for both, and one that
  is answered without an error has taken exactly its amount from the bucket of the caller's quota.\<close>

theorem offer_amount_is_metered_but_not_paid:
  assumes "in_sync (w_profiles w)"
    and "usage_profiles (w_profiles w) caller = Some p" and "profile_quota p = Some rule"
    and "fst (verify_access (env_method_str env) (env_parse_uri env) (offer_request offer a memo) caller micros (w_profiles w))
      = Ok us"
    and "fst (verify_access (env_method_str env) (env_parse_uri env) (offer_request offer b memo) caller micros (w_profiles w))
      = Ok vs"
  shows "w_node (snd (process_nwc_request env (offer_request offer a memo) caller micros now w)) =
      w_node (snd (process_nwc_request env (offer_request offer b memo) caller micros now w)) \<and>
    (\<forall>amount. a = Some amount \<and> 0 < amount \<and>
        error (fst (process_nwc_request env (offer_request offer a memo) caller micros now w)) = None \<longrightarrow>
      bucket_at (w_profiles (snd (process_nwc_request env (offer_request offer a memo) caller micros now w)))
          (AccessKey_Quota caller) =
        map_option (\<lambda>s. s\<lparr>balance := i64_of_int (level_at s (now_micros micros) rule - int (unat amount))\<rparr>)
          (bucket_at (w_profiles w) (AccessKey_Quota caller)))"
proof -
  obtain ps qs where v:
    "verify_access (env_method_str env) (env_parse_uri env) (offer_request offer a memo) caller micros (w_profiles w) = (Ok us, ps)"
    "verify_access (env_method_str env) (env_parse_uri env) (offer_request offer b memo) caller micros (w_profiles w) = (Ok vs, qs)"
    using assms(4,5) by (metis prod.collapse)
  from offer_request_node [OF v(1), of now] offer_request_node [OF v(2), of now]
    pay_offer_execute_amount [of env offer a memo w b] offer_request_charged [OF assms(1) _ assms(2,3)] v(1)
  show ?thesis by auto
qed

definition spender_profile :: usage_profile where
  "spender_profile = \<lparr>profile_quota = Some demo_quota, profile_methods = None, profile_control = None\<rparr>"

definition spender_world :: "payment_details list world" where
  "spender_world = demo_world\<lparr>w_profiles :=
     upsert_usage_profile_and_reset_states ''bob'' spender_profile 7 profile_state_empty\<rparr>"

lemma spender_profiles:
  "w_profiles spender_world = \<lparr>usage_profiles = [''bob'' \<mapsto> spender_profile],
     access = \<lparr>access_rate = Map.empty, quota = [AccessKey_Quota ''bob'' \<mapsto> 0],
       heap = [0 \<mapsto> \<lparr>cell_state = \<lparr>balance = 5000, last_refill_micros = 7\<rparr>, cell_poisoned = False\<rparr>],
       next_addr = 1\<rparr>\<rparr>"
  by (simp add: spender_world_def spender_profile_def demo_quota_def upsert_evals rate_evals fun_eq_iff)

lemma demo_offer_paid:
  "error (fst (process_nwc_request demo_env (offer_request ''lno1'' (Some 1) None) ''bob'' 9 0 spender_world)) = None"
proof -
  let ?req = "offer_request ''lno1'' (Some 1) None"
  obtain us ps where v: "verify_access (env_method_str demo_env) (env_parse_uri demo_env) ?req ''bob'' 9 (w_profiles spender_world)
      = (Ok us, ps)"
    by (simp add: spender_profiles offer_request_def spender_profile_def demo_evals)
  let ?w = "spender_world\<lparr>w_profiles := ps\<rparr>"
  have m: "req_method ?req = Method_PayOffer" by (simp add: offer_request_def)
  have h: "request_handlers demo_env 0 Method_PayOffer =
      Some (never_panics pay_offer_validate (pay_offer_execute demo_env))" by (simp add: request_handlers_def)
  have ok: "pay_offer_validate ?req = Ok ()"
    by (simp add: pay_offer_validate_def offer_request_def whitespace_len_def)
  have "fst (wait_for_outbound_payment demo_api [7] [demo_payment Status_Pending]) =
      Ok \<lparr>lpr_preimage = hex_string [2], lpr_fees_paid_msat = Some 3\<rparr>"
    by (simp add: wait_for_outbound_payment_def wait_loop.simps poll_payment_def demo_api_def demo_payment_def)
  moreover have "pay_offer demo_api ''lno1'' (Some 1) None [] =
      wait_for_outbound_payment demo_api [7] [demo_payment Status_Pending]"
    by (simp add: pay_offer_def) (simp add: demo_api_def)
  ultimately obtain n where paid: "pay_offer demo_api ''lno1'' (Some 1) None [] =
      (Ok \<lparr>lpr_preimage = hex_string [2], lpr_fees_paid_msat = Some 3\<rparr>, n)"
    by (metis prod.collapse)
  have w: "w_service ?w = Some Regtest" "w_node ?w = []" "w_forced_failures ?w = {}"
    by (simp_all add: spender_world_def)
  have "pay_offer_execute demo_env ?req ?w = (Ok (ok_response Method_PayOffer
      (Result_PayOffer (Some (hex_string [2])) (Some 3))), ?w\<lparr>w_node := n\<rparr>)"
    unfolding pay_offer_execute_def w
    by (simp add: offer_request_def call_node_def w paid)
  moreover have "req_method ?req \<noteq> Method_SubscribeNotifications" by (simp add: m)
  ultimately show ?thesis
    using process_granted [OF v, of 0, unfolded Let_def m] h ok w(3)
    by (simp add: never_panics_def execute_request_def m ok_response_def)
qed

theorem offer_amount_is_metered_but_not_paid_witness:
  "w_node (snd (process_nwc_request demo_env (offer_request ''lno1'' (Some 1) None) ''bob'' 9 0 spender_world)) =
     w_node (snd (process_nwc_request demo_env (offer_request ''lno1'' (Some 5000) None) ''bob'' 9 0 spender_world)) \<and>
   bucket_at (w_profiles (snd (process_nwc_request demo_env (offer_request ''lno1'' (Some 1) None) ''bob'' 9 0 spender_world)))
     (AccessKey_Quota ''bob'') = Some \<lparr>balance = 4999, last_refill_micros = 7\<rparr>"
proof -
  have granted: "\<exists>us. fst (verify_access (env_method_str demo_env) (env_parse_uri demo_env)
      (offer_request ''lno1'' (Some a) None) ''bob'' 9 (w_profiles spender_world)) = Ok us" if "a \<in> {1, 5000}" for a
    using that by (auto simp: spender_profiles offer_request_def spender_profile_def demo_evals)
  then obtain us vs where v:
    "fst (verify_access (env_method_str demo_env) (env_parse_uri demo_env)
      (offer_request ''lno1'' (Some 1) None) ''bob'' 9 (w_profiles spender_world)) = Ok us"
    "fst (verify_access (env_method_str demo_env) (env_parse_uri demo_env)
      (offer_request ''lno1'' (Some 5000) None) ''bob'' 9 (w_profiles spender_world)) = Ok vs"
    by (meson insertI1 insertI2)
  have sync: "in_sync (w_profiles spender_world)"
    by (simp add: spender_world_def in_sync_upsert in_sync_empty wf_profile_def spender_profile_def)
  have p: "usage_profiles (w_profiles spender_world) ''bob'' = Some spender_profile"
    "profile_quota spender_profile = Some demo_quota" by (simp_all add: spender_profiles spender_profile_def)
  have "bucket_at (w_profiles spender_world) (AccessKey_Quota ''bob'') = Some \<lparr>balance = 5000, last_refill_micros = 7\<rparr>"
    by (simp add: spender_profiles quota_bucket_def deref_def)
  with offer_amount_is_metered_but_not_paid [OF sync p v, of 0] demo_offer_paid show ?thesis
    by (simp add: level_at_def refilled_tokens_def demo_quota_def i64_of_int_def del: bucket_at.simps)
qed

subsection \<open>Answers\<close>

text \<open>What handling a request event does: at most one answer, at most one request processed.\<close>

lemma handle_nwc_request_effect:
  assumes "handle_nwc_request env tr ev micros now (w, sent) = (r, w', sent')"
  shows "(sent' = sent \<or> (\<exists>c s. sent' = sent @ [response_event 23195 c ev s])) \<and>
    (w' = w \<or> (\<exists>text req. decrypt_content tr (ev_pubkey ev) (ev_content ev) (get_encryption_scheme ev) = Ok text \<and>
      tr_parse_request tr text = Ok req \<and>
      w' = snd (process_nwc_request env req (ev_pubkey ev) micros now w)))"
proof (cases "get_encryption_scheme ev \<noteq> ''nip04'' \<and> get_encryption_scheme ev \<noteq> ''nip44_v2''")
  case True
  let ?answer = "tr_nip04_encrypt tr (ev_pubkey ev) (tr_show_response tr (error_response Method_GetInfo
      (nip47_err UnsupportedEncryption (''unsupported encryption: '' @ get_encryption_scheme ev))))"
  from True assms show ?thesis
    by (cases ?answer) (auto simp: handle_nwc_request_def Let_def send_event_def)
next
  case False
  have handle: "sbind (decrypt_content tr (ev_pubkey ev) (ev_content ev) (get_encryption_scheme ev), (w, sent)) (\<lambda>decrypted st.
      sbind (tr_parse_request tr decrypted, st) (\<lambda>request st.
        (case st of (w, sent) \<Rightarrow>
           case process_nwc_request env request (ev_pubkey ev) micros now w of
             (response, w') \<Rightarrow>
               sbind (encrypt_content tr (ev_pubkey ev) (tr_show_response tr response) (get_encryption_scheme ev), w', sent) (\<lambda>encrypted st.
                 send_event tr (response_event 23195 encrypted ev (get_encryption_scheme ev)) st)))) = (r, w', sent')"
    using assms False by (simp only: handle_nwc_request_def Let_def if_False)
  show ?thesis
  proof (cases "decrypt_content tr (ev_pubkey ev) (ev_content ev) (get_encryption_scheme ev)")
    case (Inl e)
    with handle show ?thesis by simp
  next
    case (Inr plain)
    from this have d: "decrypt_content tr (ev_pubkey ev) (ev_content ev) (get_encryption_scheme ev) = Ok plain" .
    show ?thesis
    proof (cases "tr_parse_request tr plain")
      case (Inl e)
      with d handle show ?thesis by simp
    next
      case (Inr req)
      obtain response w1 where p: "process_nwc_request env req (ev_pubkey ev) micros now w = (response, w1)"
        by fastforce
      with d Inr handle show ?thesis
        by (cases "encrypt_content tr (ev_pubkey ev) (tr_show_response tr response) (get_encryption_scheme ev)")
          (auto simp: send_event_def)
    qed
  qed
qed

text \<open>C19: a request event gets one answer at most: of kind 23195, to the author of the event and about
  it, marked with its encryption scheme if that is not the default one. The state changes only by
  processing the request that the event's content decrypts to in its scheme, for its author.\<close>

theorem wallet_requests_are_answered_once:
  assumes "handle_nwc_request env tr ev micros now (w, sent) = (r, w', sent')"
  shows "(sent' = sent \<or> (\<exists>answer. sent' = sent @ [answer] \<and> out_kind answer = 23195 \<and>
      take 2 (out_tags answer) = [[''p'', ev_pubkey ev], [''e'', ev_id ev]])) \<and>
    (w' = w \<or> (\<exists>text req. decrypt_content tr (ev_pubkey ev) (ev_content ev) (get_encryption_scheme ev) = Ok text \<and>
      tr_parse_request tr text = Ok req \<and>
      w' = snd (process_nwc_request env req (ev_pubkey ev) micros now w)))"
  using handle_nwc_request_effect [OF assms] by (auto simp: response_event_def)

definition demo_transport :: transport where
  "demo_transport = \<lparr>tr_nip04_encrypt = (\<lambda>pk s. Ok s), tr_nip04_decrypt = (\<lambda>pk s. Ok s),
     tr_nip44_encrypt = (\<lambda>pk s. Ok s), tr_nip44_decrypt = (\<lambda>pk s. Ok s),
     tr_parse_request = (\<lambda>s. Ok (demo_request 6000)), tr_show_response = (\<lambda>r. ''{}''),
     tr_send = (\<lambda>ev sent. Ok ())\<rparr>"

definition demo_event :: nostr_event where
  "demo_event = \<lparr>ev_id = ''id1'', ev_pubkey = ''alice'', ev_created_at = 1,
     ev_tags = [[''encryption'', ''rot13'']], ev_content = ''secret''\<rparr>"

theorem wallet_requests_are_answered_once_witness:
  "\<exists>answer. snd (snd (handle_nwc_request demo_env demo_transport demo_event 9 0 (demo_world, []))) = [answer] \<and>
     out_kind answer = 23195 \<and> take 2 (out_tags answer) = [[''p'', ''alice''], [''e'', ''id1'']]"
proof -
  obtain r w' sent' where h: "handle_nwc_request demo_env demo_transport demo_event 9 0 (demo_world, []) = (r, w', sent')"
    by (metis prod.exhaust)
  then have "sent' \<noteq> []"
    by (auto simp: handle_nwc_request_def demo_event_def demo_transport_def get_encryption_scheme_def send_event_def)
  with wallet_requests_are_answered_once [OF h] h show ?thesis
    by (auto simp: demo_event_def)
qed

end
