(* ===== verification/Control_Laws.thy ===== *)
theory Control_Laws
  imports Node_Events Dispatch_Laws
begin

section \<open>What node control and the node's events guarantee\<close>

subsection \<open>What a control request acts on\<close>

definition acts_on_node :: "pubkey \<Rightarrow> 'n world \<Rightarrow> 'n world \<Rightarrow> bool" where
  "acts_on_node caller w w' \<longleftrightarrow>
     w' = w\<lparr>w_node := w_node w', w_subscriptions := w_subscriptions w'\<rparr> \<and>
     (w_subscriptions w' = w_subscriptions w \<or>
      (\<exists>types. w_subscriptions w' = w_subscriptions (apply_subscription caller types w)))"

named_theorems control_frame "how the control methods act on the state"

lemma acts_on_node_refl [control_frame]: "acts_on_node caller w w"
  by (simp add: acts_on_node_def)

lemma acts_on_node_call [control_frame]: "acts_on_node caller w (snd (control_done m r (call_node f w)))"
  by (auto simp: acts_on_node_def control_done_def call_node_def split: prod.splits sum.splits)

lemma acts_on_node_subscribe [control_frame]: "acts_on_node caller w (apply_subscription caller types w)"
  by (auto simp: acts_on_node_def apply_subscription_def)

lemma acts_on_node_params [control_frame]:
  "(\<And>p. acts_on_node caller w (snd (f p))) \<Longrightarrow> acts_on_node caller w (snd (with_params m parsed w f))"
  by (simp add: with_params_def acts_on_node_refl split: sum.split)

lemma acts_on_node_service [control_frame]:
  "(\<And>u. acts_on_node caller w (snd (f u))) \<Longrightarrow> acts_on_node caller w (snd (with_service m w f))"
  by (simp add: with_service_def acts_on_node_refl split: option.split)

lemma acts_on_node_pair [control_frame]: "acts_on_node caller w w' \<Longrightarrow> acts_on_node caller w (snd (r, w'))"
  by simp

lemma acts_on_node_cases [control_frame]:
  "acts_on_node caller w (snd h) \<Longrightarrow> acts_on_node caller w (snd h') \<Longrightarrow>
     acts_on_node caller w (snd (if b then h else h'))"
  "acts_on_node caller w (snd h) \<Longrightarrow> (\<And>x. acts_on_node caller w (snd (g x))) \<Longrightarrow>
     acts_on_node caller w (snd (case v of None \<Rightarrow> h | Some x \<Rightarrow> g x))"
  by (simp_all split: option.split)

lemma control_method_frames [control_frame]:
  "acts_on_node caller w (snd (control_open_channel api p1 w))"
  "acts_on_node caller w (snd (control_connect_peer api p2 w))"
  "acts_on_node caller w (snd (control_disconnect_peer api p3 w))"
  "acts_on_node caller w (snd (control_close_channel api p4 w))"
  "acts_on_node caller w (snd (control_get_channel_fees api p5 w))"
  "acts_on_node caller w (snd (control_set_channel_fees api p6 w))"
  "acts_on_node caller w (snd (control_list_network_nodes api p7 w))"
  "acts_on_node caller w (snd (control_get_network_node api p8 w))"
  "acts_on_node caller w (snd (control_get_network_channel api p9 w))"
  "acts_on_node caller w (snd (control_get_forwarding_history p10 w))"
  "acts_on_node caller w (snd (control_subscribe caller p11 w))"
  unfolding control_open_channel_def control_connect_peer_def control_disconnect_peer_def
    control_close_channel_def control_get_channel_fees_def control_set_channel_fees_def
    control_list_network_nodes_def control_get_network_node_def control_get_network_channel_def
    control_get_forwarding_history_def control_subscribe_def
  by (intro control_frame)+

lemma process_control_frame:
  "acts_on_node caller w (snd (process_control_request api ce req caller w))"
proof (cases "authorize_control_method caller (ctl_method req) (w_profiles w)")
  case (Inl e)
  then show ?thesis by (simp add: process_control_request_def Let_def acts_on_node_refl)
next
  case (Inr u)
  show ?thesis
    unfolding process_control_request_def Let_def Inr sum.case
    by (intro control_frame)
qed

lemma acts_on_node_fields:
  assumes "acts_on_node caller w w'"
  shows "w_profiles w' = w_profiles w" "w_offers w' = w_offers w" "w_addresses w' = w_addresses w"
    "w_history w' = w_history w" "w_service w' = w_service w"
    "wf_hash_map (w_subscriptions w) \<Longrightarrow> wf_hash_map (w_subscriptions w')"
proof -
  have eq: "w' = w\<lparr>w_node := w_node w', w_subscriptions := w_subscriptions w'\<rparr>"
    using assms by (simp add: acts_on_node_def)
  show "w_profiles w' = w_profiles w" "w_offers w' = w_offers w" "w_addresses w' = w_addresses w"
    "w_history w' = w_history w" "w_service w' = w_service w"
    by (subst eq, simp)+
  show "wf_hash_map (w_subscriptions w) \<Longrightarrow> wf_hash_map (w_subscriptions w')"
    using assms by (auto simp: acts_on_node_def)
qed

lemma subscriptions_applied:
  "w_subscriptions (apply_subscription caller types w) =
     (if types = [] then unsubscribe caller (w_subscriptions w) else subscribe caller types (w_subscriptions w))"
  by (simp add: apply_subscription_def)

lemma authorize_Ok:
  "authorize_control_method caller m ps = Ok u \<longleftrightarrow>
     (\<exists>p cs. usage_profiles ps caller = Some p \<and> profile_control p = Some cs \<and>
        (map_of cs m \<noteq> None \<or> map_of cs ''ALL'' \<noteq> None))"
  by (auto simp: authorize_control_method_def get_usage_profile_def result_eqs split: option.splits if_splits)

subsection \<open>The guarantees for control\<close>

definition owner_profile :: usage_profile where
  "owner_profile = \<lparr>profile_quota = None, profile_methods = Some [],
     profile_control = Some [(''subscribe_notifications'', \<lparr>rule_access_rate = Some demo_rule\<rparr>)]\<rparr>"

definition owner_world :: "payment_details list world" where
  "owner_world = demo_world\<lparr>
     w_profiles := upsert_usage_profile_and_reset_states ''olga'' owner_profile 7 demo_state,
     w_subscriptions := subscribe ''olga'' [''payment_received''] []\<rparr>"

definition demo_control_env :: control_env where
  "demo_control_env = \<lparr>de_open_channel = (\<lambda>j. Err ''missing field''), de_connect_peer = (\<lambda>j. Err ''missing field''),
     de_disconnect_peer = (\<lambda>j. Err ''missing field''), de_close_channel = (\<lambda>j. Err ''missing field''),
     de_get_channel_fees = (\<lambda>j. Ok None), de_set_channel_fees = (\<lambda>j. Err ''missing field''),
     de_list_network_nodes = (\<lambda>j. Ok \<lparr>pg_limit = 100, pg_offset = 0\<rparr>),
     de_get_network_node = (\<lambda>j. Err ''missing field''), de_get_network_channel = (\<lambda>j. Err ''missing field''),
     de_get_forwarding_history = (\<lambda>j. Err ''missing field''),
     de_subscribe = (\<lambda>j. Ok [''channel_opened'']),
     de_request = (\<lambda>s. Err ''expected value''), show_control_response = (\<lambda>r. Ok ''{}'')\<rparr>"

definition subscribe_request :: control_request where
  "subscribe_request = \<lparr>ctl_method = ''subscribe_notifications'', ctl_params = JNull\<rparr>"

lemma owner_authorized:
  "authorize_control_method ''olga'' ''subscribe_notifications'' (w_profiles owner_world) = Ok ()"
  by (auto simp: authorize_Ok owner_world_def owner_profile_def)

lemma owner_subscribes:
  "snd (process_control_request demo_api demo_control_env subscribe_request ''olga'' owner_world) =
     apply_subscription ''olga'' [''channel_opened''] owner_world"
  by (simp add: process_control_request_def Let_def owner_authorized subscribe_request_def
      SUPPORTED_CONTROL_METHODS_def control_subscribe_def with_params_def demo_control_env_def
      first_unknown_def KNOWN_NNC_NOTIFICATION_TYPES_def)

text \<open>C13: a control request changes something only if the profile of its author lists the method, or
  \<open>ALL\<close>, among the control methods; and then it changes the node and the author's subscription, never
  a profile, a bucket, an offer or an address: control requests are not metered, whatever access rate
  the profile gives them.\<close>

theorem control_needs_permission_and_is_not_metered:
  assumes "process_control_request api ce req caller w = (resp, w')" and "w' \<noteq> w"
  shows "(\<exists>p cs. usage_profiles (w_profiles w) caller = Some p \<and> profile_control p = Some cs \<and>
      (map_of cs (ctl_method req) \<noteq> None \<or> map_of cs ''ALL'' \<noteq> None)) \<and>
    w' = w\<lparr>w_node := w_node w', w_subscriptions := w_subscriptions w'\<rparr> \<and>
    (\<forall>c t. c \<noteq> caller \<longrightarrow> is_subscribed c t (w_subscriptions w') = is_subscribed c t (w_subscriptions w))"
proof -
  have acts: "acts_on_node caller w w'"
    using process_control_frame [of caller w api ce req] assms(1) by simp
  have "authorize_control_method caller (ctl_method req) (w_profiles w) = Ok ()"
  proof (cases "authorize_control_method caller (ctl_method req) (w_profiles w)")
    case (Inl e)
    with assms show ?thesis by (simp add: process_control_request_def Let_def)
  qed simp
  moreover have "c \<noteq> caller \<Longrightarrow> is_subscribed c t (w_subscriptions w') = is_subscribed c t (w_subscriptions w)" for c t
    using acts by (auto simp: acts_on_node_def apply_subscription_def store_simps split: if_splits)
  ultimately show ?thesis
    using acts authorize_Ok by (metis acts_on_node_def)
qed

theorem control_needs_permission_and_is_not_metered_witness:
  "w_profiles (snd (process_control_request demo_api demo_control_env subscribe_request ''olga'' owner_world)) =
     w_profiles owner_world"
proof -
  obtain resp w' where p: "process_control_request demo_api demo_control_env subscribe_request ''olga'' owner_world
      = (resp, w')" by fastforce
  with owner_subscribes have w': "w' = apply_subscription ''olga'' [''channel_opened''] owner_world" by simp
  have "is_subscribed ''olga'' ''channel_opened'' (w_subscriptions w') \<and>
      \<not> is_subscribed ''olga'' ''channel_opened'' (w_subscriptions owner_world)"
    by (simp add: w' subscriptions_applied owner_world_def store_simps)
  then have "w' \<noteq> owner_world" by auto
  from control_needs_permission_and_is_not_metered [OF p this]
  have eq: "w' = owner_world\<lparr>w_node := w_node w', w_subscriptions := w_subscriptions w'\<rparr>" by blast
  show ?thesis unfolding p snd_conv by (subst eq) simp
qed

text \<open>C39: both protocols share one subscription per client: when a client subscribes to events of its
  node over the control protocol, its subscription to payment notifications is gone.\<close>

theorem control_subscription_replaces_wallet_subscription:
  assumes "authorize_control_method caller ''subscribe_notifications'' (w_profiles w) = Ok ()"
    and "de_subscribe ce params = Ok types" and "set types \<subseteq> set KNOWN_NNC_NOTIFICATION_TYPES"
    and "t \<in> set KNOWN_NWC_NOTIFICATION_TYPES"
  shows "\<not> is_subscribed caller t (w_subscriptions (snd (process_control_request api ce
    \<lparr>ctl_method = ''subscribe_notifications'', ctl_params = params\<rparr> caller w)))"
proof -
  have "first_unknown KNOWN_NNC_NOTIFICATION_TYPES types = None"
    using assms(3) by (auto simp: first_unknown_def find_None_iff)
  then have "snd (process_control_request api ce
      \<lparr>ctl_method = ''subscribe_notifications'', ctl_params = params\<rparr> caller w) = apply_subscription caller types w"
    using assms(1,2) by (simp add: process_control_request_def Let_def SUPPORTED_CONTROL_METHODS_def
        control_subscribe_def with_params_def)
  moreover have "t \<notin> set types"
    using assms(3,4) by (auto simp: KNOWN_NNC_NOTIFICATION_TYPES_def KNOWN_NWC_NOTIFICATION_TYPES_def)
  ultimately show ?thesis by (simp add: subscriptions_applied store_simps)
qed

theorem control_subscription_replaces_wallet_subscription_witness:
  "is_subscribed ''olga'' ''payment_received'' (w_subscriptions owner_world) \<and>
   \<not> is_subscribed ''olga'' ''payment_received'' (w_subscriptions (snd (process_control_request demo_api
       demo_control_env subscribe_request ''olga'' owner_world)))"
  using control_subscription_replaces_wallet_subscription [OF owner_authorized, of demo_control_env JNull
      "[''channel_opened'']" "''payment_received''" demo_api]
  by (simp add: demo_control_env_def KNOWN_NNC_NOTIFICATION_TYPES_def KNOWN_NWC_NOTIFICATION_TYPES_def
      subscribe_request_def)
    (simp add: owner_world_def store_simps)

text \<open>C26: the estimate of the routing fees is the fee and the delay of the first route that the control
  method \<open>query_routes\<close> finds for the same destination and amount; it fails when that finds none.\<close>

theorem fee_estimate_is_the_first_route:
  assumes "estimate_routing_fees_validate req = Ok ()"
    and "req_params req = Params_EstimateRoutingFees destination amount"
  shows "fst (estimate_routing_fees_execute env req w) =
    (case ctl_result (control_query_routes (env_api env)
        (JObject [(''destination'', JString destination), (''amount'', JNat amount)]) w) of
       Some (Control_Routes (route # _)) \<Rightarrow>
         Ok (ok_response Method_EstimateRoutingFees (Result_EstimateRoutingFees (total_fee route) (total_time_lock route)))
     | _ \<Rightarrow> Err (nip47_err Other ''no route found to destination''))"
proof -
  have "destination \<noteq> []" "amount \<noteq> 0"
    using assms by (auto simp: estimate_routing_fees_validate_def split: if_splits)
  then show ?thesis
    using assms(2)
    by (simp add: estimate_routing_fees_execute_def control_query_routes_def Let_def or_empty_def or_zero_def
        control_ok_def control_fail_def split: list.split del: One_nat_def)
qed

theorem fee_estimate_is_the_first_route_witness:
  "fst (estimate_routing_fees_execute demo_env
     \<lparr>req_method = Method_EstimateRoutingFees, req_params = Params_EstimateRoutingFees ''carol'' 5\<rparr>
     (demo_world\<lparr>w_service := None\<rparr>)) = Err (nip47_err Other ''no route found to destination'')"
  using fee_estimate_is_the_first_route [of
      "\<lparr>req_method = Method_EstimateRoutingFees, req_params = Params_EstimateRoutingFees ''carol'' 5\<rparr>"
      "''carol''" 5 demo_env "demo_world\<lparr>w_service := None\<rparr>"]
  by (simp add: estimate_routing_fees_validate_def control_query_routes_def Let_def or_empty_def or_zero_def
      control_fail_def)

end
