(* ===== verification/Service.thy ===== *)
theory Service
  imports Control_Laws Event_Laws
begin

section \<open>The service as a whole: \<open>run_nwc_service\<close> in \<open>src/lib.rs\<close>, and \<open>src/main.rs\<close>\<close>

text \<open>
  The start-up from the configuration, and the three tasks it leaves running: the loop over
  the relay's events, the periodic fetch of grants, and the loop over the node's events. A
  run of the service is a sequence of inputs to these tasks, in any order; between them the
  node may change on its own. One input is handled to its end before the next: the finer
  interleaving of requests in access control is the subject of \<open>Access_Machine\<close>.
\<close>

subsection \<open>The state\<close>

record 'n service =
  sv_world :: "'n world"
  sv_applied :: "pubkey \<rightharpoonup> applied_grant_event"
    \<comment> \<open>\<open>APPLIED_GRANT_EVENTS\<close>\<close>
  sv_relay_pubkey :: "pubkey option"
    \<comment> \<open>\<open>RELAY_PUBKEY\<close>, a cell that can be set once\<close>
  sv_owners :: "string list"
    \<comment> \<open>\<open>OWNERS\<close>\<close>
  sv_sent :: "out_event list"
  sv_relay_tasks :: bool
    \<comment> \<open>the event loop and the fetch of grants have been spawned\<close>
  sv_node_task :: bool
    \<comment> \<open>the loop over the node's events is running\<close>

record 'n service_env =
  se_node :: "'n node_env"
  se_control :: control_env
  se_transport :: transport
  se_notify :: notify_env
  se_profile :: profile_parser

text \<open>A process that has just started, with a node in state \<open>n\<close> to attach.\<close>

definition fresh_service :: "'n \<Rightarrow> 'n service" where
  "fresh_service n =
     \<lparr>sv_world = \<lparr>w_service = None, w_node = n, w_offers = [], w_addresses = [], w_subscriptions = [],
        w_history = [], w_profiles = profile_state_empty, w_forced_failures = {}, w_node_alias = None,
        w_own_pubkey = None\<rparr>,
      sv_applied = Map.empty, sv_relay_pubkey = None, sv_owners = [], sv_sent = [], sv_relay_tasks = False, sv_node_task = False\<rparr>"

definition set_relay_pubkey :: "pubkey \<Rightarrow> 'n service \<Rightarrow> 'n service" where
  "set_relay_pubkey pubkey sv =
     (case sv_relay_pubkey sv of None \<Rightarrow> sv\<lparr>sv_relay_pubkey := Some pubkey\<rparr> | Some _ \<Rightarrow> sv)"

definition set_owners :: "string list \<Rightarrow> 'n service \<Rightarrow> 'n service" where
  "set_owners owners sv = sv\<lparr>sv_owners := owners\<rparr>"

subsection \<open>Announcing and subscribing\<close>

text \<open>
  A subscription at the relay: the kind of the events, the key in their \<open>p\<close> tag, the time
  they must not be older than. The relay's client belongs to a crate.
\<close>

record relay_filter =
  rf_kind :: nat
  rf_pubkey :: "pubkey option"
  rf_since :: "u64 option"

record relay_client =
  rc_add_relay :: "string \<Rightarrow> string + unit"
  rc_subscribe :: "relay_filter \<Rightarrow> string + unit"

definition CONTROL_REQUEST_KIND :: nat where "CONTROL_REQUEST_KIND = 23198"
definition CONTROL_INFO_KIND :: nat where "CONTROL_INFO_KIND = 13198"

fun join_spaces :: "string list \<Rightarrow> string" where
  "join_spaces [] = []"
| "join_spaces [s] = s"
| "join_spaces (s # ss) = s @ '' '' @ join_spaces ss"

definition info_event :: "nat \<Rightarrow> string \<Rightarrow> string \<Rightarrow> out_event" where
  "info_event kind methods_str notifications =
     \<lparr>out_kind = kind, out_content = methods_str,
      out_tags = [[''encryption'', ''nip44_v2 nip04''], [''notifications'', notifications]]\<rparr>"

definition grants_filter :: "pubkey option \<Rightarrow> relay_filter" where
  "grants_filter relay_pubkey = \<lparr>rf_kind = 30078, rf_pubkey = relay_pubkey, rf_since = None\<rparr>"

definition set_global_keys :: "pubkey \<Rightarrow> 'n world \<Rightarrow> 'n world" where
  "set_global_keys keys w = (case w_own_pubkey w of None \<Rightarrow> w\<lparr>w_own_pubkey := Some keys\<rparr> | Some _ \<Rightarrow> w)"

definition send_info :: "'n service_env \<Rightarrow> out_event \<Rightarrow> 'n service \<Rightarrow> (string + unit) \<times> 'n service" where
  "send_info se ev sv =
     (case send_event (se_transport se) ev (sv_world sv, sv_sent sv) of
        (r, w, sent) \<Rightarrow> (r, sv\<lparr>sv_world := w, sv_sent := sent\<rparr>))"

definition run_nwc_service ::
    "'n service_env \<Rightarrow> relay_client \<Rightarrow> pubkey \<Rightarrow> string \<Rightarrow> u64 \<Rightarrow> 'n service \<Rightarrow>
       (string + relay_filter list) \<times> 'n service" where
  "run_nwc_service se rc keys relay_url startup_time sv =
     (let sv = sv\<lparr>sv_world := set_global_keys keys (sv_world sv)\<rparr>;
          methods_str = join_spaces (map (env_method_str (se_node se)) SUPPORTED_METHODS);
          control_methods_str = join_spaces SUPPORTED_CONTROL_METHODS;
          wallet_filter = \<lparr>rf_kind = 23194, rf_pubkey = Some keys, rf_since = Some startup_time\<rparr>;
          control_filter = \<lparr>rf_kind = CONTROL_REQUEST_KIND, rf_pubkey = Some keys, rf_since = Some startup_time\<rparr>;
          grants = grants_filter (sv_relay_pubkey sv)
      in
      sbind (rc_add_relay rc relay_url, sv) (\<lambda>_ sv.
      sbind (send_info se (info_event 13194 methods_str
               ''payment_received payment_sent hold_invoice_accepted'') sv) (\<lambda>_ sv.
      sbind (send_info se (info_event CONTROL_INFO_KIND control_methods_str
               ''channel_opened channel_closed'') sv) (\<lambda>_ sv.
      sbind (rc_subscribe rc wallet_filter, sv) (\<lambda>_ sv.
      sbind (rc_subscribe rc control_filter, sv) (\<lambda>_ sv.
      sbind (rc_subscribe rc grants, sv) (\<lambda>_ sv.
        (Ok [wallet_filter, control_filter, grants], sv\<lparr>sv_relay_tasks := True\<rparr>))))))))"

text \<open>
  With a node attached. The program calls this once per process, so that the alias, a cell
  that can be set once, is unset before.
\<close>

definition run_nwc_service_with_ldk ::
    "'n service_env \<Rightarrow> relay_client \<Rightarrow> pubkey \<Rightarrow> string \<Rightarrow> u64 \<Rightarrow> network \<times> 'n \<Rightarrow> string option \<Rightarrow> 'n service \<Rightarrow>
       (string + relay_filter list) \<times> 'n service" where
  "run_nwc_service_with_ldk se rc keys relay_url startup_time attached node_alias sv =
     (let sv = sv\<lparr>sv_world := (sv_world sv)\<lparr>w_node_alias := node_alias, w_service := Some (fst attached),
                    w_node := snd attached\<rparr>\<rparr>
      in sbind (run_nwc_service se rc keys relay_url startup_time sv) (\<lambda>filters sv.
           (Ok filters, sv\<lparr>sv_node_task := True\<rparr>)))"

subsection \<open>The program: \<open>src/main.rs\<close>\<close>

record node_config =
  nc_network :: string
  nc_listening_port :: u16
  nc_data_dir :: string
  nc_alias :: "string option"

record nostr_config =
  nc_relay :: string
  nc_private_key :: string

record wallet_config =
  wc_max_channel_size_sats :: u64
  wc_min_channel_size_sats :: u64
  wc_auto_accept_channels :: bool

record bitcoind_config =
  bc_rpc_host :: string
  bc_rpc_port :: u16
  bc_rpc_user :: string
  bc_rpc_password :: string

record config =
  c_node :: node_config
  c_nostr :: nostr_config
  c_wallet :: wallet_config
  c_bitcoind :: "bitcoind_config option"

text \<open>The keys of the configuration, or new ones when those do not parse.\<close>

definition choose_keys :: "(string \<Rightarrow> string + pubkey) \<Rightarrow> pubkey \<Rightarrow> config \<Rightarrow> pubkey" where
  "choose_keys parse_keys generated config =
     (case parse_keys (nc_private_key (c_nostr config)) of Ok keys \<Rightarrow> keys | Err _ \<Rightarrow> generated)"

definition ldk_config_of :: "config \<Rightarrow> bitcoind_config \<Rightarrow> ldk_service_config" where
  "ldk_config_of config bitcoind =
     \<lparr>cfg_network = nc_network (c_node config),
      cfg_bitcoind_rpc_host = bc_rpc_host bitcoind,
      cfg_bitcoind_rpc_port = bc_rpc_port bitcoind,
      cfg_bitcoind_rpc_user = bc_rpc_user bitcoind,
      cfg_bitcoind_rpc_password = bc_rpc_password bitcoind,
      cfg_ldk_storage_dir = nc_data_dir (c_node config),
      cfg_ldk_listen_addr = Some (''0.0.0.0:'' @ show_nat (unat (nc_listening_port (c_node config)))),
      cfg_node_alias = nc_alias (c_node config)\<rparr>"

definition main_start ::
    "('b, 'n) node_builder \<Rightarrow> 'n service_env \<Rightarrow> relay_client \<Rightarrow> (string \<Rightarrow> string + pubkey) \<Rightarrow> pubkey \<Rightarrow> config \<Rightarrow>
       u64 \<Rightarrow> 'n service \<Rightarrow> (string + relay_filter list) outcome \<times> 'n service" where
  "main_start bld se rc parse_keys generated config startup_time sv =
     (let keys = choose_keys parse_keys generated config; relay = nc_relay (c_nostr config) in
      case c_bitcoind config of
        Some bitcoind \<Rightarrow>
          (case start_from_config bld (ldk_config_of config bitcoind) of
             Err _ \<Rightarrow> (Panicked, sv)
           | Ok attached \<Rightarrow>
               (case run_nwc_service_with_ldk se rc keys relay startup_time attached (nc_alias (c_node config)) sv of
                  (r, sv) \<Rightarrow> (Returned r, sv)))
      | None \<Rightarrow>
          (case run_nwc_service se rc keys relay startup_time sv of (r, sv) \<Rightarrow> (Returned r, sv)))"

subsection \<open>The tasks\<close>

definition apply_grants :: "'n service_env \<Rightarrow> (nostr_event \<times> nat) list \<Rightarrow> 'n service \<Rightarrow> 'n service" where
  "apply_grants se arrivals sv =
     (let gs = process_grants (se_profile se) (sv_relay_pubkey sv) arrivals
                 \<lparr>applied = sv_applied sv, profiles = w_profiles (sv_world sv)\<rparr>
      in sv\<lparr>sv_applied := applied gs, sv_world := (sv_world sv)\<lparr>w_profiles := profiles gs\<rparr>\<rparr>)"

text \<open>An event of the relay, by its kind; an error of a handler is printed and the loop goes on.\<close>

definition on_relay_event ::
    "'n service_env \<Rightarrow> nat \<Rightarrow> u64 \<Rightarrow> nat \<Rightarrow> nostr_event \<Rightarrow> 'n service \<Rightarrow> 'n service" where
  "on_relay_event se micros now kind ev sv =
     (if kind = 23194 then
        (case handle_nwc_request (se_node se) (se_transport se) ev micros now (sv_world sv, sv_sent sv) of
           (_, w, sent) \<Rightarrow> sv\<lparr>sv_world := w, sv_sent := sent\<rparr>)
      else if kind = CONTROL_REQUEST_KIND then
        (case handle_control_request (env_api (se_node se)) (se_control se) (se_transport se) ev
                (sv_world sv, sv_sent sv) of
           (_, w, sent) \<Rightarrow> sv\<lparr>sv_world := w, sv_sent := sent\<rparr>)
      else if kind = 30078 then apply_grants se [(ev, micros)] sv
      else sv)"

text \<open>An event of the node: an error is printed, a panic would end the loop.\<close>

definition on_node_event :: "'n service_env \<Rightarrow> u64 \<Rightarrow> ldk_event \<Rightarrow> 'n service \<Rightarrow> 'n service" where
  "on_node_event se now event sv =
     (case handle_ldk_event (env_api (se_node se)) (se_transport se) (se_notify se) now event
             (sv_world sv, sv_sent sv) of
        (Returned _, w, sent) \<Rightarrow> sv\<lparr>sv_world := w, sv_sent := sent\<rparr>
      | (Panicked, w, sent) \<Rightarrow> sv\<lparr>sv_world := w, sv_sent := sent, sv_node_task := False\<rparr>)"

text \<open>
  The inputs: an event from the relay with its kind, the grants a periodic fetch brings with
  the times at which they are applied, an event of the node, and a change of the node that
  is none of the program's doing.
\<close>

datatype 'n service_input =
    Relay_Event nat nostr_event
  | Fetched_Grants "(nostr_event \<times> nat) list"
  | Node_Event ldk_event
  | Node_Moves 'n

fun service_step :: "'n service_env \<Rightarrow> nat \<times> u64 \<times> 'n service_input \<Rightarrow> 'n service \<Rightarrow> 'n service" where
  "service_step se (micros, now, Relay_Event kind ev) sv =
     (if sv_relay_tasks sv then on_relay_event se micros now kind ev sv else sv)"
| "service_step se (micros, now, Fetched_Grants arrivals) sv =
     (if sv_relay_tasks sv then apply_grants se arrivals sv else sv)"
| "service_step se (micros, now, Node_Event event) sv =
     (if sv_node_task sv then on_node_event se now event sv else sv)"
| "service_step se (micros, now, Node_Moves n) sv = sv\<lparr>sv_world := (sv_world sv)\<lparr>w_node := n\<rparr>\<rparr>"

fun serve :: "'n service_env \<Rightarrow> (nat \<times> u64 \<times> 'n service_input) list \<Rightarrow> 'n service \<Rightarrow> 'n service" where
  "serve se [] sv = sv"
| "serve se (i # is) sv = serve se is (service_step se i sv)"

end
