(* ===== verification/Service_Laws.thy ===== *)
theory Service_Laws
  imports Service "HOL-Library.Sublist"
begin

section \<open>What the service guarantees in every run\<close>

text \<open>
  The invariants of a run, whatever the order of its inputs: the state stays well-formed,
  nobody's buckets and profile change but by requests and grants of their own, and the
  answers follow the requests. What one input does is put together from the laws of the
  components; the step from one input to a run is taken once, in a locale.
\<close>

subsection \<open>Invariants of a run\<close>

locale run_invariant =
  fixes se :: "'n service_env"
    and allowed :: "nat \<times> u64 \<times> 'n service_input \<Rightarrow> bool"
    and holds :: "'n service \<Rightarrow> bool"
  assumes step: "holds sv \<Longrightarrow> allowed i \<Longrightarrow> holds (service_step se i sv)"
begin

lemma run:
  assumes "holds sv" and "\<forall>i \<in> set is. allowed i"
  shows "holds (serve se is sv)"
  using assms by (induction "is" arbitrary: sv) (auto intro: step)

lemma run_stages:
  assumes "holds sv" and "\<forall>i \<in> set (is @ js). allowed i"
  shows "holds (serve se is sv)" "holds (serve se (is @ js) sv)"
  using assms by (auto intro!: run)

end

subsection \<open>The state stays well-formed\<close>

lemma world_ok_fields:
  assumes "world_ok w" and "in_sync (w_profiles w')" and "wf_offers (w_offers w')"
    and "w_addresses w' = w_addresses w" and "wf_hash_map (w_subscriptions w')"
  shows "world_ok w'"
  using assms by (simp add: world_ok_def)

lemma handle_nwc_request_world:
  assumes "world_ok w"
  shows "world_ok (fst (snd (handle_nwc_request env tr ev micros now (w, sent))))"
proof -
  obtain r w' sent' where h: "handle_nwc_request env tr ev micros now (w, sent) = (r, w', sent')"
    by (metis prod.exhaust)
  from handle_nwc_request_effect [OF h] assms requests_keep_the_state_well_formed h show ?thesis by auto
qed

lemma handle_control_request_effect:
  assumes "handle_control_request api ce tr ev (w, sent) = (r, w', sent')"
  shows "(sent' = sent \<or> (\<exists>c s. sent' = sent @ [response_event 23199 c ev s])) \<and> acts_on_node (ev_pubkey ev) w w'"
proof (cases "get_encryption_scheme ev \<noteq> ''nip04'' \<and> get_encryption_scheme ev \<noteq> ''nip44_v2''")
  case True
  let ?show = "show_control_response ce (control_fail ''unknown'' ''UNSUPPORTED_ENCRYPTION''
      (''unsupported encryption: '' @ get_encryption_scheme ev))"
  from True assms show ?thesis
    by (cases ?show; cases "tr_nip04_encrypt tr (ev_pubkey ev) (projr ?show)")
      (auto simp: handle_control_request_def Let_def send_event_def acts_on_node_refl)
next
  case False
  show ?thesis
  proof (cases "decrypt_content tr (ev_pubkey ev) (ev_content ev) (get_encryption_scheme ev)")
    case (Inl e)
    with False assms show ?thesis by (auto simp: handle_control_request_def Let_def acts_on_node_refl)
  next
    case (Inr plain)
    obtain response w1 where p: "(case de_request ce plain of
        Ok request \<Rightarrow> process_control_request api ce request (ev_pubkey ev) w
      | Err e \<Rightarrow> (control_fail ''unknown'' ''OTHER'' (''invalid control request payload: '' @ e), w)) = (response, w1)"
      by fastforce
    have "acts_on_node (ev_pubkey ev) w w1"
      using p process_control_frame [of "ev_pubkey ev" w api ce] acts_on_node_refl
      by (cases "de_request ce plain") (auto, metis snd_conv)
    then show ?thesis
      using False Inr assms p
      by (cases "show_control_response ce response";
          cases "encrypt_content tr (ev_pubkey ev) (projr (show_control_response ce response)) (get_encryption_scheme ev)")
        (auto simp: handle_control_request_def Let_def send_event_def)
  qed
qed

lemma acts_on_node_world: "acts_on_node pk w w' \<Longrightarrow> world_ok w \<Longrightarrow> world_ok w'"
  by (auto simp: world_ok_def dest: acts_on_node_fields)

text \<open>An event of the node leaves the profiles, the addresses and the subscriptions alone.\<close>

definition acts_on_records :: "'n world \<Rightarrow> 'n world \<Rightarrow> bool" where
  "acts_on_records w w' \<longleftrightarrow> w' = w\<lparr>w_offers := w_offers w', w_history := w_history w'\<rparr> \<and>
     (wf_offers (w_offers w) \<longrightarrow> wf_offers (w_offers w'))"

lemma record_offer_payment_frame:
  "record_offer_payment api h amount w = Returned w' \<Longrightarrow> acts_on_records w w'"
  by (auto simp: record_offer_payment_def acts_on_records_def wf_intros
      split: outcome.splits sum.splits payment_kind.splits option.splits if_splits)

text \<open>What publishing adds to the events that were sent: notifications, also when it fails half way.\<close>

definition adds_notifications :: "out_event list \<Rightarrow> out_event list \<Rightarrow> bool" where
  "adds_notifications sent sent' \<longleftrightarrow>
     (\<exists>new. sent' = sent @ new \<and> (\<forall>e \<in> set new. out_kind e \<in> {23196, 23197, 23200}))"

lemma adds_notifications_refl: "adds_notifications sent sent"
  by (simp add: adds_notifications_def)

lemma adds_notifications_send:
  "adds_notifications (sent @ [notification_event k c pk]) sent' \<Longrightarrow> k \<in> {23196, 23197, 23200} \<Longrightarrow>
     adds_notifications sent sent'"
  by (auto simp: adds_notifications_def notification_event_def)

lemma send_notification:
  assumes "\<And>sent1. adds_notifications sent1 (snd (snd (f () (w, sent1))))" and "k \<in> {23196, 23197, 23200}"
  shows "adds_notifications sent (snd (snd (sbind (send_event tr (notification_event k c pk) (w, sent)) f)))"
proof (cases "tr_send tr (notification_event k c pk) sent")
  case (Inl e)
  then show ?thesis using assms(2)
    by (auto simp: send_event_def adds_notifications_def notification_event_def)
next
  case (Inr u)
  then show ?thesis using adds_notifications_send [OF assms] by (simp add: send_event_def)
qed

lemma sbind_notification:
  "(\<And>x. adds_notifications sent (snd (snd (f x (w, sent))))) \<Longrightarrow>
     adds_notifications sent (snd (snd (sbind (call, w, sent) f)))"
  by (cases call) (auto simp: adds_notifications_refl)

lemma publish_nwc_to_sent: "adds_notifications sent (snd (snd (publish_nwc_to tr ne payload subs (w, sent))))"
  by (induction subs arbitrary: sent)
    (auto simp: adds_notifications_refl intro!: sbind_notification send_notification)

lemma publish_nnc_to_sent: "adds_notifications sent (snd (snd (publish_nnc_to tr ne payload subs (w, sent))))"
  by (induction subs arbitrary: sent)
    (auto simp: adds_notifications_refl intro!: sbind_notification send_notification)

lemma publish_frames:
  "publish_nwc_notification tr ne t payload (w, sent) = (r, w', sent') \<Longrightarrow> w' = w \<and> adds_notifications sent sent'"
  "publish_nnc_notification tr ne t payload (w, sent) = (r, w', sent') \<Longrightarrow> w' = w \<and> adds_notifications sent sent'"
  using publish_state(1) [of tr ne t payload w sent] publish_nwc_to_sent [of sent tr ne payload "get_subscribers t (w_subscriptions w)" w]
    publish_state(2) [of tr ne t payload w sent] publish_nnc_to_sent [of sent tr ne payload "get_subscribers t (w_subscriptions w)" w]
  by (simp_all add: publish_nwc_notification_def publish_nnc_notification_def)

lemma acts_on_records_refl: "acts_on_records w w"
  by (simp add: acts_on_records_def)

lemma handle_ldk_event_frame:
  assumes "handle_ldk_event api tr ne now event (w, sent) = (r, w', sent')"
  shows "acts_on_records w w' \<and> adds_notifications sent sent'"
proof (cases event)
  case (Payment_Received payment_hash amount)
  let ?payload = "ne_show ne (build_payment_received_notification now (hex_payment_hash payment_hash) amount)"
  obtain r1 w1 sent1 where p: "publish_nwc_notification tr ne ''payment_received'' ?payload (w, sent) = (r1, w1, sent1)"
    by (metis prod.exhaust)
  from publish_frames(1) [OF p] p assms Payment_Received show ?thesis
    by (cases r1)
      (auto simp: handle_ldk_event_def Let_def acts_on_records_refl split: outcome.splits
        dest: record_offer_payment_frame)
next
  case (Payment_Forwarded a b c d)
  with assms show ?thesis
    by (auto simp: handle_ldk_event_def acts_on_records_def adds_notifications_refl)
next
  case Other_Event
  with assms show ?thesis
    by (auto simp: handle_ldk_event_def acts_on_records_refl adds_notifications_refl)
qed (use assms in \<open>auto simp: handle_ldk_event_def acts_on_records_refl dest!: publish_frames split: prod.splits\<close>)


lemma acts_on_records_world:
  assumes "acts_on_records w w'" and "world_ok w"
  shows "world_ok w'" "w_profiles w' = w_profiles w"
proof -
  have eq: "w' = w\<lparr>w_offers := w_offers w', w_history := w_history w'\<rparr>"
    using assms(1) by (simp add: acts_on_records_def)
  show "w_profiles w' = w_profiles w" by (subst eq) simp
  have "wf_offers (w_offers w')" using assms by (simp add: acts_on_records_def world_ok_def)
  then show "world_ok w'" using assms(2) by (subst eq) (simp add: world_ok_def)
qed

text \<open>
  The parser of profiles yields maps without duplicate keys: \<open>serde_json\<close> builds hash maps.
\<close>

definition parses_to_maps :: "profile_parser \<Rightarrow> bool" where
  "parses_to_maps parse \<longleftrightarrow> (\<forall>text p. parse text = Ok p \<longrightarrow> wf_profile p)"

lemma grants_in_sync:
  assumes "parses_to_maps parse" and "in_sync (profiles gs)"
  shows "in_sync (profiles (process_grants parse relay as gs))"
  using assms(2)
proof (induction "as" arbitrary: gs)
  case (Cons a as)
  have "in_sync (profiles (process_grant_event parse relay a gs))"
    using process_grant_event_in_sync [OF Cons.prems, of parse "fst a" relay "snd a"] assms(1)
    by (simp add: parses_to_maps_def)
  from Cons.IH [OF this] show ?case by simp
qed simp

lemma grants_keep_others:
  assumes "parses_to_maps parse" and "in_sync (profiles gs)"
    and "\<forall>a \<in> set as. parse_grant_target relay (fst a) \<noteq> Some (access_key_pubkey key)"
  shows "bucket_at (profiles (process_grants parse relay as gs)) key = bucket_at (profiles gs) key \<and>
    usage_profiles (profiles (process_grants parse relay as gs)) (access_key_pubkey key) =
      usage_profiles (profiles gs) (access_key_pubkey key)"
  using assms(2,3)
proof (induction "as" arbitrary: gs)
  case (Cons a as)
  let ?gs = "process_grant_event parse relay a gs"
  obtain ev t where a: "a = (ev, t)" by fastforce
  have "in_sync (profiles ?gs)"
    using process_grant_event_in_sync [OF Cons.prems(1), of parse ev relay t] assms(1) a
    by (simp add: parses_to_maps_def)
  moreover have "bucket_at (profiles ?gs) key = bucket_at (profiles gs) key"
    using Cons.prems assms(1) a
    by (auto simp: process_grant_event_def parses_to_maps_def upsert_keeps_other_buckets
        split: option.splits sum.splits prod.splits bool.splits)
  moreover have "usage_profiles (profiles ?gs) (access_key_pubkey key) = usage_profiles (profiles gs) (access_key_pubkey key)"
    using Cons.prems(2) a by (simp add: process_grant_event_profile supersedes_def)
  ultimately show ?case using Cons by simp
qed simp

text \<open>One input.\<close>

lemma apply_grants_world:
  "sv_world (apply_grants se as sv) =
     (sv_world sv)\<lparr>w_profiles := profiles (process_grants (se_profile se) (sv_relay_pubkey sv) as
        \<lparr>applied = sv_applied sv, profiles = w_profiles (sv_world sv)\<rparr>)\<rparr>"
  "sv_sent (apply_grants se as sv) = sv_sent sv"
  by (simp_all add: apply_grants_def Let_def)

lemma relay_event_wallet:
  obtains r w sent where "handle_nwc_request (se_node se) (se_transport se) ev micros now (sv_world sv, sv_sent sv) = (r, w, sent)"
    "on_relay_event se micros now 23194 ev sv = sv\<lparr>sv_world := w, sv_sent := sent\<rparr>"
  by (cases "handle_nwc_request (se_node se) (se_transport se) ev micros now (sv_world sv, sv_sent sv)")
    (simp add: on_relay_event_def)

lemma relay_event_control:
  obtains r w sent where "handle_control_request (env_api (se_node se)) (se_control se) (se_transport se) ev
      (sv_world sv, sv_sent sv) = (r, w, sent)"
    "on_relay_event se micros now 23198 ev sv = sv\<lparr>sv_world := w, sv_sent := sent\<rparr>"
  by (cases "handle_control_request (env_api (se_node se)) (se_control se) (se_transport se) ev (sv_world sv, sv_sent sv)")
    (simp add: on_relay_event_def CONTROL_REQUEST_KIND_def)

lemma relay_event_other:
  "on_relay_event se micros now 30078 ev sv = apply_grants se [(ev, micros)] sv"
  "kind \<noteq> 23194 \<Longrightarrow> kind \<noteq> 23198 \<Longrightarrow> kind \<noteq> 30078 \<Longrightarrow> on_relay_event se micros now kind ev sv = sv"
  by (simp_all add: on_relay_event_def CONTROL_REQUEST_KIND_def)

lemma relay_event_cases:
  obtains (wallet) "kind = 23194" | (control) "kind = 23198" | (grant) "kind = 30078"
  | (other) "kind \<noteq> 23194" "kind \<noteq> 23198" "kind \<noteq> (30078 :: nat)"
  by blast

lemma node_event_effect:
  obtains w sent where "sv_world (on_node_event se now event sv) = w" "sv_sent (on_node_event se now event sv) = sent"
    "acts_on_records (sv_world sv) w" "adds_notifications (sv_sent sv) sent"
proof -
  obtain r w sent where h: "handle_ldk_event (env_api (se_node se)) (se_transport se) (se_notify se) now event
      (sv_world sv, sv_sent sv) = (r, w, sent)" by (metis prod.exhaust)
  with handle_ldk_event_frame [OF h] show thesis
    by (intro that [of w sent]) (simp_all add: on_node_event_def split: outcome.splits)
qed


lemma apply_grants_ok:
  assumes "parses_to_maps (se_profile se)" and "world_ok (sv_world sv)"
  shows "world_ok (sv_world (apply_grants se as sv))"
  using assms grants_in_sync [OF assms(1), of "\<lparr>applied = sv_applied sv, profiles = w_profiles (sv_world sv)\<rparr>"]
  by (simp add: apply_grants_world world_ok_def)

lemma relay_event_ok:
  assumes "parses_to_maps (se_profile se)" and "world_ok (sv_world sv)"
  shows "world_ok (sv_world (on_relay_event se micros now kind ev sv))"
proof (cases kind rule: relay_event_cases)
  case wallet
  then show ?thesis
    using handle_nwc_request_world [OF assms(2), of "se_node se" "se_transport se" ev micros now "sv_sent sv"]
    by (cases rule: relay_event_wallet [of se ev micros now sv]) simp
next
  case control
  then show ?thesis
    using assms(2) acts_on_node_world
    by (cases rule: relay_event_control [of se ev sv micros now])
      (auto dest: handle_control_request_effect)
qed (use assms in \<open>simp_all add: relay_event_other apply_grants_ok\<close>)

interpretation well_formed: run_invariant se "\<lambda>_. parses_to_maps (se_profile se)"
    "\<lambda>sv. world_ok (sv_world sv)" for se
proof
  fix se :: "'a service_env" and sv :: "'a service" and i :: "nat \<times> u64 \<times> 'a service_input"
  assume ok: "world_ok (sv_world sv)" "parses_to_maps (se_profile se)"
  obtain micros now input where i: "i = (micros, now, input)" by (cases i)
  show "world_ok (sv_world (service_step se i sv))"
  proof (cases input)
    case (Node_Event event)
    then show ?thesis using ok i acts_on_records_world(1)
      by (cases rule: node_event_effect [of se now event sv]) auto
  next
    case (Node_Moves n)
    then show ?thesis using ok i by (simp add: world_ok_def)
  qed (use ok i in \<open>simp_all add: relay_event_ok apply_grants_ok\<close>)
qed

text \<open>The start-up changes the state of a fresh process only in its keys, its alias and its node.\<close>

lemma sbind_keeps:
  "P (snd call) \<Longrightarrow> (\<And>x sv. P sv \<Longrightarrow> P (snd (f x sv))) \<Longrightarrow> P (snd (sbind call f))"
  by (cases call; cases "fst call") auto

lemma send_info_world [simp]: "sv_world (snd (send_info se ev sv)) = sv_world sv"
  by (simp add: send_info_def send_event_def)





text \<open>The key for which grants are accepted is set from outside, and never by the program.\<close>

lemma service_step_relay [simp]: "sv_relay_pubkey (service_step se i sv) = sv_relay_pubkey sv"
proof -
  obtain micros now input where "i = (micros, now, input)" by (cases i)
  then show ?thesis
    by (cases input)
      (simp_all add: on_relay_event_def apply_grants_def on_node_event_def Let_def split: prod.split outcome.split)
qed

lemma serve_relay: "sv_relay_pubkey (serve se inputs sv) = sv_relay_pubkey sv"
  by (induction inputs arbitrary: sv) simp_all

lemma run_nwc_service_relay: "sv_relay_pubkey (snd (run_nwc_service se rc keys url t sv)) = sv_relay_pubkey sv"
  unfolding run_nwc_service_def Let_def
  by (intro sbind_keeps [where P = "\<lambda>sv'. sv_relay_pubkey sv' = sv_relay_pubkey sv"])
    (simp_all add: send_info_def send_event_def)

lemma run_nwc_service_with_ldk_relay:
  "sv_relay_pubkey (snd (run_nwc_service_with_ldk se rc keys url t attached al sv)) = sv_relay_pubkey sv"
  unfolding run_nwc_service_with_ldk_def Let_def
  by (intro sbind_keeps [where P = "\<lambda>sv'. sv_relay_pubkey sv' = sv_relay_pubkey sv"])
    (simp_all add: run_nwc_service_relay)

lemma main_start_relay:
  "sv_relay_pubkey (snd (main_start bld se rc parse_keys generated config t sv)) = sv_relay_pubkey sv"
  unfolding main_start_def Let_def
  by (simp add: case_prod_unfold run_nwc_service_relay run_nwc_service_with_ldk_relay split: option.split sum.split)


definition demo_service_env :: "payment_details list service_env" where
  "demo_service_env = \<lparr>se_node = demo_env, se_control = demo_control_env, se_transport = demo_transport,
     se_notify = demo_notify, se_profile = (\<lambda>text. Ok all_profile)\<rparr>"

definition demo_relay :: relay_client where
  "demo_relay = \<lparr>rc_add_relay = (\<lambda>url. Ok ()), rc_subscribe = (\<lambda>f. Ok ())\<rparr>"

definition demo_config :: config where
  "demo_config = \<lparr>c_node = \<lparr>nc_network = ''regtest'', nc_listening_port = 9735, nc_data_dir = ''data'', nc_alias = None\<rparr>,
     c_nostr = \<lparr>nc_relay = ''wss://relay'', nc_private_key = ''nsec''\<rparr>,
     c_wallet = \<lparr>wc_max_channel_size_sats = 5, wc_min_channel_size_sats = 1, wc_auto_accept_channels = True\<rparr>,
     c_bitcoind = None\<rparr>"

definition demo_builder :: "(unit, payment_details list) node_builder" where
  "demo_builder = \<lparr>builder_new = (), builder_set_network = (\<lambda>net b. b), builder_set_chain_source = (\<lambda>h p u pw b. b),
     builder_set_storage_dir = (\<lambda>d b. b), builder_parse_socket = (\<lambda>a. Ok a),
     builder_set_listening_addresses = (\<lambda>as b. Ok b), builder_set_alias = (\<lambda>a b. Ok b),
     builder_build = (\<lambda>b. Ok []), builder_start = (\<lambda>n. Ok n)\<rparr>"

definition demo_start :: "payment_details list service" where
  "demo_start = snd (main_start demo_builder demo_service_env demo_relay (\<lambda>s. Ok ''us'') ''new'' demo_config 0
     (fresh_service []))"

definition demo_service :: "payment_details list service" where
  "demo_service = serve demo_service_env [(7, 0, Relay_Event 30078 (demo_grant ''a'' 1 ''all''))] demo_start"

lemma demo_start_fields: "sv_relay_tasks demo_start" "sv_applied demo_start = Map.empty" "sv_relay_pubkey demo_start = None"
proof -
  have run: "sv_relay_tasks (snd (run_nwc_service demo_service_env demo_relay k u t sv)) \<and>
      sv_applied (snd (run_nwc_service demo_service_env demo_relay k u t sv)) = sv_applied sv" for k u t sv
    by (simp add: run_nwc_service_def Let_def demo_relay_def send_info_def send_event_def demo_service_env_def
        demo_transport_def)
  have "demo_start = snd (run_nwc_service demo_service_env demo_relay ''us'' ''wss://relay'' 0 (fresh_service []))"
    by (simp add: demo_start_def main_start_def demo_config_def choose_keys_def Let_def split: prod.split)
  with run [of "''us''" "''wss://relay''" 0 "fresh_service []"]
  show "sv_relay_tasks demo_start" "sv_applied demo_start = Map.empty"
    by (simp_all only:) (simp_all add: fresh_service_def)
  show "sv_relay_pubkey demo_start = None" by (simp add: demo_start_def main_start_relay fresh_service_def)
qed



subsection \<open>Nobody else touches a client's buckets\<close>

text \<open>Whom an input is for: the author of a wallet request, the user a grant names.\<close>

fun acts_for :: "pubkey option \<Rightarrow> 'n service_input \<Rightarrow> pubkey set" where
  "acts_for relay (Relay_Event kind ev) =
     (if kind = 23194 then {ev_pubkey ev}
      else if kind = 30078 then set_option (parse_grant_target relay ev) else {})"
| "acts_for relay (Fetched_Grants arrivals) = {pk. \<exists>a \<in> set arrivals. parse_grant_target relay (fst a) = Some pk}"
| "acts_for relay (Node_Event event) = {}"
| "acts_for relay (Node_Moves n) = {}"

text \<open>What a client has: the bucket of a key, and the profile.\<close>

definition holdings :: "access_key \<Rightarrow> 'n service \<Rightarrow> rate_state option \<times> usage_profile option" where
  "holdings key sv = (bucket_at (w_profiles (sv_world sv)) key,
     usage_profiles (w_profiles (sv_world sv)) (access_key_pubkey key))"

lemma holdings_same_profiles:
  "w_profiles (sv_world sv') = w_profiles (sv_world sv) \<Longrightarrow> holdings key sv' = holdings key sv"
  by (simp add: holdings_def)

lemma apply_grants_holdings:
  assumes "parses_to_maps (se_profile se)" and "world_ok (sv_world sv)"
    and "\<forall>a \<in> set as. parse_grant_target (sv_relay_pubkey sv) (fst a) \<noteq> Some (access_key_pubkey key)"
  shows "holdings key (apply_grants se as sv) = holdings key sv"
  using assms grants_keep_others [OF assms(1), of "\<lparr>applied = sv_applied sv, profiles = w_profiles (sv_world sv)\<rparr>" as]
  by (simp add: apply_grants_world world_ok_def holdings_def)

lemma wallet_request_holdings:
  assumes "world_ok w" and "access_key_pubkey key \<noteq> ev_pubkey ev"
    and "handle_nwc_request env tr ev micros now (w, sent) = (r, w', sent')"
  shows "bucket_at (w_profiles w') key = bucket_at (w_profiles w) key \<and>
    usage_profiles (w_profiles w') = usage_profiles (w_profiles w)"
proof -
  have "in_sync (w_profiles w)" using assms(1) by (simp add: world_ok_def)
  then show ?thesis
    using handle_nwc_request_effect [OF assms(3)] request_touches_own_buckets [OF _ assms(2)] request_keeps_profiles
    by metis
qed

lemma relay_event_holdings:
  assumes "parses_to_maps (se_profile se)" and "world_ok (sv_world sv)"
    and "access_key_pubkey key \<notin> acts_for (sv_relay_pubkey sv) (Relay_Event kind ev)"
  shows "holdings key (on_relay_event se micros now kind ev sv) = holdings key sv"
proof (cases kind rule: relay_event_cases)
  case wallet
  then show ?thesis
    using assms(2,3) wallet_request_holdings [of "sv_world sv" key ev]
    by (cases rule: relay_event_wallet [of se ev micros now sv]) (auto simp: holdings_def)
next
  case control
  obtain r w sent where h: "handle_control_request (env_api (se_node se)) (se_control se) (se_transport se) ev
      (sv_world sv, sv_sent sv) = (r, w, sent)"
      "on_relay_event se micros now 23198 ev sv = sv\<lparr>sv_world := w, sv_sent := sent\<rparr>"
    by (rule relay_event_control)
  then have "w_profiles w = w_profiles (sv_world sv)"
    using handle_control_request_effect acts_on_node_fields(1) by blast
  then show ?thesis using control h(2) by (intro holdings_same_profiles) simp
qed (use assms in \<open>simp_all add: relay_event_other apply_grants_holdings\<close>)

interpretation isolated: run_invariant se
    "\<lambda>i. parses_to_maps (se_profile se) \<and> access_key_pubkey key \<notin> acts_for relay (snd (snd i))"
    "\<lambda>sv. world_ok (sv_world sv) \<and> sv_relay_pubkey sv = relay \<and> holdings key sv = h" for se key h relay
proof
  fix se :: "'a service_env" and sv :: "'a service" and i :: "nat \<times> u64 \<times> 'a service_input" and key h relay
  assume inv: "world_ok (sv_world sv) \<and> sv_relay_pubkey sv = relay \<and> holdings key sv = h"
    and allowed: "parses_to_maps (se_profile se) \<and> access_key_pubkey key \<notin> acts_for relay (snd (snd i))"
  obtain micros now input where i: "i = (micros, now, input)" by (cases i)
  have "holdings key (service_step se i sv) = h"
  proof (cases input)
    case (Node_Event event)
    have "w_profiles (sv_world (on_node_event se now event sv)) = w_profiles (sv_world sv)"
      using inv acts_on_records_world(2) by (cases rule: node_event_effect [of se now event sv]) blast
    then have "holdings key (on_node_event se now event sv) = holdings key sv"
      by (rule holdings_same_profiles)
    then show ?thesis using inv i Node_Event by simp
  next
    case (Node_Moves n)
    then show ?thesis using inv i by (simp add: holdings_def)
  qed (use inv allowed i in \<open>auto simp: relay_event_holdings apply_grants_holdings\<close>)
  then show "world_ok (sv_world (service_step se i sv)) \<and> sv_relay_pubkey (service_step se i sv) = relay \<and>
      holdings key (service_step se i sv) = h"
    using inv allowed well_formed.step by (metis service_step_relay)
qed

text \<open>C2: no run of the service changes the profile of a client or a bucket of one of its keys, unless
  the client itself makes a request or a grant names it: neither other clients, nor control requests,
  nor the node's events touch what it may still spend.\<close>

theorem nobody_spends_for_another:
  assumes "\<forall>text p. se_profile se text = Ok p \<longrightarrow> wf_profile p" and "world_ok (sv_world sv)"
    and "\<forall>(micros, now, input) \<in> set inputs. access_key_pubkey key \<notin> acts_for (sv_relay_pubkey sv) input"
  shows "bucket_at (w_profiles (sv_world (serve se inputs sv))) key = bucket_at (w_profiles (sv_world sv)) key \<and>
    usage_profiles (w_profiles (sv_world (serve se inputs sv))) (access_key_pubkey key) =
      usage_profiles (w_profiles (sv_world sv)) (access_key_pubkey key)"
proof -
  have "parses_to_maps (se_profile se)" using assms(1) by (simp add: parses_to_maps_def)
  then have "holdings key (serve se inputs sv) = holdings key sv"
    using isolated.run [of sv "sv_relay_pubkey sv" key "holdings key sv" inputs se] assms(2,3) by fastforce
  then show ?thesis by (simp add: holdings_def)
qed


theorem nobody_spends_for_another_witness:
  "bucket_at (w_profiles (sv_world (serve demo_service_env
      [(9, 0, Relay_Event 23194 (demo_event\<lparr>ev_pubkey := ''bob''\<rparr>)), (9, 0, Node_Event Other_Event)]
      \<lparr>sv_world = demo_world, sv_applied = Map.empty, sv_relay_pubkey = None, sv_owners = [], sv_sent = [], sv_relay_tasks = True, sv_node_task = True\<rparr>)))
     (AccessKey_Quota ''alice'') = Some \<lparr>balance = 5000, last_refill_micros = 7\<rparr>"
proof -
  let ?sv = "\<lparr>sv_world = demo_world, sv_applied = Map.empty, sv_relay_pubkey = None, sv_owners = [], sv_sent = [], sv_relay_tasks = True, sv_node_task = True\<rparr>"
  have p: "\<forall>text p. se_profile demo_service_env text = Ok p \<longrightarrow> wf_profile p"
    by (simp add: demo_service_env_def wf_profile_def all_profile_def)
  have w: "world_ok (sv_world ?sv)"
    by (simp add: world_ok_def demo_world_def demo_in_sync wf_offers_def wf_addresses_ops wf_intros)
  have "bucket_at demo_state (AccessKey_Quota ''alice'') = Some \<lparr>balance = 5000, last_refill_micros = 7\<rparr>"
    by (simp add: demo_state_eq quota_bucket_def deref_def)
  then show ?thesis
    using nobody_spends_for_another [OF p w, of "[(9, 0, Relay_Event 23194 (demo_event\<lparr>ev_pubkey := ''bob''\<rparr>)),
      (9, 0, Node_Event Other_Event)]" "AccessKey_Quota ''alice''"]
    by (simp del: serve.simps service_step.simps bucket_at.simps)
qed

subsection \<open>Grants of strangers\<close>

text \<open>C35: the program never sets the key for which it accepts grants, so that in every run from its start
  a grant counts whatever node it names and whoever signed it: if it is the newest for its user and
  its profile parses, that profile is in force from then on.\<close>

theorem any_grant_for_any_node_is_accepted:
  assumes sv: "sv = serve se inputs (snd (main_start bld se rc parse_keys generated config t (fresh_service n)))"
    and "sv_relay_tasks sv"
    and "ev_tags ev = [''d'', node @ CHR '':'' # user] # tags" and "CHR '':'' \<notin> set node" and "user \<noteq> []"
    and "case sv_applied sv user of None \<Rightarrow> True | Some newest \<Rightarrow> newest < stamp ev"
    and "se_profile se (ev_content ev) = Ok p"
  shows "get_usage_profile user (w_profiles (sv_world
    (service_step se (micros, now, Relay_Event 30078 (ev\<lparr>ev_pubkey := anyone\<rparr>)) sv))) = Some p"
proof -
  let ?ev = "ev\<lparr>ev_pubkey := anyone\<rparr>"
  have relay: "sv_relay_pubkey sv = None" unfolding sv serve_relay main_start_relay by (simp add: fresh_service_def)
  have "parse_grant_target None ?ev = Some user"
    using assms(3-5) by (simp add: parse_grant_target_def splitn2_append_sep)
  moreover have "stamp ?ev = stamp ev" by (simp add: stamp_def)
  ultimately have "supersedes None ?ev user \<lparr>applied = sv_applied sv, profiles = w_profiles (sv_world sv)\<rparr>"
    using assms(6) by (cases "sv_applied sv user") (simp_all add: supersedes_def)
  with assms(2,7) relay show ?thesis
    by (simp add: relay_event_other apply_grants_world get_usage_profile_def process_grant_event_profile)
qed

theorem any_grant_for_any_node_is_accepted_witness:
  "get_usage_profile ''mallory'' (w_profiles (sv_world (service_step demo_service_env (9, 0, Relay_Event 30078
     \<lparr>ev_id = ''b'', ev_pubkey = ''mallory'', ev_created_at = 3, ev_tags = [[''d'', ''elsewhere:mallory'']],
      ev_content = ''everything''\<rparr>) demo_service))) = Some all_profile"
proof -
  let ?ev = "\<lparr>ev_id = ''b'', ev_pubkey = ''mallory'', ev_created_at = 3, ev_tags = [[''d'', ''elsewhere:mallory'']],
      ev_content = ''everything''\<rparr>"
  have running: "sv_relay_tasks demo_service" and unseen: "sv_applied demo_service ''mallory'' = None"
    by (simp_all add: demo_service_def demo_start_fields relay_event_other apply_grants_def Let_def
        demo_service_env_def process_grant_event_applied supersedes_def parse_grant_target_def demo_grant_def)
  have "ev_tags ?ev = [''d'', ''elsewhere'' @ CHR '':'' # ''mallory''] # []" by simp
  from any_grant_for_any_node_is_accepted [OF demo_service_def [unfolded demo_start_def] running this, of all_profile 9 0 "''mallory''"]
    unseen show ?thesis by (simp add: demo_service_env_def)
qed

text \<open>The owners of the node are kept and never consulted: no step depends on them.\<close>

lemma owners_do_not_matter:
  "serve se inputs (set_owners owners sv) = set_owners owners (serve se inputs sv)"
proof -
  have "service_step se i (set_owners owners sv) = set_owners owners (service_step se i sv)" for i sv
  proof -
    obtain micros now input where "i = (micros, now, input)" by (cases i)
    then show ?thesis
      by (cases input) (simp_all add: set_owners_def on_relay_event_def apply_grants_def on_node_event_def Let_def
          split: prod.split outcome.split)
  qed
  then show ?thesis by (induction inputs arbitrary: sv) simp_all
qed

subsection \<open>Answers follow requests\<close>

text \<open>The answers a run may give, by kind and by the tags that say to whom and about what.\<close>

fun requested :: "'n service_input \<Rightarrow> (nat \<times> string list list) list" where
  "requested (Relay_Event kind ev) =
     (if kind = 23194 then [(23195, [[''p'', ev_pubkey ev], [''e'', ev_id ev]])]
      else if kind = 23198 then [(23199, [[''p'', ev_pubkey ev], [''e'', ev_id ev]])] else [])"
| "requested (Fetched_Grants arrivals) = []"
| "requested (Node_Event event) = []"
| "requested (Node_Moves n) = []"

definition answers :: "out_event list \<Rightarrow> (nat \<times> string list list) list" where
  "answers sent = map (\<lambda>e. (out_kind e, take 2 (out_tags e))) (filter (\<lambda>e. out_kind e \<in> {23195, 23199}) sent)"

lemma answers_simps [simp]:
  "answers [] = []" "answers (xs @ ys) = answers xs @ answers ys"
  "answers [response_event 23195 c ev s] = [(23195, [[''p'', ev_pubkey ev], [''e'', ev_id ev]])]"
  "answers [response_event 23199 c ev s] = [(23199, [[''p'', ev_pubkey ev], [''e'', ev_id ev]])]"
  by (simp_all add: answers_def response_event_def)

lemma step_answers:
  "\<exists>new. sv_sent (service_step se (micros, now, input) sv) = sv_sent sv @ new \<and>
     subseq (answers new) (requested input)"
proof (cases input)
  case (Relay_Event kind ev)
  show ?thesis
  proof (cases kind rule: relay_event_cases)
    case wallet
    then show ?thesis using Relay_Event
      by (cases rule: relay_event_wallet [of se ev micros now sv])
        (auto dest: handle_nwc_request_effect intro: exI [of _ "[]"])
  next
    case control
    then show ?thesis using Relay_Event
      by (cases rule: relay_event_control [of se ev sv micros now])
        (auto dest: handle_control_request_effect intro: exI [of _ "[]"])
  qed (use Relay_Event in \<open>simp_all add: relay_event_other apply_grants_world\<close>)
next
  case (Node_Event event)
  obtain new where "sv_sent (on_node_event se now event sv) = sv_sent sv @ new"
      "\<forall>e \<in> set new. out_kind e \<in> {23196, 23197, 23200}"
    by (cases rule: node_event_effect [of se now event sv]) (auto simp: adds_notifications_def)
  moreover from this have "answers new = []" by (auto simp: answers_def filter_empty_conv)
  ultimately show ?thesis using Node_Event by auto
qed (simp_all add: apply_grants_world)

text \<open>C10: in every run the answers to wallet and control requests come in the order of the requests, at
  most one for each, of the kind that belongs to the request, to its author and about it; grants and
  events of the node cause no answer. What was sent before stays.\<close>

theorem answers_follow_requests:
  "\<exists>new. sv_sent (serve se inputs sv) = sv_sent sv @ new \<and>
     subseq (map (\<lambda>e. (out_kind e, take 2 (out_tags e))) (filter (\<lambda>e. out_kind e \<in> {23195, 23199}) new))
       (concat (map (\<lambda>(micros, now, input). requested input) inputs))"
  unfolding answers_def [symmetric]
proof (induction inputs arbitrary: sv)
  case (Cons i inputs)
  obtain micros now input where i: "i = (micros, now, input)" by (cases i)
  obtain new where new: "sv_sent (service_step se i sv) = sv_sent sv @ new" "subseq (answers new) (requested input)"
    using step_answers i by metis
  obtain rest where "sv_sent (serve se inputs (service_step se i sv)) = sv_sent (service_step se i sv) @ rest"
    "subseq (answers rest) (concat (map (\<lambda>(micros, now, input). requested input) inputs))"
    using Cons.IH by blast
  with new i show ?case
    by (intro exI [of _ "new @ rest"]) (simp add: list_emb_append_mono)
qed simp

end
