(* ===== verification/Quota_Laws.thy ===== *)
theory Quota_Laws
  imports Service_Laws
begin

section \<open>What a client can spend in a run of the service\<close>

text \<open>
  A quota without refill is a bound on everything a client spends until its next grant: over
  any run of the service the metered amounts of the requests that are answered without an
  error, and what is left in the bucket, are no more than what was in it.
\<close>

subsection \<open>Refusals\<close>

text \<open>Every refusal is an error.\<close>

lemma prepare_error:
  assumes "prepare_updates as_str parse req caller ps = Err resp"
  shows "\<exists>e. resp = error_response (req_method req) e"
proof (cases "get_usage_profile caller ps")
  case None
  with assms show ?thesis by (auto simp: prepare_updates_def unauthorized_response_def)
next
  case (Some p)
  let ?m = "req_method req" and ?spend = "case request_spend_msat parse req of None \<Rightarrow> 0 | Some a \<Rightarrow> a"
  show ?thesis
  proof (cases "method_rule_for ?m p")
    case (Inl r)
    with assms Some have "method_rule_for ?m p = Err resp" by (simp add: prepare_updates_def)
    then show ?thesis by (auto simp: method_rule_for_def access_denied_response_def split: option.splits if_splits)
  next
    case (Inr mr)
    note outer = Some Inr
    show ?thesis
    proof (cases "access_rate_updates ?m caller mr (access ps)")
      case (Inl r)
      with assms outer have "access_rate_updates ?m caller mr (access ps) = Err resp"
        by (simp add: prepare_updates_def)
      then show ?thesis using updates_error_code(1) by blast
    next
      case (Inr us)
      with assms outer have "quota_updates ?m caller ?spend (profile_quota p) (access ps) = Err resp"
        by (cases "quota_updates ?m caller ?spend (profile_quota p) (access ps)") (simp_all add: prepare_updates_def)
      then show ?thesis using updates_error_code(2) by blast
    qed
  qed
qed

lemma refusal_is_error:
  assumes "fst (verify_access as_str parse req caller micros ps) = Err resp"
  shows "error resp \<noteq> None"
proof -
  have "\<exists>e. resp = error_response (req_method req) e"
  proof (cases "prepare_updates as_str parse req caller ps")
    case (Inl resp')
    with assms have "resp' = resp" by (simp add: verify_access_def)
    with prepare_error [OF Inl] show ?thesis by simp
  next
    case (Inr us)
    with assms have "fst (settle (req_method req) (now_micros micros) us (access ps)) = Err resp"
      by (auto simp: verify_access_settle result_eqs split: prod.splits)
    from settle_error_code [OF this] show ?thesis by auto
  qed
  then show ?thesis by (auto simp: error_response_def)
qed

subsection \<open>One request\<close>

text \<open>What a bucket of a quota without refill loses is at least what an answered request is metered at.\<close>

definition holds_quota :: "pubkey \<Rightarrow> rate_limit_rule \<Rightarrow> int \<Rightarrow> profile_state \<Rightarrow> bool" where
  "holds_quota pk rule left ps \<longleftrightarrow> rule_at ps (AccessKey_Quota pk) = Some rule \<and>
     (\<exists>s. bucket_at ps (AccessKey_Quota pk) = Some s \<and> sint (balance s) = left)"

definition metered :: "bip321_parser \<Rightarrow> nip47_request \<Rightarrow> nip47_response \<Rightarrow> nat" where
  "metered parse req resp = (if error resp = None then unat (spend_of parse req) else 0)"

lemma quota_charged:
  assumes "in_sync ps" and "verify_access as_str parse req caller micros ps = (Ok us, ps')"
    and "rule_at ps (AccessKey_Quota caller) = Some rule"
  shows "case find (\<lambda>u. upd_key u = AccessKey_Quota caller) us of
      None \<Rightarrow> spend_of parse req = 0
    | Some u \<Rightarrow> u \<in> set us \<and> upd_key u = AccessKey_Quota caller \<and> upd_rule u = rule \<and> upd_amount u = spend_of parse req"
proof -
  obtain p r q where p: "usage_profiles ps caller = Some p"
    and us: "us = updates_of (req_method req) caller (spend_of parse req) r q"
    and q: "map_option fst q = quota_rule_for (spend_of parse req) p"
    using verify_access_granted [OF assms(1,2)] by metis
  have "profile_quota p = Some rule" using assms(3) p by simp
  with q us show ?thesis
    by (cases r; cases q) (auto simp: updates_of_def quota_rule_for_def word_gt_0 split: if_splits)
qed

lemma request_spends_at_most:
  assumes sync: "in_sync (w_profiles w)" and "rate_per_micro rule = 0"
    and "holds_quota caller rule left (w_profiles w)"
    and p: "process_nwc_request env req caller micros now w = (resp, w')"
  shows "\<exists>left'. holds_quota caller rule left' (w_profiles w') \<and>
    int (metered (env_parse_uri env) req resp) + left' \<le> left"
proof -
  let ?key = "AccessKey_Quota caller"
  from assms(3) obtain s where rule: "rule_at (w_profiles w) ?key = Some rule"
    and s: "bucket_at (w_profiles w) ?key = Some s" "sint (balance s) = left" by (auto simp: holds_quota_def)
  have rule': "rule_at (w_profiles w') ?key = Some rule"
    using request_keeps_profiles [of env req caller micros now w] p rule by simp
  have w': "w' = snd (process_nwc_request env req caller micros now w)"
    and resp: "resp = fst (process_nwc_request env req caller micros now w)" using p by simp_all
  have ok: "bucket_ok rule s"
    using in_syncD(4) [OF sync, of ?key] rule bucket_matches_Some s by fastforce
  have level: "level_at s t rule = left" for t using level_without_refill [OF ok assms(2)] s(2) by simp
  show ?thesis
  proof (cases rule: process_profiles [of env req caller micros now w])
    case refused
    then have "metered (env_parse_uri env) req resp = 0" "w' = w"
      using p refusal_is_error [of "env_method_str env" "env_parse_uri env" req caller micros "w_profiles w"]
      by (auto simp: metered_def isl_def)
    with assms(3) show ?thesis by auto
  next
    case (debited us ps)
    note v = debited(1)
    have b: "bucket_at ps ?key = Some (charged us (now_micros micros) ?key s)"
      using bucket_at_settled(1) [OF sync v, of ?key] s(1) by simp
    have "sint (balance (charged us (now_micros micros) ?key s)) = left - int (unat (spend_of (env_parse_uri env) req))"
    proof (cases "find (\<lambda>u. upd_key u = ?key) us")
      case None
      with quota_charged [OF sync v rule] s(2) show ?thesis by (simp add: charged_def)
    next
      case (Some u)
      with quota_charged [OF sync v rule] have u: "u \<in> set us" "upd_key u = ?key" "upd_rule u = rule"
        "upd_amount u = spend_of (env_parse_uri env) req" by simp_all
      from bucket_at_settled(2) [OF sync v u(1), of s] u s(1)
      have paid: "fst (withdraw_after_refill s (upd_amount u) (now_micros micros) rule) = Ok ()" by simp
      from ok show ?thesis
        by (cases rule: withdraw_cases [of rule s "upd_amount u" "now_micros micros"])
          (use paid Some u level in \<open>auto simp: charged_def simp del: of_nat_unat\<close>)
    qed
    with b rule' debited(2) show ?thesis
      by (intro exI [of _ "left - int (unat (spend_of (env_parse_uri env) req))"])
        (simp add: holds_quota_def w' metered_def del: of_nat_unat bucket_at.simps rule_at.simps)
  next
    case (refunded us ps)
    note v = refunded(1)
    have "bucket_at (w_profiles w') ?key = (case find (\<lambda>u. upd_key u = ?key) us of
         None \<Rightarrow> Some s | Some u \<Rightarrow> Some (s\<lparr>balance := i64_of_int (level_at s (now_micros micros) (upd_rule u))\<rparr>))"
      using refunded_level [OF sync v, of ?key] s(1) refunded(2) by (simp add: w' split: option.splits del: bucket_at.simps)
    moreover have "sint (i64_of_int left) = left" using s(2) sint_i64_range [of "balance s"] by (intro sint_i64_of_int) auto
    moreover have "upd_rule u = rule" if "find (\<lambda>u. upd_key u = ?key) us = Some u" for u
      using quota_charged [OF sync v rule] that by simp
    ultimately have "\<exists>s'. bucket_at (w_profiles w') ?key = Some s' \<and> sint (balance s') = left"
      using s(2) level by (cases "find (\<lambda>u. upd_key u = ?key) us") auto
    moreover have "metered (env_parse_uri env) req resp = 0" using refunded(3) resp by (auto simp: metered_def)
    ultimately show ?thesis using rule' by (auto simp: holds_quota_def)
  qed
qed

subsection \<open>A run of the service\<close>

text \<open>The request in an event, and what the answer to it is metered at.\<close>

definition request_of :: "transport \<Rightarrow> nostr_event \<Rightarrow> nip47_request option" where
  "request_of tr ev =
     (let scheme = get_encryption_scheme ev in
      if scheme \<noteq> ''nip04'' \<and> scheme \<noteq> ''nip44_v2'' then None
      else (case decrypt_content tr (ev_pubkey ev) (ev_content ev) scheme of
              Err _ \<Rightarrow> None
            | Ok plain \<Rightarrow> (case tr_parse_request tr plain of Err _ \<Rightarrow> None | Ok req \<Rightarrow> Some req)))"

lemma handle_nwc_request_request:
  "fst (snd (handle_nwc_request env tr ev micros now (w, sent))) =
     (case request_of tr ev of None \<Rightarrow> w | Some req \<Rightarrow> snd (process_nwc_request env req (ev_pubkey ev) micros now w))"
proof (cases "request_of tr ev")
  case None
  then show ?thesis
    by (auto simp: handle_nwc_request_def request_of_def Let_def send_event_def sbind_def
        split: sum.splits if_splits prod.splits)
next
  case (Some req)
  obtain resp w' where "process_nwc_request env req (ev_pubkey ev) micros now w = (resp, w')" by fastforce
  with Some show ?thesis
    by (auto simp: handle_nwc_request_def request_of_def Let_def send_event_def sbind_def
        split: sum.splits if_splits prod.splits)
qed

fun spent_on :: "'n service_env \<Rightarrow> pubkey \<Rightarrow> nat \<times> u64 \<times> 'n service_input \<Rightarrow> 'n service \<Rightarrow> nat" where
  "spent_on se pk (micros, now, Relay_Event kind ev) sv =
     (if sv_relay_tasks sv \<and> kind = 23194 \<and> ev_pubkey ev = pk
      then (case request_of (se_transport se) ev of
              None \<Rightarrow> 0
            | Some req \<Rightarrow> metered (env_parse_uri (se_node se)) req
                (fst (process_nwc_request (se_node se) req pk micros now (sv_world sv))))
      else 0)"
| "spent_on se pk (micros, now, input) sv = 0"

fun spent_in_run :: "'n service_env \<Rightarrow> pubkey \<Rightarrow> (nat \<times> u64 \<times> 'n service_input) list \<Rightarrow> 'n service \<Rightarrow> nat" where
  "spent_in_run se pk [] sv = 0"
| "spent_in_run se pk (i # is) sv = spent_on se pk i sv + spent_in_run se pk is (service_step se i sv)"

definition only_requests :: "pubkey option \<Rightarrow> pubkey \<Rightarrow> 'n service_input \<Rightarrow> bool" where
  "only_requests relay pk input \<longleftrightarrow> pk \<in> acts_for relay input \<longrightarrow> (\<exists>ev. input = Relay_Event 23194 ev)"

lemma holds_quota_holdings:
  assumes "holdings (AccessKey_Quota pk) sv' = holdings (AccessKey_Quota pk) sv"
  shows "holds_quota pk rule left (w_profiles (sv_world sv')) \<longleftrightarrow> holds_quota pk rule left (w_profiles (sv_world sv))"
  using assms by (simp add: holds_quota_def holdings_def)

lemma step_spends_at_most:
  assumes maps: "parses_to_maps (se_profile se)" and wok: "world_ok (sv_world sv)"
    and "rate_per_micro rule = 0"
    and quota: "holds_quota pk rule left (w_profiles (sv_world sv))"
    and only: "only_requests (sv_relay_pubkey sv) pk input"
  shows "\<exists>left'. holds_quota pk rule left' (w_profiles (sv_world (service_step se (micros, now, input) sv))) \<and>
    int (spent_on se pk (micros, now, input) sv) + left' \<le> left"
proof (cases "pk \<in> acts_for (sv_relay_pubkey sv) input")
  case False
  then have "holdings (AccessKey_Quota pk) (service_step se (micros, now, input) sv) = holdings (AccessKey_Quota pk) sv"
    using isolated.step [of sv "sv_relay_pubkey sv" "AccessKey_Quota pk" _ se "(micros, now, input)"] maps wok by simp
  from holds_quota_holdings [OF this] quota
  have "holds_quota pk rule left (w_profiles (sv_world (service_step se (micros, now, input) sv)))" by simp
  moreover have "spent_on se pk (micros, now, input) sv = 0" using False by (cases input) auto
  ultimately show ?thesis by (intro exI [of _ left]) simp
next
  case True
  with only obtain ev where input: "input = Relay_Event 23194 ev" and pk: "ev_pubkey ev = pk"
    by (auto simp: only_requests_def)
  show ?thesis
  proof (cases "sv_relay_tasks sv")
    case False
    with input quota show ?thesis by auto
  next
    case True
    note running = this
    let ?w = "fst (snd (handle_nwc_request (se_node se) (se_transport se) ev micros now (sv_world sv, sv_sent sv)))"
    have step: "sv_world (service_step se (micros, now, input) sv) = ?w"
      using running input by (simp add: on_relay_event_def split: prod.split)
    show ?thesis
    proof (cases "request_of (se_transport se) ev")
      case None
      with step quota input show ?thesis by (auto simp: handle_nwc_request_request)
    next
      case (Some req)
      obtain resp w' where p: "process_nwc_request (se_node se) req pk micros now (sv_world sv) = (resp, w')" by fastforce
      have "in_sync (w_profiles (sv_world sv))" using wok by (simp add: world_ok_def)
      from request_spends_at_most [OF this assms(3) quota p] show ?thesis
        using Some p step input pk running by (simp add: handle_nwc_request_request)
    qed
  qed
qed

lemma run_spends_at_most:
  assumes maps: "parses_to_maps (se_profile se)" and "rate_per_micro rule = 0"
    and "world_ok (sv_world sv)" and "holds_quota pk rule left (w_profiles (sv_world sv))"
    and "\<forall>i \<in> set inputs. only_requests (sv_relay_pubkey sv) pk (snd (snd i))"
  shows "\<exists>left'. holds_quota pk rule left' (w_profiles (sv_world (serve se inputs sv))) \<and>
    int (spent_in_run se pk inputs sv) + left' \<le> left"
  using assms(3-5)
proof (induction inputs arbitrary: sv left)
  case (Cons i inputs)
  obtain micros now input where i: "i = (micros, now, input)" by (cases i)
  with Cons.prems(3) have "only_requests (sv_relay_pubkey sv) pk input" by simp
  from step_spends_at_most [OF maps Cons.prems(1) assms(2) Cons.prems(2) this, of micros now] i
  obtain mid where mid: "holds_quota pk rule mid (w_profiles (sv_world (service_step se i sv)))"
    "int (spent_on se pk i sv) + mid \<le> left" by blast
  have "world_ok (sv_world (service_step se i sv))" using well_formed.step [OF Cons.prems(1) maps] .
  from Cons.IH [OF this mid(1)] Cons.prems(3) obtain left' where
    "holds_quota pk rule left' (w_profiles (sv_world (serve se inputs (service_step se i sv))))"
    "int (spent_in_run se pk inputs (service_step se i sv)) + left' \<le> mid" by auto
  with mid(2) show ?case by (intro exI [of _ left']) simp
qed auto

subsection \<open>The bound\<close>

text \<open>C3: a quota without refill bounds what a client spends: in any run of the service in which no new
  grant names the client, the metered amounts of its requests that are answered without an error,
  together with what is left in its quota's bucket at the end, are at most what was in the bucket at
  the start, and so at most the quota's capacity.\<close>

theorem quota_bounds_what_is_spent:
  assumes "\<forall>text p. se_profile se text = Ok p \<longrightarrow> wf_profile p" and "world_ok (sv_world sv)"
    and "rule_at (w_profiles (sv_world sv)) (AccessKey_Quota pk) = Some rule" and "rate_per_micro rule = 0"
    and "bucket_at (w_profiles (sv_world sv)) (AccessKey_Quota pk) = Some s"
    and "\<forall>(micros, now, input) \<in> set inputs. only_requests (sv_relay_pubkey sv) pk input"
  shows "\<exists>s'. bucket_at (w_profiles (sv_world (serve se inputs sv))) (AccessKey_Quota pk) = Some s' \<and>
    int (spent_in_run se pk inputs sv) + sint (balance s') \<le> sint (balance s) \<and>
    0 \<le> sint (balance s') \<and> sint (balance s) \<le> sint (max_capacity rule)"
proof -
  have maps: "parses_to_maps (se_profile se)" using assms(1) by (simp add: parses_to_maps_def)
  have "holds_quota pk rule (sint (balance s)) (w_profiles (sv_world sv))" using assms(3,5) by (simp add: holds_quota_def)
  from run_spends_at_most [OF maps assms(4,2) this, of inputs] assms(6) obtain s' where
    s': "rule_at (w_profiles (sv_world (serve se inputs sv))) (AccessKey_Quota pk) = Some rule"
      "bucket_at (w_profiles (sv_world (serve se inputs sv))) (AccessKey_Quota pk) = Some s'"
      "int (spent_in_run se pk inputs sv) + sint (balance s') \<le> sint (balance s)"
    unfolding holds_quota_def by fastforce
  have ok: "bucket_ok rule t" if "world_ok w" "rule_at (w_profiles w) (AccessKey_Quota pk) = Some rule"
      "bucket_at (w_profiles w) (AccessKey_Quota pk) = Some t" for w :: "'a world" and t
    using that in_syncD(4) [of "w_profiles w" "AccessKey_Quota pk"] bucket_matches_Some
    by (fastforce simp: world_ok_def)
  have "world_ok (sv_world (serve se inputs sv))" using well_formed.run [OF assms(2)] maps by blast
  from ok [OF this s'(1,2)] ok [OF assms(2,3,5)] s' show ?thesis by (auto simp: bucket_ok_def)
qed

definition spending_env :: "payment_details list service_env" where
  "spending_env = demo_service_env\<lparr>se_transport := demo_transport\<lparr>tr_parse_request := (\<lambda>s. Ok (demo_request 1000))\<rparr>\<rparr>"

definition spending_service :: "payment_details list service" where
  "spending_service = \<lparr>sv_world = demo_world\<lparr>w_service := None\<rparr>, sv_applied = Map.empty, sv_relay_pubkey = None, sv_owners = [], sv_sent = [],
     sv_relay_tasks = True, sv_node_task = False\<rparr>"

lemma spending_request:
  "error (fst (process_nwc_request demo_env (demo_request 1000) ''alice'' 9 0 (demo_world\<lparr>w_service := None\<rparr>))) = None"
proof -
  let ?w = "demo_world\<lparr>w_service := None\<rparr>"
  have m: "req_method (demo_request 1000) = Method_PayKeysend" by (simp add: demo_request_def)
  have h: "request_handlers demo_env 0 Method_PayKeysend = Some (never_panics pay_keysend_validate (pay_keysend_execute demo_env))"
    by (simp add: request_handlers_def)
  have v: "pay_keysend_validate (demo_request 1000) = Ok ()"
    by (simp add: pay_keysend_validate_def demo_request_def whitespace_len_def)
  have "verify_access (env_method_str demo_env) (env_parse_uri demo_env) (demo_request 1000) ''alice'' 9 (w_profiles ?w) =
      (Ok (fst (the_granted, ())), snd (verify_access demo_as_str demo_parse (demo_request 1000) ''alice'' 9 demo_state))"
    if "the_granted = updates_of Method_PayKeysend ''alice'' 1000 (Some (demo_rule, 0)) (Some (demo_quota, 1))" for the_granted
    using that by (simp add: demo_granted)
  from process_granted [OF this [OF refl], of 0, unfolded Let_def m] h v show ?thesis
    by (simp add: never_panics_def execute_request_def m pay_keysend_execute_def ok_response_def)
qed

lemma spending_once:
  "spent_in_run spending_env ''alice'' [(9, 0, Relay_Event 23194 (demo_event\<lparr>ev_tags := []\<rparr>))] spending_service = 1000"
proof -
  have "request_of (se_transport spending_env) (demo_event\<lparr>ev_tags := []\<rparr>) = Some (demo_request 1000)"
    by (simp add: request_of_def spending_env_def demo_transport_def get_encryption_scheme_def decrypt_content_def)
  moreover have "spend_of demo_parse (demo_request 1000) = 1000" by (simp add: spend_of_def demo_request_def)
  ultimately show ?thesis using spending_request
    by (simp add: spending_service_def metered_def spending_env_def demo_service_env_def demo_event_def)
qed

theorem quota_bounds_what_is_spent_witness:
  "\<exists>s'. bucket_at (w_profiles (sv_world (serve spending_env
       [(9, 0, Relay_Event 23194 (demo_event\<lparr>ev_tags := []\<rparr>))] spending_service))) (AccessKey_Quota ''alice'') = Some s' \<and>
     1000 + sint (balance s') \<le> 5000"
proof -
  have p: "\<forall>text p. se_profile spending_env text = Ok p \<longrightarrow> wf_profile p"
    by (simp add: spending_env_def demo_service_env_def wf_profile_def all_profile_def)
  have w: "world_ok (sv_world spending_service)"
    by (simp add: spending_service_def world_ok_def demo_world_def demo_in_sync wf_offers_def wf_addresses_ops wf_intros)
  have r: "rule_at (w_profiles (sv_world spending_service)) (AccessKey_Quota ''alice'') = Some demo_quota"
    by (simp add: spending_service_def demo_state_eq demo_profile_def)
  have b: "bucket_at (w_profiles (sv_world spending_service)) (AccessKey_Quota ''alice'') =
      Some \<lparr>balance = 5000, last_refill_micros = 7\<rparr>"
    by (simp add: spending_service_def demo_state_eq quota_bucket_def deref_def)
  from quota_bounds_what_is_spent [OF p w r _ b, of "[(9, 0, Relay_Event 23194 (demo_event\<lparr>ev_tags := []\<rparr>))]"]
  show ?thesis
    by (auto simp: spending_once demo_quota_def only_requests_def simp del: serve.simps spent_in_run.simps bucket_at.simps)
qed

end
