(* ===== verification/Payment_Laws.thy ===== *)
theory Payment_Laws
  imports Dispatch_Laws
begin

section \<open>Payments that time out, offers that are made and paid\<close>

subsection \<open>Payments in flight\<close>

definition keysend_request :: "string \<Rightarrow> u64 \<Rightarrow> nip47_request" where
  "keysend_request dest amount =
     \<lparr>req_method = Method_PayKeysend, req_params = Params_PayKeysend dest amount\<rparr>"

lemma keysend_in_flight:
  assumes "api_parse_pubkey api dest = Ok nid" and "api_spontaneous_send api amount nid n = (Ok pid, n1)"
    and "amount \<noteq> 0" and "\<forall>k \<le> 601. poll_payment api pid (after_sleeps api k n1) = None"
  shows "\<exists>k \<le> 601. pay_keysend api dest amount n =
    (Err (LdkPaymentFailed ''timeout waiting for payment outcome''), after_sleeps api k n1)"
proof -
  obtain k r where "k \<le> 601" "wait_for_outbound_payment api pid n1 = (r, after_sleeps api k n1)"
    "poll_payment api pid (after_sleeps api k n1) = Some r \<or>
     r = Err (LdkPaymentFailed ''timeout waiting for payment outcome'')"
    using wait_outcome [of api pid n1] by blast
  with assms show ?thesis by (auto simp: pay_keysend_def)
qed

text \<open>C31: a keysend payment that the node has sent and that is still in flight when the program stops
  waiting is reported as failed and refunded to the quota; nothing takes it back, so it may still be
  paid.\<close>

theorem payment_in_flight_is_refunded:
  assumes "in_sync (w_profiles w)" and "w_service w \<noteq> None" and "Method_PayKeysend \<notin> w_forced_failures w"
    and "verify_access (env_method_str env) (env_parse_uri env) (keysend_request dest amount) caller micros
      (w_profiles w) = (Ok us, ps)"
    and "\<not> trim_is_empty dest" and "amount \<noteq> 0"
    and "api_parse_pubkey (env_api env) dest = Ok nid"
    and "api_spontaneous_send (env_api env) amount nid (w_node w) = (Ok pid, sent)"
    and "\<forall>k \<le> 601. poll_payment (env_api env) pid (after_sleeps (env_api env) k sent) = None"
  shows "(\<exists>e. fst (process_nwc_request env (keysend_request dest amount) caller micros now w) =
      error_response Method_PayKeysend e \<and> code e = PaymentFailed) \<and>
    (\<exists>k \<le> 601. w_node (snd (process_nwc_request env (keysend_request dest amount) caller micros now w)) =
      after_sleeps (env_api env) k sent) \<and>
    bucket_at (w_profiles (snd (process_nwc_request env (keysend_request dest amount) caller micros now w))) key =
      (case find (\<lambda>u. upd_key u = key) us of
         None \<Rightarrow> bucket_at (w_profiles w) key
       | Some u \<Rightarrow> map_option (\<lambda>s. s\<lparr>balance := i64_of_int (level_at s (now_micros micros) (upd_rule u))\<rparr>)
           (bucket_at (w_profiles w) key))"
proof -
  let ?req = "keysend_request dest amount" and ?w = "w\<lparr>w_profiles := ps\<rparr>"
  obtain net where net: "w_service w = Some net" using assms(2) by auto
  obtain k where "k \<le> 601" and k: "pay_keysend (env_api env) dest amount (w_node w) =
      (Err (LdkPaymentFailed ''timeout waiting for payment outcome''), after_sleeps (env_api env) k sent)"
    using keysend_in_flight [OF assms(7,8,6,9)] by blast
  let ?e = "map_ldk_service_error ''pay_keysend'' PaymentFailed (LdkPaymentFailed ''timeout waiting for payment outcome'')"
  have exec: "pay_keysend_execute env ?req ?w = (Err ?e, ?w\<lparr>w_node := after_sleeps (env_api env) k sent\<rparr>)"
    using net k by (simp add: pay_keysend_execute_def keysend_request_def call_node_def)
  have ok: "pay_keysend_validate ?req = Ok ()"
    using assms(5,6) by (simp add: pay_keysend_validate_def keysend_request_def)
  have m: "req_method ?req = Method_PayKeysend" by (simp add: keysend_request_def)
  have h: "request_handlers env now Method_PayKeysend =
      Some (never_panics pay_keysend_validate (pay_keysend_execute env))" by (simp add: request_handlers_def)
  have "req_method ?req \<noteq> Method_SubscribeNotifications" by (simp add: m)
  from process_granted [OF assms(4) this, of now, unfolded Let_def m] h ok exec assms(3)
  have "process_nwc_request env ?req caller micros now w =
      (error_response Method_PayKeysend ?e, refund_world us (?w\<lparr>w_node := after_sleeps (env_api env) k sent\<rparr>))"
    by (simp add: never_panics_def execute_request_def m)
  moreover have "code ?e = PaymentFailed" by (simp add: map_ldk_service_error_def)
  ultimately show ?thesis
    using \<open>k \<le> 601\<close> refunded_level [OF assms(1,4), of key] by (auto simp: refund_world_def)
qed

text \<open>A node whose payments never settle.\<close>

definition stuck_env :: "payment_details list node_env" where
  "stuck_env = demo_env\<lparr>env_api := demo_api\<lparr>api_sleep := (\<lambda>n. (0, n))\<rparr>\<rparr>"

theorem payment_in_flight_is_refunded_witness:
  "bucket_at (w_profiles (snd (process_nwc_request stuck_env (keysend_request ''bob'' 1000) ''alice'' 9 0 demo_world)))
     (AccessKey_Quota ''alice'') = Some \<lparr>balance = 5000, last_refill_micros = 7\<rparr>"
proof -
  have req: "keysend_request ''bob'' 1000 = demo_request 1000" by (simp add: keysend_request_def demo_request_def)
  have env: "env_method_str stuck_env = demo_as_str" "env_parse_uri stuck_env = demo_parse"
    "env_api stuck_env = demo_api\<lparr>api_sleep := (\<lambda>n. (0, n))\<rparr>" by (simp_all add: stuck_env_def)
  have still: "after_sleeps (env_api stuck_env) k n = n" for k n
    by (induction k arbitrary: n) (simp_all add: env)
  let ?us = "updates_of Method_PayKeysend ''alice'' 1000 (Some (demo_rule, 0)) (Some (demo_quota, 1))"
  obtain ps where v: "verify_access (env_method_str stuck_env) (env_parse_uri stuck_env)
      (keysend_request ''bob'' 1000) ''alice'' 9 (w_profiles demo_world) = (Ok ?us, ps)"
    unfolding req env demo_world_simps demo_granted by blast
  have "\<not> trim_is_empty ''bob''" by (simp add: whitespace_len_def)
  moreover have "in_sync (w_profiles demo_world)" by (simp add: demo_in_sync)
  moreover have "api_parse_pubkey (env_api stuck_env) ''bob'' = Ok (demo_bytes ''bob'')"
    "api_spontaneous_send (env_api stuck_env) 1000 (demo_bytes ''bob'') (w_node demo_world) =
      (Ok [7], [demo_payment Status_Pending])"
    by (simp_all add: env demo_api_def)
  moreover have "\<forall>k \<le> 601. poll_payment (env_api stuck_env) [7]
      (after_sleeps (env_api stuck_env) k [demo_payment Status_Pending]) = None"
    unfolding still by (simp add: poll_payment_def env demo_api_def demo_payment_def)
  moreover have "w_service demo_world \<noteq> None" "Method_PayKeysend \<notin> w_forced_failures demo_world"
    "(1000 :: u64) \<noteq> 0" by simp_all
  ultimately have "bucket_at (w_profiles (snd (process_nwc_request stuck_env (keysend_request ''bob'' 1000) ''alice'' 9 0 demo_world)))
      (AccessKey_Quota ''alice'') =
    map_option (\<lambda>s. s\<lparr>balance := i64_of_int (level_at s 9 demo_quota)\<rparr>) (bucket_at demo_state (AccessKey_Quota ''alice''))"
    using payment_in_flight_is_refunded [OF _ _ _ v, of "demo_bytes ''bob''" "[7]" "[demo_payment Status_Pending]" 0
        "AccessKey_Quota ''alice''"]
    by (simp add: updates_of_def now_micros_def del: bucket_at.simps)
  then show ?thesis
    by (simp add: demo_state_eq quota_bucket_def deref_def level_at_def refilled_tokens_def
        demo_quota_def i64_of_int_def)
qed

subsection \<open>Identifiers that come back\<close>

lemma hex_string_inject: "hex_string a = hex_string b \<longleftrightarrow> a = b"
proof
  assume "hex_string a = hex_string b"
  then have "decode_hex (hex_string a) = decode_hex (hex_string b)" by (rule arg_cong)
  then show "a = b" unfolding decode_hex_string by simp
qed (rule arg_cong)

lemma printed_hash: "payment_hash_from_kind kind = Some printed \<Longrightarrow> \<exists>h. printed = hex_string h"
  by (auto simp: payment_hash_from_kind_def split: payment_kind.splits)

text \<open>C24: the short channel id that routes and channels are printed with leads back to its channel in the
  graph. The payment hash that is shown for a payment leads back to it exactly if the node also uses
  it as the payment's identifier: a payment with an identifier of its own is never found under the
  hash that is shown for it.\<close>

theorem printed_identifiers_are_understood:
  assumes "\<forall>i q. api_payment api i n = Some q \<longleftrightarrow> q \<in> set (api_list_payments api n) \<and> pd_id q = i"
    and "p \<in> set (api_list_payments api n)" and "length (pd_id p) = 32"
    and "payment_hash_from_kind (pd_kind p) = Some printed"
  shows "(case get_network_channel api (format_scid scid) n of
      Err e \<Rightarrow> False
    | Ok None \<Rightarrow> api_graph_channel api scid n = None
    | Ok (Some info) \<Rightarrow> \<exists>ch. api_graph_channel api scid n = Some ch \<and> nc_short_channel_id info = format_scid scid \<and>
        nc_capacity info = gc_capacity_sats ch \<and> nc_node1_pubkey info = api_show_node_id api (gc_node_one ch) \<and>
        nc_node2_pubkey info = api_show_node_id api (gc_node_two ch)) \<and>
    (lookup_payment_by_hash api printed n = Returned (Ok p) \<longleftrightarrow> printed = hex_string (pd_id p))"
proof
  show "case get_network_channel api (format_scid scid) n of
      Err e \<Rightarrow> False
    | Ok None \<Rightarrow> api_graph_channel api scid n = None
    | Ok (Some info) \<Rightarrow> \<exists>ch. api_graph_channel api scid n = Some ch \<and> nc_short_channel_id info = format_scid scid \<and>
        nc_capacity info = gc_capacity_sats ch \<and> nc_node1_pubkey info = api_show_node_id api (gc_node_one ch) \<and>
        nc_node2_pubkey info = api_show_node_id api (gc_node_two ch)"
    by (cases "api_graph_channel api scid n") (simp_all add: get_network_channel_def scid.dec_enc)
  obtain h where h: "printed = hex_string h" using printed_hash [OF assms(4)] by blast
  have "lookup_payment_by_hash api printed n = Returned (Ok p) \<longleftrightarrow> length h = 32 \<and> api_payment api h n = Some p"
    unfolding h by (simp add: lookup_payment_by_hash_def decode_hex_string split: option.split)
  also have "\<dots> \<longleftrightarrow> h = pd_id p" using assms(1-3) by auto
  finally show "lookup_payment_by_hash api printed n = Returned (Ok p) \<longleftrightarrow> printed = hex_string (pd_id p)"
    by (simp add: h hex_string_inject)
qed

definition paid_invoice :: payment_details where
  "paid_invoice = (demo_payment Status_Succeeded)\<lparr>pd_id := replicate 32 1, pd_kind := Kind_Bolt11 (replicate 32 1) None\<rparr>"

definition paid_offer :: payment_details where
  "paid_offer = (demo_payment Status_Succeeded)\<lparr>pd_id := replicate 32 1,
     pd_kind := Kind_Bolt12Offer (Some (replicate 32 2)) None []\<rparr>"

theorem printed_identifiers_are_understood_witness:
  "lookup_payment_by_hash demo_api (hex_string (replicate 32 1)) [paid_invoice] = Returned (Ok paid_invoice) \<and>
   lookup_payment_by_hash demo_api (hex_string (replicate 32 2)) [paid_offer] \<noteq> Returned (Ok paid_offer)"
proof -
  have node: "\<forall>i q. api_payment demo_api i [p] = Some q \<longleftrightarrow> q \<in> set (api_list_payments demo_api [p]) \<and> pd_id q = i" for p
    by (auto simp: demo_api_def)
  have listed: "p \<in> set (api_list_payments demo_api [p])" for p by (simp add: demo_api_def)
  have ids: "pd_id paid_invoice = replicate 32 1" "pd_id paid_offer = replicate 32 1"
    by (simp_all add: paid_invoice_def paid_offer_def)
  have hashes: "payment_hash_from_kind (pd_kind paid_invoice) = Some (hex_string (replicate 32 1))"
    "payment_hash_from_kind (pd_kind paid_offer) = Some (hex_string (replicate 32 2))"
    by (simp_all add: payment_hash_from_kind_def paid_invoice_def paid_offer_def)
  have "(replicate 32 2 :: u8 list) \<noteq> replicate 32 1" by simp
  then show ?thesis
    using printed_identifiers_are_understood [OF node listed _ hashes(1), of 0]
      printed_identifiers_are_understood [OF node listed _ hashes(2), of 0]
    by (simp add: ids hex_string_inject)
qed

subsection \<open>Offers\<close>

definition lookup_offer_request :: "string \<Rightarrow> nip47_request" where
  "lookup_offer_request offer = \<lparr>req_method = Method_LookupOffer, req_params = Params_LookupOffer offer\<rparr>"

lemma make_offer_Ok:
  assumes "make_offer_execute env req w = (Ok resp, w')"
    and "req_params req = Params_MakeOffer amount desc expiry"
  obtains offer where "resp = ok_response Method_MakeOffer (Result_MakeOffer offer (Some desc) (Some amount))"
    "get_offer offer (w_offers w') = Some \<lparr>offer_text = offer, offer_description = desc, amount_msat = amount,
       active = True, num_payments_received = 0, total_received_msat = 0, offer_id = offer_id_of (env_api env) offer\<rparr>"
proof (cases "w_service w")
  case None
  with assms show thesis by (simp add: make_offer_execute_def)
next
  case (Some net)
  obtain r w1 where call: "call_node (make_offer (env_api env) amount desc expiry) w = (r, w1)" by fastforce
  show thesis
  proof (cases r)
    case (Inl e)
    with assms Some call show thesis by (simp add: make_offer_execute_def)
  next
    case (Inr offer)
    with assms Some call show thesis
      by (intro that [of offer]) (auto simp: make_offer_execute_def store_simps)
  qed
qed

text \<open>C18: an offer that was made is found under the text that was handed out, with its description and
  amount; and whatever payments are recorded afterwards, for this offer or for others, the number and
  the sum that are shown for it are those of the payments to it.\<close>

theorem made_offers_are_found_and_counted:
  assumes "make_offer_execute env req w = (Ok resp, w')"
    and "req_params req = Params_MakeOffer amount desc expiry"
  shows "\<exists>offer. resp = ok_response Method_MakeOffer (Result_MakeOffer offer (Some desc) (Some amount)) \<and>
    (\<forall>ps. fst (lookup_offer_execute (lookup_offer_request offer) (w'\<lparr>w_offers := record_payments ps (w_offers w')\<rparr>)) =
      Ok (ok_response Method_LookupOffer (Result_LookupOffer
        \<lparr>oe_offer = offer, oe_description = Some desc, oe_amount = Some amount, oe_active = True,
         oe_num_payments_received = word_of_nat (length (paid_to offer ps)),
         oe_total_received = word_of_nat (sum_list (paid_to offer ps))\<rparr>)))"
proof -
  from make_offer_Ok [OF assms] obtain offer where
    resp: "resp = ok_response Method_MakeOffer (Result_MakeOffer offer (Some desc) (Some amount))"
    and got: "get_offer offer (w_offers w') = Some \<lparr>offer_text = offer, offer_description = desc,
       amount_msat = amount, active = True, num_payments_received = 0, total_received_msat = 0,
       offer_id = offer_id_of (env_api env) offer\<rparr>" by blast
  then show ?thesis
    by (intro exI [of _ offer])
      (simp add: lookup_offer_execute_def lookup_offer_request_def record_payments_get offer_entry_of_def)
qed

theorem made_offers_are_found_and_counted_witness:
  "\<exists>w' :: payment_details list world. fst (lookup_offer_execute (lookup_offer_request ''lno1'')
     (w'\<lparr>w_offers := record_payments [(''lno1'', 9), (''lno2'', 5), (''lno1'', 4)] (w_offers w')\<rparr>)) =
   Ok (ok_response Method_LookupOffer (Result_LookupOffer
     \<lparr>oe_offer = ''lno1'', oe_description = Some ''coffee'', oe_amount = Some 9, oe_active = True,
      oe_num_payments_received = 2, oe_total_received = 13\<rparr>))"
proof -
  let ?req = "\<lparr>req_method = Method_MakeOffer, req_params = Params_MakeOffer 9 ''coffee'' None\<rparr>"
  obtain w' where m: "make_offer_execute demo_env ?req demo_world =
      (Ok (ok_response Method_MakeOffer (Result_MakeOffer ''lno1'' (Some ''coffee'') (Some 9))), w')"
    by (simp add: make_offer_execute_def call_node_def make_offer_def demo_api_def)
  from made_offers_are_found_and_counted [OF m, of 9 "''coffee''" None] obtain offer where
    o: "ok_response Method_MakeOffer (Result_MakeOffer ''lno1'' (Some ''coffee'') (Some 9)) =
        ok_response Method_MakeOffer (Result_MakeOffer offer (Some ''coffee'') (Some 9))"
    and all: "\<forall>ps. fst (lookup_offer_execute (lookup_offer_request offer)
        (w'\<lparr>w_offers := record_payments ps (w_offers w')\<rparr>)) =
      Ok (ok_response Method_LookupOffer (Result_LookupOffer
        \<lparr>oe_offer = offer, oe_description = Some ''coffee'', oe_amount = Some 9, oe_active = True,
         oe_num_payments_received = word_of_nat (length (paid_to offer ps)),
         oe_total_received = word_of_nat (sum_list (paid_to offer ps))\<rparr>))" by auto
  from o have "offer = ''lno1''" by (simp add: ok_response_def)
  with all [THEN spec, of "[(''lno1'', 9), (''lno2'', 5), (''lno1'', 4)]"]
  have "fst (lookup_offer_execute (lookup_offer_request ''lno1'')
     (w'\<lparr>w_offers := record_payments [(''lno1'', 9), (''lno2'', 5), (''lno1'', 4)] (w_offers w')\<rparr>)) =
   Ok (ok_response Method_LookupOffer (Result_LookupOffer
     \<lparr>oe_offer = ''lno1'', oe_description = Some ''coffee'', oe_amount = Some 9, oe_active = True,
      oe_num_payments_received = 2, oe_total_received = 13\<rparr>))"
    by (simp add: paid_to_def del: record_payments.simps)
  then show ?thesis by blast
qed

end
