(* ===== verification/Test_Seams.thy ===== *)
theory Test_Seams
  imports Service "HOL-Library.Sublist"
begin

section \<open>The functions of \<open>src/lib.rs\<close> for tests and examples\<close>

text \<open>
  The functions that the tests call to seed and clear the stores and to make executions fail,
  and \<open>run_client\<close>, an example that answers greetings. The lemmas say which of them keep the
  state well-formed, and that the one that does not leads to refusals only.
\<close>

subsection \<open>Clearing and seeding\<close>

definition clear_usage_profiles :: "'n world \<Rightarrow> 'n world" where
  "clear_usage_profiles w = w\<lparr>w_profiles := clear_all_usage_profiles_and_states (w_profiles w)\<rparr>"

definition clear_all_subscriptions :: "'n world \<Rightarrow> 'n world" where
  "clear_all_subscriptions w = w\<lparr>w_subscriptions := clear_subscriptions (w_subscriptions w)\<rparr>"

definition seed_offer_for_testing :: "'n ldk_api \<Rightarrow> string \<Rightarrow> string \<Rightarrow> u64 \<Rightarrow> 'n world \<Rightarrow> 'n world" where
  "seed_offer_for_testing api offer description amount w =
     (let oid = (case api_parse_offer api offer of Ok o1 \<Rightarrow> po_id o1 | Err _ \<Rightarrow> replicate 32 0)
      in w\<lparr>w_offers := insert_offer offer description amount oid (w_offers w)\<rparr>)"

definition seed_address_for_testing :: "string \<Rightarrow> 'n world \<Rightarrow> 'n world" where
  "seed_address_for_testing addr w = w\<lparr>w_addresses := register_address addr (w_addresses w)\<rparr>"

definition seed_address_transaction_for_testing ::
    "string \<Rightarrow> string \<Rightarrow> u64 \<Rightarrow> u64 \<Rightarrow> 'n world \<Rightarrow> 'n world" where
  "seed_address_transaction_for_testing addr tx sats ts w =
     w\<lparr>w_addresses := record_transaction addr tx sats ts (w_addresses w)\<rparr>"

definition clear_offers_for_testing :: "'n world \<Rightarrow> 'n world" where
  "clear_offers_for_testing w = w\<lparr>w_offers := clear_offers (w_offers w)\<rparr>"

definition clear_addresses_for_testing :: "'n world \<Rightarrow> 'n world" where
  "clear_addresses_for_testing w = w\<lparr>w_addresses := clear_addresses (w_addresses w)\<rparr>"

definition clear_access_states_for_testing :: "'n world \<Rightarrow> 'n world" where
  "clear_access_states_for_testing w =
     w\<lparr>w_profiles := (w_profiles w)\<lparr>access := clear_all_access_states (access (w_profiles w))\<rparr>\<rparr>"

subsection \<open>Forced failures\<close>

definition set_execute_failure_for_testing :: "nip47_method \<Rightarrow> bool \<Rightarrow> 'n world \<Rightarrow> 'n world" where
  "set_execute_failure_for_testing m enabled w =
     (if enabled then w\<lparr>w_forced_failures := insert m (w_forced_failures w)\<rparr>
      else w\<lparr>w_forced_failures := w_forced_failures w - {m}\<rparr>)"

definition clear_execute_failures_for_testing :: "'n world \<Rightarrow> 'n world" where
  "clear_execute_failures_for_testing w = w\<lparr>w_forced_failures := {}\<rparr>"

definition should_force_execute_failure :: "nip47_method \<Rightarrow> 'n world \<Rightarrow> bool" where
  "should_force_execute_failure m w \<longleftrightarrow> m \<in> w_forced_failures w"

lemma forced_failures:
  "should_force_execute_failure m (set_execute_failure_for_testing m' enabled w) =
     (if m = m' then enabled else should_force_execute_failure m w)"
  "\<not> should_force_execute_failure m (clear_execute_failures_for_testing w)"
  by (auto simp: should_force_execute_failure_def set_execute_failure_for_testing_def
      clear_execute_failures_for_testing_def)

lemma seams_keep_state_well_formed [wf_intros]:
  assumes "world_ok w"
  shows "world_ok (clear_usage_profiles w)" "world_ok (clear_all_subscriptions w)"
    "world_ok (seed_offer_for_testing api offer d a w)" "world_ok (seed_address_for_testing addr w)"
    "world_ok (seed_address_transaction_for_testing addr tx sats ts w)"
    "world_ok (clear_offers_for_testing w)" "world_ok (clear_addresses_for_testing w)"
    "world_ok (set_execute_failure_for_testing m enabled w)" "world_ok (clear_execute_failures_for_testing w)"
  using assms
  by (simp_all add: world_ok_def clear_usage_profiles_def clear_all_subscriptions_def seed_offer_for_testing_def
      seed_address_for_testing_def seed_address_transaction_for_testing_def clear_offers_for_testing_def
      clear_addresses_for_testing_def set_execute_failure_for_testing_def clear_execute_failures_for_testing_def
      in_sync_clear_all wf_intros)

text \<open>Clearing the buckets alone leaves the rules without them: a metered request is refused.\<close>

lemma cleared_buckets_refuse:
  assumes "usage_profiles (w_profiles w) caller = Some p" and "method_rule_for (req_method req) p = Ok (Some r)"
    and "rule_access_rate r = Some rule"
  shows "fst (process_nwc_request env req caller micros now (clear_access_states_for_testing w)) =
    missing_state_response (req_method req) AccessRate"
proof -
  have "access_rate (clear_all_access_states (access (w_profiles w))) k = None" for k
    by (simp add: clear_all_access_states_def clear_all_states_def clear_access_rate_states_def
        clear_quota_states_def)
  then have "verify_access (env_method_str env) (env_parse_uri env) req caller micros
      (w_profiles (clear_access_states_for_testing w)) =
      (Err (missing_state_response (req_method req) AccessRate), w_profiles (clear_access_states_for_testing w))"
    using assms by (simp add: verify_access_settle prepare_updates_eq clear_access_states_for_testing_def)
  then show ?thesis by (simp add: process_nwc_request_def)
qed

subsection \<open>The greeting client\<close>

definition contains_str :: "string \<Rightarrow> string \<Rightarrow> bool" where
  "contains_str text pat \<longleftrightarrow> sublist pat text"

text \<open>A note in, the notes out: \<open>Hi\<close> to whoever says hello, in any case of letters.\<close>

definition client_replies :: "string \<Rightarrow> string list" where
  "client_replies content = (if contains_str (to_lowercase content) ''hello'' then [''Hi''] else [])"

text \<open>It never answers its own answers, which reach it like all notes.\<close>

lemma client_does_not_talk_to_itself: "\<forall>r \<in> set (client_replies content). client_replies r = []"
  by (simp add: client_replies_def contains_str_def sublist_code to_lowercase_def)

text \<open>The loop over the notes; a reply that cannot be published is logged and forgotten.\<close>

definition client_loop :: "string list \<Rightarrow> string list" where
  "client_loop notes = concat (map client_replies notes)"

text \<open>However many clients of this kind listen to each other, the conversation ends at once.\<close>

lemma clients_fall_silent: "client_loop (client_loop notes) = []"
  using client_does_not_talk_to_itself by (auto simp: client_loop_def)

text \<open>Its start-up: the relay is added, and notes of everybody are subscribed to.\<close>

definition run_client ::
    "relay_client \<Rightarrow> pubkey \<Rightarrow> string \<Rightarrow> 'n service \<Rightarrow> (string + relay_filter) \<times> 'n service" where
  "run_client rc keys relay_url sv =
     (let sv = sv\<lparr>sv_world := set_global_keys keys (sv_world sv)\<rparr>;
          notes = \<lparr>rf_kind = 1, rf_pubkey = None, rf_since = None\<rparr>
      in sbind (rc_add_relay rc relay_url, sv) (\<lambda>_ sv.
         sbind (rc_subscribe rc notes, sv) (\<lambda>_ sv. (Ok notes, sv))))"

lemma run_client_keeps_its_key:
  "w_own_pubkey (sv_world (snd (run_client rc keys url sv))) =
     Some (case w_own_pubkey (sv_world sv) of None \<Rightarrow> keys | Some first \<Rightarrow> first)"
  by (cases "rc_add_relay rc url"; cases "rc_subscribe rc \<lparr>rf_kind = 1, rf_pubkey = None, rf_since = None\<rparr>")
    (simp_all add: run_client_def Let_def set_global_keys_def split: option.split)

end
