(* ===== verification/Route_Optimal.thy ===== *)
theory Route_Optimal
  imports Route_Finder
begin

section \<open>When the search finds the cheapest route\<close>

text \<open>
  The search is Dijkstra's algorithm with a limit on the length of a path. As long as no
  cheapest path is longer than the limit, a node is visited at its least cost, and the first
  route found is the cheapest there is. When a cheap detour is too long, it still marks the
  nodes it reaches as visited, and a short route through them is missed.
\<close>

subsection \<open>Costs without bounds\<close>

definition walk_fee :: "path_hop list \<Rightarrow> nat" where
  "walk_fee path = sum_list (map (\<lambda>(n, scid, fee, cltv). unat fee) path)"

lemma walk_fee_simps [simp]:
  "walk_fee [] = 0"
  "walk_fee ((n, scid, fee, cltv) # path) = unat fee + walk_fee path"
  "walk_fee (p @ q) = walk_fee p + walk_fee q"
  by (simp_all add: walk_fee_def)

lemma path_fees_exact:
  assumes "walks E amount a path b" and "fees_fit E amount" and "length path \<le> 7"
  shows "unat (path_fees path) = walk_fee path"
  using assms(1,3)
proof (induction path arbitrary: a)
  case Nil
  then show ?case by (simp add: path_fees_def)
next
  case (Cons h path)
  then obtain e where e: "E a e" "h = hop_along amount e" by auto
  let ?B = "(2 ^ 64 - 1) div 7 :: nat"
  have rest: "unat (path_fees path) = walk_fee path" using Cons.IH [of "fst h"] Cons.prems by simp
  have "7 * unat (edge_fee amount e) < 2 ^ 64" using assms(2) e(1) unfolding fees_fit_def by blast
  moreover have "unat (path_fees path) \<le> 6 * ?B"
    using path_fees_bound [of E amount "fst h" path b] Cons.prems assms(2)
      mult_le_mono1 [of "length path" 6 ?B] by fastforce
  ultimately have "unat (edge_fee amount e) + unat (path_fees path) < 2 ^ 64" by simp
  then have "unat (edge_fee amount e + path_fees path) = unat (edge_fee amount e) + unat (path_fees path)"
    by (subst unat_add_lem [symmetric]) simp
  with rest e(2) show ?case by (simp add: path_fees_def hop_along_def)
qed

text \<open>A cheapest simple path from \<open>src\<close>; that none has more than six hops.\<close>

definition cheapest_path :: "(node_id \<Rightarrow> edge \<Rightarrow> bool) \<Rightarrow> u64 \<Rightarrow> node_id \<Rightarrow> path_hop list \<Rightarrow> bool" where
  "cheapest_path E amount src path \<longleftrightarrow> distinct (src # map fst path) \<and>
     (\<exists>v. walks E amount src path v \<and> (\<forall>p. walks E amount src p v \<longrightarrow> walk_fee path \<le> walk_fee p))"

definition cheapest_are_short :: "(node_id \<Rightarrow> edge \<Rightarrow> bool) \<Rightarrow> u64 \<Rightarrow> node_id \<Rightarrow> bool" where
  "cheapest_are_short E amount src \<longleftrightarrow> (\<forall>path. cheapest_path E amount src path \<longrightarrow> length path \<le> 6)"

subsection \<open>The frontier\<close>

text \<open>
  Every visited node was settled at a cost no walk to it undercuts, and every edge that
  leaves the visited nodes has a candidate in the queue that is no dearer than through it.
\<close>

definition frontier ::
    "adjacency \<Rightarrow> u64 \<Rightarrow> node_id \<Rightarrow> node_id \<Rightarrow> candidate list \<Rightarrow> node_id set \<Rightarrow> bool" where
  "frontier adj amount src dest q v \<longleftrightarrow> dest \<notin> v \<and>
     (src \<in> v \<or> (\<exists>path. (0, src, path) \<in> set q)) \<and>
     (\<exists>d. (\<forall>a \<in> v. \<forall>p. walks (is_edge adj) amount src p a \<longrightarrow> d a \<le> walk_fee p) \<and>
        (\<forall>a \<in> v. \<forall>e. is_edge adj a e \<longrightarrow> edge_next e \<notin> v \<longrightarrow>
           (\<exists>cost path. (cost, edge_next e, path) \<in> set q \<and> unat cost \<le> d a + unat (edge_fee amount e))))"

text \<open>A walk that leaves a set of nodes leaves it by an edge.\<close>

lemma walk_leaves:
  assumes "walks E amount a p b" and "a \<in> v" and "b \<notin> v"
  shows "\<exists>p1 x e p2. p = p1 @ hop_along amount e # p2 \<and> walks E amount a p1 x \<and> x \<in> v \<and> E x e \<and> edge_next e \<notin> v"
  using assms
proof (induction p arbitrary: a)
  case (Cons h p)
  then obtain e where e: "E a e" "h = hop_along amount e" by auto
  then have next_node: "fst h = edge_next e" by (simp add: hop_along_def)
  show ?case
  proof (cases "edge_next e \<in> v")
    case True
    then obtain p1 x e' p2 where "p = p1 @ hop_along amount e' # p2" "walks E amount (fst h) p1 x" "x \<in> v"
      "E x e'" "edge_next e' \<notin> v"
      using Cons.IH [of "fst h"] Cons.prems next_node by auto
    then show ?thesis using e
      by (intro exI [of _ "h # p1"] exI [of _ x] exI [of _ e'] exI [of _ p2]) auto
  next
    case False
    then show ?thesis using e Cons.prems
      by (intro exI [of _ "[]"] exI [of _ a] exI [of _ e] exI [of _ p]) auto
  qed
qed simp

lemma frontier_below_walks:
  assumes "frontier adj amount src dest q v" and "walks (is_edge adj) amount src p b" and "b \<notin> v"
  shows "\<exists>c \<in> set q. unat (fst c) \<le> walk_fee p"
proof (cases "src \<in> v")
  case False
  then obtain path where "(0, src, path) \<in> set q" using assms(1) by (auto simp: frontier_def)
  then show ?thesis by force
next
  case True
  from assms(1) obtain d where d: "\<forall>a \<in> v. \<forall>p. walks (is_edge adj) amount src p a \<longrightarrow> d a \<le> walk_fee p"
      "\<forall>a \<in> v. \<forall>e. is_edge adj a e \<longrightarrow> edge_next e \<notin> v \<longrightarrow>
        (\<exists>cost path. (cost, edge_next e, path) \<in> set q \<and> unat cost \<le> d a + unat (edge_fee amount e))"
    by (auto simp: frontier_def)
  from walk_leaves [OF assms(2) True assms(3)] obtain p1 x e p2 where
    p: "p = p1 @ hop_along amount e # p2" "walks (is_edge adj) amount src p1 x" "x \<in> v" "is_edge adj x e" "edge_next e \<notin> v"
    by blast
  from d(2) p(3-5) obtain cost path where
    c: "(cost, edge_next e, path) \<in> set q" "unat cost \<le> d x + unat (edge_fee amount e)" by blast
  have "d x \<le> walk_fee p1" using d(1) p(2,3) by blast
  with c(2) have "unat cost \<le> walk_fee p" by (simp add: p(1) hop_along_def)
  with c(1) show ?thesis by force
qed

lemma heap_pop_keeps:
  assumes "heap_pop q = Some (c, rest)" and "c' \<in> set q"
  shows "c' = c \<or> c' \<in> set rest"
proof -
  from assms(1) have "rest = remove1 c q" by (cases q) (auto simp: heap_pop_def Let_def)
  then show ?thesis using in_set_remove1 [of c' c q] assms(2) by (cases "c' = c") simp_all
qed

lemma frontier_empty:
  assumes "frontier adj amount src dest [] v" and "walks (is_edge adj) amount src p dest"
  shows False
  using frontier_below_walks [OF assms] assms(1) by (simp add: frontier_def)

text \<open>What is taken from the queue at a new node has the least cost there is.\<close>

lemma popped_is_cheapest:
  assumes "frontier adj amount src dest q v" and "heap_pop q = Some ((cost, node, path), rest)"
    and "node \<notin> v" and "walks (is_edge adj) amount src p node"
  shows "unat cost \<le> walk_fee p"
  using frontier_below_walks [OF assms(1,4,3)] heap_pop_least [OF assms(2)]
  by (auto simp: word_le_nat_alt intro: order_trans)


subsection \<open>The frontier is kept\<close>

lemma frontier_drop:
  assumes fr: "frontier adj amount src dest q v" and "heap_pop q = Some ((cost, node, path), rest)" and "node \<in> v"
  shows "frontier adj amount src dest rest v"
proof -
  have keep: "(c, b, p) \<in> set rest" if "(c, b, p) \<in> set q" "b \<notin> v" for c b p
    using heap_pop_keeps [OF assms(2) that(1)] that(2) assms(3) by auto
  obtain d where d: "\<forall>a \<in> v. \<forall>p. walks (is_edge adj) amount src p a \<longrightarrow> d a \<le> walk_fee p"
    and out: "\<And>a e. a \<in> v \<Longrightarrow> is_edge adj a e \<Longrightarrow> edge_next e \<notin> v \<Longrightarrow>
      \<exists>cost path. (cost, edge_next e, path) \<in> set q \<and> unat cost \<le> d a + unat (edge_fee amount e)"
    using fr unfolding frontier_def by blast
  have start: "src \<in> v \<or> (\<exists>p. (0, src, p) \<in> set rest)"
  proof (cases "src \<in> v")
    case False
    with fr obtain p where "(0, src, p) \<in> set q" unfolding frontier_def by blast
    from keep [OF this False] show ?thesis by blast
  qed simp
  have covered: "\<exists>c p. (c, edge_next e, p) \<in> set rest \<and> unat c \<le> d a + unat (edge_fee amount e)"
    if e: "a \<in> v" "is_edge adj a e" "edge_next e \<notin> v" for a e
  proof -
    from out [OF e] obtain c p where "(c, edge_next e, p) \<in> set q" "unat c \<le> d a + unat (edge_fee amount e)"
      by blast
    with keep [OF this(1) e(3)] show ?thesis by blast
  qed
  have "dest \<notin> v" using fr unfolding frontier_def by blast
  with start d covered show ?thesis unfolding frontier_def by blast
qed

lemma extend_paths_covers:
  assumes "e \<in> set es" and "edge_next e \<notin> visited"
  shows "\<exists>p. (cost + edge_fee amount e, edge_next e, p) \<in> set (extend_paths amount visited cost path es)"
  using assms by (induction es) (auto simp: Let_def)

lemma expansion_covers:
  assumes "is_edge adj node e" and "edge_next e \<notin> insert node v"
  shows "\<exists>p. (cost + edge_fee amount e, edge_next e, p) \<in> set (expansion adj amount v (cost, node, path))"
  using assms extend_paths_covers [of e "the (hm_get adj node)" "insert node v"]
  by (auto simp: is_edge_def expansion_def split: option.splits)

lemma frontier_expand:
  assumes fr: "frontier adj amount src dest q v" and pop: "heap_pop q = Some ((cost, node, path), rest)"
    and new: "node \<notin> v" "node \<noteq> dest"
  shows "frontier adj amount src dest (rest @ expansion adj amount v (cost, node, path)) (insert node v)"
proof -
  let ?new = "expansion adj amount v (cost, node, path)"
  have keep: "(c, b, p) \<in> set rest" if "(c, b, p) \<in> set q" "b \<noteq> node" for c b p
    using heap_pop_keeps [OF pop that(1)] that(2) by auto
  obtain d where d: "\<forall>a \<in> v. \<forall>p. walks (is_edge adj) amount src p a \<longrightarrow> d a \<le> walk_fee p"
    and out: "\<And>a e. a \<in> v \<Longrightarrow> is_edge adj a e \<Longrightarrow> edge_next e \<notin> v \<Longrightarrow>
      \<exists>cost path. (cost, edge_next e, path) \<in> set q \<and> unat cost \<le> d a + unat (edge_fee amount e)"
    using fr unfolding frontier_def by blast
  let ?d = "d(node := unat cost)"
  have settled: "?d a \<le> walk_fee p" if "a \<in> insert node v" "walks (is_edge adj) amount src p a" for a p
    using that d popped_is_cheapest [OF fr pop new(1)] by auto
  have covered: "\<exists>c p. (c, edge_next e, p) \<in> set (rest @ ?new) \<and> unat c \<le> ?d a + unat (edge_fee amount e)"
    if "a \<in> insert node v" "is_edge adj a e" "edge_next e \<notin> insert node v" for a e
  proof (cases "a = node")
    case True
    with expansion_covers [of adj node e v cost amount path] that obtain p where
      "(cost + edge_fee amount e, edge_next e, p) \<in> set ?new" by blast
    moreover have "unat (cost + edge_fee amount e) \<le> unat cost + unat (edge_fee amount e)"
      by (simp add: unat_word_ariths)
    ultimately show ?thesis using True by auto
  next
    case False
    with that out obtain c p where "(c, edge_next e, p) \<in> set q" "unat c \<le> d a + unat (edge_fee amount e)" by blast
    moreover from keep [OF this(1)] that(3) have "(c, edge_next e, p) \<in> set (rest @ ?new)" by simp
    ultimately show ?thesis using False by (intro exI [of _ c] exI [of _ p]) simp
  qed
  have "src \<in> insert node v \<or> (\<exists>p. (0, src, p) \<in> set (rest @ ?new))"
  proof (cases "src \<in> insert node v")
    case False
    with fr obtain p where "(0, src, p) \<in> set q" unfolding frontier_def by blast
    from keep [OF this] False have "(0, src, p) \<in> set (rest @ ?new)" by simp
    then show ?thesis by blast
  qed simp
  moreover have "dest \<notin> insert node v" using fr new(2) by (auto simp: frontier_def)
  ultimately show ?thesis
    unfolding frontier_def using settled covered by blast
qed

text \<open>A candidate at a new node follows a cheapest path, so it is not too long.\<close>

lemma popped_is_short:
  assumes "frontier adj amount src dest q v" and "heap_pop q = Some ((cost, node, path), rest)"
    and "candidate_ok adj amount src v (cost, node, path)" and "length path \<le> 7" and "node \<notin> v"
    and "fees_fit (is_edge adj) amount" and "cheapest_are_short (is_edge adj) amount src"
  shows "length path \<le> 6" and "unat cost = walk_fee path"
proof -
  from assms(3) have ok: "walks (is_edge adj) amount src path node" "cost = path_fees path" "distinct (src # map fst path)"
    by (simp_all add: candidate_ok_def)
  from path_fees_exact [OF ok(1) assms(6,4)] ok(2) show cost: "unat cost = walk_fee path" by simp
  have "walk_fee path \<le> walk_fee p" if "walks (is_edge adj) amount src p node" for p
    using popped_is_cheapest [OF assms(1,2,5) that] cost by simp
  with ok have "cheapest_path (is_edge adj) amount src path" unfolding cheapest_path_def by blast
  with assms(7) show "length path \<le> 6" by (simp add: cheapest_are_short_def)
qed

text \<open>The first route is a cheapest one, and there is one whenever the destination can be reached.\<close>

lemma search_loop_optimal:
  assumes fit: "fees_fit (is_edge adj) amount" and short: "cheapest_are_short (is_edge adj) amount src"
    and "0 < k" and "src \<noteq> dest" and walk: "walks (is_edge adj) amount src p dest"
  shows "search_loop adj dest amount k [(0, src, [])] {} [] \<noteq> [] \<and>
    unat (total_fee (hd (search_loop adj dest amount k [(0, src, [])] {} []))) \<le> walk_fee p"
proof (rule search_loop_invariant [where I = "\<lambda>q v f.
      (\<forall>c \<in> set q. candidate_ok adj amount src v c \<and> length (snd (snd c)) \<le> 7) \<and>
      (if f = [] then frontier adj amount src dest q v else unat (total_fee (hd f)) \<le> walk_fee p)"])
  fix q v rest and f :: "found_route list"
  assume inv: "(\<forall>c \<in> set q. candidate_ok adj amount src v c \<and> length (snd (snd c)) \<le> 7) \<and>
      (if f = [] then frontier adj amount src dest q v else unat (total_fee (hd f)) \<le> walk_fee p)"
  { assume "q = [] \<or> k \<le> length f"
    then show "f \<noteq> [] \<and> unat (total_fee (hd f)) \<le> walk_fee p"
      using inv frontier_empty [OF _ walk] assms(3) by (cases "f = []") auto }
  { fix cost node path
    assume pop: "heap_pop q = Some ((cost, node, path), rest)"
      and why: "6 < length path \<or> node \<noteq> dest \<and> node \<in> v"
    have c: "candidate_ok adj amount src v (cost, node, path)" "length path \<le> 7"
      using inv heap_pop_Some(1) [OF pop] by auto
    have "frontier adj amount src dest rest v" if "f = []"
    proof -
      from that inv have fr: "frontier adj amount src dest q v" by simp
      have "node \<in> v" using popped_is_short(1) [OF fr pop c _ fit short] why by fastforce
      with fr pop show ?thesis by (rule frontier_drop)
    qed
    with inv heap_pop_Some(3) [OF pop]
    show "(\<forall>c \<in> set rest. candidate_ok adj amount src v c \<and> length (snd (snd c)) \<le> 7) \<and>
      (if f = [] then frontier adj amount src dest rest v else unat (total_fee (hd f)) \<le> walk_fee p)" by auto }
  { fix cost path
    assume pop: "heap_pop q = Some ((cost, dest, path), rest)"
    have "unat cost \<le> walk_fee p" if "f = []"
    proof -
      from that inv have fr: "frontier adj amount src dest q v" by simp
      then have "dest \<notin> v" by (simp add: frontier_def)
      from popped_is_cheapest [OF fr pop this walk] show ?thesis .
    qed
    with inv heap_pop_Some(3) [OF pop]
    show "(\<forall>c \<in> set rest. candidate_ok adj amount src v c \<and> length (snd (snd c)) \<le> 7) \<and>
      (if f @ [route_of cost path] = [] then frontier adj amount src dest rest v
       else unat (total_fee (hd (f @ [route_of cost path]))) \<le> walk_fee p)"
      by (auto simp: hd_append route_of_def Let_def) }
  { fix cost node path
    assume pop: "heap_pop q = Some ((cost, node, path), rest)" and six: "length path \<le> 6"
      and new: "node \<noteq> dest" "node \<notin> v"
    let ?new = "expansion adj amount v (cost, node, path)"
    have c: "candidate_ok adj amount src v (cost, node, path)" using inv heap_pop_Some(1) [OF pop] by auto
    have "candidate_ok adj amount src (insert node v) c' \<and> length (snd (snd c')) \<le> 7" if "c' \<in> set (rest @ ?new)" for c'
      using that inv heap_pop_Some(3) [OF pop] expansion_ok [OF c, of c'] expansion_cost(2) [OF c fit six, of c']
      by (auto intro: candidate_ok_mono [OF _ subset_insertI])
    moreover have "frontier adj amount src dest (rest @ ?new) (insert node v)" if "f = []"
      using frontier_expand [OF _ pop new(2,1)] that inv by simp
    ultimately show "(\<forall>c \<in> set (rest @ ?new). candidate_ok adj amount src (insert node v) c \<and> length (snd (snd c)) \<le> 7) \<and>
      (if f = [] then frontier adj amount src dest (rest @ ?new) (insert node v)
       else unat (total_fee (hd f)) \<le> walk_fee p)"
      using inv by simp }
next
  show "(\<forall>c \<in> set [(0, src, [])]. candidate_ok adj amount src {} c \<and> length (snd (snd c)) \<le> 7) \<and>
      (if [] = [] then frontier adj amount src dest [(0, src, [])] {} else unat (total_fee (hd [])) \<le> walk_fee p)"
    by (simp add: candidate_ok_def path_fees_def frontier_def)
qed

text \<open>When the graph has few nodes, no simple path is too long.\<close>

lemma walk_stays:
  assumes "walks E amount a p b" and "a \<in> V" and "\<And>x e. E x e \<Longrightarrow> edge_next e \<in> V"
  shows "set (a # map fst p) \<subseteq> V"
  using assms(1,2)
proof (induction p arbitrary: a)
  case (Cons h p)
  then obtain e where "E a e" "h = hop_along amount e" by auto
  with assms(3) have "fst h \<in> V" by (auto simp: hop_along_def)
  with Cons show ?case by auto
qed simp

lemma small_graphs_have_short_paths:
  assumes "finite V" and "card V \<le> 7" and "src \<in> V" and "\<And>x e. E x e \<Longrightarrow> edge_next e \<in> V"
  shows "cheapest_are_short E amount src"
  unfolding cheapest_are_short_def
proof (intro allI impI)
  fix path assume "cheapest_path E amount src path"
  then obtain v where path: "distinct (src # map fst path)" "walks E amount src path v"
    unfolding cheapest_path_def by blast
  have "card (set (src # map fst path)) \<le> card V"
    using walk_stays [OF path(2) assms(3,4)] assms(1) by (rule card_mono [rotated])
  with assms(2) distinct_card [OF path(1)] show "length path \<le> 6" by simp
qed

subsection \<open>What the client gets\<close>

text \<open>C5: when no sum of fees can overflow and no cheapest path from this node has more than six
  hops, a route is found whenever the destination can be reached at all, and the first route is a
  cheapest one: a path of at most six hops whose fee, the sum of its hops' fees, no walk to the
  destination undercuts.\<close>

theorem first_route_is_cheapest:
  assumes "api_parse_pubkey api dest_pubkey = Ok dest" and "api_node_id api \<noteq> dest" and "0 < k"
    and E: "E = channel_edge amount (\<lambda>scid. api_graph_channel api scid n) (api_graph_channels api n)"
    and "fees_fit E amount" and "cheapest_are_short E amount (api_node_id api)"
    and "walks E amount (api_node_id api) walk dest"
  shows "\<exists>path others. find_routes api dest_pubkey amount k n = route_of (path_fees path) path # others \<and>
    walks E amount (api_node_id api) path dest \<and> length path \<le> 6 \<and>
    unat (path_fees path) = walk_fee path \<and> walk_fee path \<le> walk_fee walk"
proof -
  let ?src = "api_node_id api"
  let ?adj = "build_adjacency amount (\<lambda>scid. api_graph_channel api scid n) (api_graph_channels api n) []"
  have E': "is_edge ?adj = E" by (intro ext) (simp add: is_edge_build E)
  let ?routes = "search_loop ?adj dest amount k [(0, ?src, [])] {} []"
  have found: "find_routes api dest_pubkey amount k n = ?routes"
    using assms(1,2) by (simp add: find_routes_def Let_def)
  have best: "?routes \<noteq> []" "unat (total_fee (hd ?routes)) \<le> walk_fee walk"
    using search_loop_optimal [of ?adj amount ?src k dest walk] assms(2,3,5-7) unfolding E' by blast+
  have "candidate_ok ?adj amount ?src {} (0, ?src, [])" by (simp add: candidate_ok_def path_fees_def)
  then have "route_ok E amount ?src dest (hd ?routes)"
    using search_loop_sound [of "[(0, ?src, [])]" ?adj amount ?src "{}" "[]" dest k] best(1) by (simp add: E')
  then obtain path where path: "walks E amount ?src path dest" "length path \<le> 6"
    "hd ?routes = route_of (path_fees path) path" by (auto simp: route_ok_def)
  have fee: "unat (path_fees path) = walk_fee path"
    using path_fees_exact [OF path(1) assms(5)] path(2) by simp
  have "total_fee (hd ?routes) = path_fees path" by (simp add: path(3) route_of_def Let_def)
  with best fee have "walk_fee path \<le> walk_fee walk" by simp
  with path fee best(1) found show ?thesis
    by (intro exI [of _ path] exI [of _ "tl ?routes"]) (cases ?routes; simp)
qed

text \<open>A graph of eight nodes: a direct channel to node 6, at a fee, then one to the destination,
  and a free detour to node 6 over nodes 1 to 5.\<close>

definition free_update :: channel_update where
  "free_update = demo_update\<lparr>up_base_msat := 0, up_proportional_millionths := 0\<rparr>"

definition one_way :: "node_id \<Rightarrow> node_id \<Rightarrow> channel_update \<Rightarrow> graph_channel" where
  "one_way a b u = \<lparr>gc_node_one = a, gc_node_two = b, gc_one_to_two = Some u, gc_two_to_one = None,
     gc_capacity_sats = None\<rparr>"

definition detour_api :: "u64 list \<Rightarrow> payment_details list ldk_api" where
  "detour_api scids = demo_api\<lparr>api_node_id := [0], api_parse_pubkey := (\<lambda>s. Ok [7]),
     api_graph_channels := (\<lambda>n. scids),
     api_graph_channel := (\<lambda>scid n.
       if scid = 0 then Some (one_way [0] [6] demo_update)
       else if scid \<le> 6 then Some (one_way [ucast scid - 1] [ucast scid] free_update)
       else if scid = 7 then Some (one_way [6] [7] free_update) else None)\<rparr>"

lemmas detour_simps = detour_api_def demo_api_def one_way_def free_update_def demo_update_def
  find_routes_def add_direction_def push_edge_def hash_map_simps search_loop.simps heap_pop_def
  edge_fee_def route_of_def

lemma short_way_found:
  "length (find_routes (detour_api [0, 7]) ''dest'' 1000 1 []) = 1"
  by (simp add: detour_simps Let_def)

lemma short_way_missed:
  "find_routes (detour_api [0, 1, 2, 3, 4, 5, 6, 7]) ''dest'' 1000 1 [] = []"
  by (simp add: detour_simps Let_def)

lemma detour_edge:
  assumes "channel_edge amount (\<lambda>scid. api_graph_channel (detour_api scids) scid n) scids a e"
  shows "edge_base e \<le> 1 \<and> edge_prop e \<le> 100"
  using assms by (auto simp: channel_edge_def detour_simps split: if_splits)

lemma detour_short_edge:
  "channel_edge amount (\<lambda>scid. api_graph_channel (detour_api scids) scid n) [0, 7] a e \<Longrightarrow> edge_next e \<in> {[0], [6], [7]}"
  by (auto simp: channel_edge_def detour_simps split: if_splits)

lemma detour_fees_fit:
  "fees_fit (channel_edge 1000 (\<lambda>scid. api_graph_channel (detour_api scids) scid n) scids) 1000"
  unfolding fees_fit_def
proof (intro allI impI)
  fix a e
  assume "channel_edge 1000 (\<lambda>scid. api_graph_channel (detour_api scids) scid n) scids a e"
  from detour_edge [OF this] have u: "unat (edge_base e) \<le> 1" "unat (edge_prop e) \<le> 100"
    by (simp_all add: word_le_nat_alt)
  have "unat (1000 * ucast (edge_prop e) :: u64) \<le> 1000 * unat (edge_prop e)"
    using u(2) by (simp add: unat_word_ariths unsigned_ucast_eq take_bit_nat_eq_self)
  with u(2) have "unat ((1000 * ucast (edge_prop e)) div 1000000 :: u64) \<le> 1" by (simp add: unat_div)
  moreover have "unat (ucast (edge_base e) :: u64) \<le> 1" using u(1) by (simp add: unsigned_ucast_eq take_bit_nat_eq_self)
  moreover have "unat (edge_fee 1000 e) \<le>
      unat (ucast (edge_base e) :: u64) + unat ((1000 * ucast (edge_prop e)) div 1000000 :: u64)"
    unfolding edge_fee_def by (subst unat_word_ariths) simp
  ultimately show "7 * unat (edge_fee 1000 e) < 2 ^ 64" by simp
qed

lemma detour_walk:
  assumes "{0, 7} \<subseteq> set scids"
  shows "\<exists>path. walks (channel_edge 1000 (\<lambda>scid. api_graph_channel (detour_api scids) scid n) scids) 1000 [0] path [7] \<and>
    length path = 2"
proof -
  let ?to6 = "\<lparr>edge_next = [6], edge_scid = 0, edge_base = 1, edge_prop = 100, edge_cltv = 40\<rparr>"
  let ?to7 = "\<lparr>edge_next = [7], edge_scid = 7, edge_base = 0, edge_prop = 0, edge_cltv = 40\<rparr>"
  let ?E = "channel_edge 1000 (\<lambda>scid. api_graph_channel (detour_api scids) scid n) scids"
  have "?E [0] ?to6" "?E [6] ?to7" using assms by (simp_all add: channel_edge_def detour_simps)
  then have "walks ?E 1000 [0] [hop_along 1000 ?to6, hop_along 1000 ?to7] [7]"
    by (auto simp: hop_along_def)
  then show ?thesis by (intro exI [of _ "[hop_along 1000 ?to6, hop_along 1000 ?to7]"]) simp
qed

theorem first_route_is_cheapest_witness:
  "\<exists>path others. find_routes (detour_api [0, 7]) ''dest'' 1000 1 [] = route_of (path_fees path) path # others \<and>
     length path \<le> 6 \<and> unat (path_fees path) = walk_fee path"
proof -
  let ?E = "channel_edge 1000 (\<lambda>scid. api_graph_channel (detour_api [0, 7]) scid []) (api_graph_channels (detour_api [0, 7]) [])"
  have at: "api_node_id (detour_api [0, 7]) = [0]" "api_graph_channels (detour_api [0, 7]) [] = [0, 7]"
    "api_parse_pubkey (detour_api [0, 7]) ''dest'' = Ok [7]" by (simp_all add: detour_api_def)
  have "cheapest_are_short ?E 1000 [0]" unfolding at(2)
    by (rule small_graphs_have_short_paths [of "{[0], [6], [7]}"]) (use detour_short_edge in auto)
  moreover obtain p where "walks ?E 1000 [0] p [7]" using detour_walk [of "[0, 7]" "[]"] unfolding at(2) by auto
  ultimately show ?thesis
    using first_route_is_cheapest [OF at(3) _ _ refl, of 1 1000 "[]" p] detour_fees_fit [of "[0, 7]" "[]"]
    unfolding at by auto
qed

text \<open>Without that bound on the cheapest paths a route can be missed: a free detour of six hops
  marks a node as visited, the destination is one hop too far that way, and the dear but
  short way to the node is dropped. With the channels of the detour in the graph no route is found,
  without them there is one, and the short way is open in both.\<close>

theorem a_long_detour_hides_a_short_route:
  "find_routes (detour_api [0, 1, 2, 3, 4, 5, 6, 7]) ''dest'' 1000 1 [] = [] \<and>
   find_routes (detour_api [0, 7]) ''dest'' 1000 1 [] \<noteq> [] \<and>
   (\<exists>path. walks (channel_edge 1000
        (\<lambda>scid. api_graph_channel (detour_api [0, 1, 2, 3, 4, 5, 6, 7]) scid [])
        (api_graph_channels (detour_api [0, 1, 2, 3, 4, 5, 6, 7]) [])) 1000 [0] path [7] \<and> length path = 2)"
proof -
  have at: "api_graph_channels (detour_api scids) [] = scids" for scids by (simp add: detour_api_def)
  have "find_routes (detour_api [0, 7]) ''dest'' 1000 1 [] \<noteq> []" using short_way_found by auto
  moreover have "\<exists>path. walks (channel_edge 1000
        (\<lambda>scid. api_graph_channel (detour_api [0, 1, 2, 3, 4, 5, 6, 7]) scid [])
        [0, 1, 2, 3, 4, 5, 6, 7]) 1000 [0] path [7] \<and> length path = 2"
    by (rule detour_walk) simp
  ultimately show ?thesis using short_way_missed unfolding at by blast
qed

end
