(* ===== verification/Access_Machine.thy ===== *)
theory Access_Machine
  imports Access_Laws
begin

section \<open>Access control over time: tasks that interleave\<close>

text \<open>
  \<open>verify_access\<close>, its refund and the updates of profiles run in tasks of their own: requests in
  the listener of \<open>run_nwc_service\<close>, grants in the listener and in the task that fetches them.
  Each takes several locks, one after the other, and between two of them other tasks run. Here
  every critical section is a step of its own: the read of the profile, the look-up of either
  handle, the locked part of \<open>verify_access\<close>, the refund of one bucket, and of an update the
  removal of the old buckets from either map, the insertion of every new one and the write of
  the profile. The clock may give any time whenever it is read.
\<close>

subsection \<open>A request that looks up its handles\<close>

datatype look_up =
    Read_profile nip47_request pubkey
  | Find_rate nip47_request pubkey usage_profile "method_access_rule option"
  | Find_quota nip47_request pubkey usage_profile "state_update_request list"

datatype look_up_result =
    Next_look_up look_up
  | Found "state_update_request list"
  | Turned_away nip47_response

fun look_up_request :: "look_up \<Rightarrow> nip47_request" where
  "look_up_request (Read_profile req caller) = req"
| "look_up_request (Find_rate req caller p mr) = req"
| "look_up_request (Find_quota req caller p us) = req"

fun look_up_step ::
    "(nip47_method \<Rightarrow> string) \<Rightarrow> bip321_parser \<Rightarrow> look_up \<Rightarrow> profile_state \<Rightarrow> look_up_result" where
  "look_up_step as_str parse (Read_profile req caller) ps =
     (case get_usage_profile caller ps of
        None \<Rightarrow> Turned_away (unauthorized_response (req_method req))
      | Some p \<Rightarrow>
         (case method_rule_for (req_method req) p of
            Err resp \<Rightarrow> Turned_away resp
          | Ok method_rule \<Rightarrow> Next_look_up (Find_rate req caller p method_rule)))"
| "look_up_step as_str parse (Find_rate req caller p method_rule) ps =
     (case access_rate_updates (req_method req) caller method_rule (access ps) of
        Err resp \<Rightarrow> Turned_away resp
      | Ok rate_updates \<Rightarrow> Next_look_up (Find_quota req caller p rate_updates))"
| "look_up_step as_str parse (Find_quota req caller p rate_updates) ps =
     (case quota_updates (req_method req) caller
             (case request_spend_msat parse req of None \<Rightarrow> 0 | Some a \<Rightarrow> a) (profile_quota p) (access ps) of
        Err resp \<Rightarrow> Turned_away resp
      | Ok spend_updates \<Rightarrow>
          Found (sort_by (\<lambda>a b. compare_access_keys as_str (upd_key a) (upd_key b))
                   (rate_updates @ spend_updates)))"

text \<open>With nobody in between, the steps are \<open>prepare_updates\<close>.\<close>

fun look_ups_left :: "look_up \<Rightarrow> nat" where
  "look_ups_left (Read_profile req caller) = 2"
| "look_ups_left (Find_rate req caller p mr) = 1"
| "look_ups_left (Find_quota req caller p us) = 0"

lemma look_up_step_advances:
  "look_up_step as_str parse t ps = Next_look_up t' \<Longrightarrow>
     look_ups_left t' < look_ups_left t \<and> look_up_request t' = look_up_request t"
  by (cases t) (auto split: option.splits sum.splits)

function look_up_alone ::
    "(nip47_method \<Rightarrow> string) \<Rightarrow> bip321_parser \<Rightarrow> look_up \<Rightarrow> profile_state \<Rightarrow>
       nip47_response + state_update_request list" where
  "look_up_alone as_str parse t ps =
     (case look_up_step as_str parse t ps of
        Next_look_up t' \<Rightarrow> look_up_alone as_str parse t' ps
      | Found us \<Rightarrow> Ok us
      | Turned_away resp \<Rightarrow> Err resp)"
  by pat_completeness auto
termination
  by (relation "measure (\<lambda>(as_str, parse, t, ps). look_ups_left t)")
    (auto dest: look_up_step_advances)

declare look_up_alone.simps [simp del]

lemma look_up_alone_prepares:
  "look_up_alone as_str parse (Read_profile req caller) ps = prepare_updates as_str parse req caller ps"
  by (simp add: look_up_alone.simps [of _ _ "Read_profile req caller"]
      look_up_alone.simps [of _ _ "Find_rate req caller p mr" for p mr]
      look_up_alone.simps [of _ _ "Find_quota req caller p us" for p us]
      prepare_updates_def get_usage_profile_def split: option.split sum.split)

subsection \<open>An update of a profile\<close>

datatype profile_update =
    Clear_rates pubkey usage_profile
  | Clear_quotas pubkey usage_profile
  | Fill_methods pubkey usage_profile u64 "(nip47_method \<times> method_access_rule) list"
  | Fill_quota pubkey usage_profile u64
  | Write_profile pubkey usage_profile
  | Reset_profiles
  | Reset_rates
  | Reset_quotas

definition initialize_quota_state :: "pubkey \<Rightarrow> usage_profile \<Rightarrow> u64 \<Rightarrow> access_state \<Rightarrow> access_state" where
  "initialize_quota_state target p now st =
     (case profile_quota p of
        None \<Rightarrow> st
      | Some rule \<Rightarrow>
         (case from_rule now rule of
            Err _ \<Rightarrow> st
          | Ok s \<Rightarrow> snd (insert_quota_state (AccessKey_Quota target) s st)))"

fun update_step ::
    "nat \<Rightarrow> profile_update \<Rightarrow> profile_state \<Rightarrow> profile_state \<times> profile_update option" where
  "update_step micros (Clear_rates target p) ps =
     (ps\<lparr>access := retain_access_rate_states (\<lambda>key _. \<not> key_belongs_to_pubkey key target) (access ps)\<rparr>,
      Some (Clear_quotas target p))"
| "update_step micros (Clear_quotas target p) ps =
     (ps\<lparr>access := retain_quota_states (\<lambda>key _. \<not> key_belongs_to_pubkey key target) (access ps)\<rparr>,
      Some (Fill_methods target p (now_micros micros)
              (case profile_methods p of None \<Rightarrow> [] | Some ms \<Rightarrow> ms)))"
| "update_step micros (Fill_methods target p now (e # ms)) ps =
     (ps\<lparr>access := initialize_method_states target [e] now (access ps)\<rparr>,
      Some (Fill_methods target p now ms))"
| "update_step micros (Fill_methods target p now []) ps = (ps, Some (Fill_quota target p now))"
| "update_step micros (Fill_quota target p now) ps =
     (ps\<lparr>access := initialize_quota_state target p now (access ps)\<rparr>, Some (Write_profile target p))"
| "update_step micros (Write_profile target p) ps = (upsert_usage_profile target p ps, None)"
| "update_step micros Reset_profiles ps = (clear_usage_profiles_store ps, Some Reset_rates)"
| "update_step micros Reset_rates ps =
     (ps\<lparr>access := clear_access_rate_states (access ps)\<rparr>, Some Reset_quotas)"
| "update_step micros Reset_quotas ps = (ps\<lparr>access := clear_quota_states (access ps)\<rparr>, None)"

text \<open>With nobody in between, the steps are the operations of \<open>service.rs\<close>.\<close>

fun update_stage :: "profile_update \<Rightarrow> nat \<times> nat" where
  "update_stage (Clear_rates target p) = (4, 0)"
| "update_stage (Clear_quotas target p) = (3, 0)"
| "update_stage (Fill_methods target p now ms) = (2, length ms)"
| "update_stage (Fill_quota target p now) = (1, 0)"
| "update_stage (Write_profile target p) = (0, 0)"
| "update_stage Reset_profiles = (2, 0)"
| "update_stage Reset_rates = (1, 0)"
| "update_stage Reset_quotas = (0, 0)"

lemma update_step_advances:
  "update_step micros t ps = (ps', Some t') \<Longrightarrow>
     (update_stage t', update_stage t) \<in> less_than <*lex*> less_than"
  by (induction micros t ps rule: update_step.induct) auto

function update_alone :: "nat \<Rightarrow> profile_update \<Rightarrow> profile_state \<Rightarrow> profile_state" where
  "update_alone micros t ps =
     (case update_step micros t ps of
        (ps', None) \<Rightarrow> ps'
      | (ps', Some t') \<Rightarrow> update_alone micros t' ps')"
  by pat_completeness auto
termination
  by (relation "inv_image (less_than <*lex*> less_than) (\<lambda>(micros, t, ps). update_stage t)")
    (auto dest: update_step_advances [OF sym])

declare update_alone.simps [simp del]

lemma initialize_method_states_Cons:
  "initialize_method_states target (e # ms) now st =
     initialize_method_states target ms now (initialize_method_states target [e] now st)"
  by (cases e) (simp add: initialize_method_states.simps)

lemma update_alone_fills:
  "update_alone micros (Fill_methods target p now ms) ps =
     upsert_usage_profile target p
       (ps\<lparr>access := initialize_quota_state target p now (initialize_method_states target ms now (access ps))\<rparr>)"
proof (induction ms arbitrary: ps)
  case Nil
  show ?case
    by (simp add: initialize_method_states.simps update_alone.simps [of micros "Fill_methods target p now []"]
        update_alone.simps [of micros "Fill_quota target p now"]
        update_alone.simps [of micros "Write_profile target p"])
next
  case (Cons e ms)
  then show ?case
    by (simp add: update_alone.simps [of micros "Fill_methods target p now (e # ms)"]
        initialize_method_states_Cons [of target e ms])
qed

lemma update_alone_upserts:
  "update_alone micros (Clear_rates target p) ps = upsert_usage_profile_and_reset_states target p micros ps"
  by (simp add: update_alone.simps [of micros "Clear_rates target p"]
      update_alone.simps [of micros "Clear_quotas target p"] update_alone_fills
      upsert_usage_profile_and_reset_states_def initialize_states_for_profile_def
      initialize_quota_state_def clear_states_for_pubkey_def initialize_method_states.simps Let_def
      split: option.split sum.split)

lemma update_alone_resets:
  "update_alone micros Reset_profiles ps = clear_all_usage_profiles_and_states ps"
  "update_alone micros Reset_rates ps = ps\<lparr>access := clear_all_access_states (access ps)\<rparr>"
  by (simp_all add: update_alone.simps [of micros Reset_profiles] update_alone.simps [of micros Reset_rates]
      update_alone.simps [of micros Reset_quotas] clear_all_usage_profiles_and_states_def
      clear_usage_profiles_store_def clear_all_access_states_def clear_all_states_def)

subsection \<open>The machine\<close>

text \<open>
  A configuration holds the shared state and the tasks: requests that look up their handles,
  that wait for the locks with their updates, that were granted and execute, and that failed
  and still have buckets to refund, and updates of profiles under way. \<open>grants\<close> says which
  profiles are ever granted to whom.

  Between its first lock and its last release \<open>verify_access\<close> holds the mutex of every bucket
  it reads or writes, and all buckets are written under their mutex only; so that part is one
  step, \<open>settle\<close>. \<open>lock_step\<close> takes it apart where the order of locking matters.
\<close>

record access_config =
  cfg_state :: profile_state
  cfg_looking :: "look_up list"
  cfg_waiting :: "(nip47_method \<times> state_update_request list) list"
  cfg_running :: "state_update_request list list"
  cfg_refunding :: "state_update_request list list"
  cfg_updates :: "profile_update list"

inductive access_step ::
    "(pubkey \<Rightarrow> usage_profile \<Rightarrow> bool) \<Rightarrow> (nip47_method \<Rightarrow> string) \<Rightarrow> bip321_parser \<Rightarrow>
       access_config \<Rightarrow> access_config \<Rightarrow> bool"
  for grants :: "pubkey \<Rightarrow> usage_profile \<Rightarrow> bool" and as_str :: "nip47_method \<Rightarrow> string"
    and parse :: bip321_parser where
  step_request:
    "access_step grants as_str parse c (c\<lparr>cfg_looking := Read_profile req caller # cfg_looking c\<rparr>)"
| step_look_up: "cfg_looking c = ls @ t # ls' \<Longrightarrow>
    look_up_step as_str parse t (cfg_state c) = Next_look_up t' \<Longrightarrow>
    access_step grants as_str parse c (c\<lparr>cfg_looking := ls @ t' # ls'\<rparr>)"
| step_found: "cfg_looking c = ls @ t # ls' \<Longrightarrow>
    look_up_step as_str parse t (cfg_state c) = Found us \<Longrightarrow>
    access_step grants as_str parse c (c\<lparr>cfg_looking := ls @ ls',
      cfg_waiting := (req_method (look_up_request t), us) # cfg_waiting c\<rparr>)"
| step_turn_away: "cfg_looking c = ls @ t # ls' \<Longrightarrow>
    look_up_step as_str parse t (cfg_state c) = Turned_away resp \<Longrightarrow>
    access_step grants as_str parse c (c\<lparr>cfg_looking := ls @ ls'\<rparr>)"
| step_admit: "cfg_waiting c = ws @ (m, us) # ws' \<Longrightarrow>
    settle m (now_micros micros) us (access (cfg_state c)) = (Ok (), st) \<Longrightarrow>
    access_step grants as_str parse c (c\<lparr>cfg_state := (cfg_state c)\<lparr>access := st\<rparr>,
      cfg_waiting := ws @ ws', cfg_running := us # cfg_running c\<rparr>)"
| step_refuse: "cfg_waiting c = ws @ (m, us) # ws' \<Longrightarrow>
    settle m (now_micros micros) us (access (cfg_state c)) = (Err resp, st) \<Longrightarrow>
    access_step grants as_str parse c (c\<lparr>cfg_state := (cfg_state c)\<lparr>access := st\<rparr>,
      cfg_waiting := ws @ ws'\<rparr>)"
| step_answer: "cfg_running c = rs @ us # rs' \<Longrightarrow>
    access_step grants as_str parse c (c\<lparr>cfg_running := rs @ rs'\<rparr>)"
| step_fail: "cfg_running c = rs @ us # rs' \<Longrightarrow>
    access_step grants as_str parse c (c\<lparr>cfg_running := rs @ rs', cfg_refunding := us # cfg_refunding c\<rparr>)"
| step_refund: "cfg_refunding c = fs @ (u # us) # fs' \<Longrightarrow>
    access_step grants as_str parse c
      (c\<lparr>cfg_state := (cfg_state c)\<lparr>access := refund_applied_state_updates [u] (access (cfg_state c))\<rparr>,
         cfg_refunding := fs @ us # fs'\<rparr>)"
| step_refunded: "cfg_refunding c = fs @ [] # fs' \<Longrightarrow>
    access_step grants as_str parse c (c\<lparr>cfg_refunding := fs @ fs'\<rparr>)"
| step_grant: "grants target p \<Longrightarrow> wf_profile p \<Longrightarrow>
    access_step grants as_str parse c (c\<lparr>cfg_updates := Clear_rates target p # cfg_updates c\<rparr>)"
| step_reset: "t = Reset_profiles \<or> t = Reset_rates \<Longrightarrow>
    access_step grants as_str parse c (c\<lparr>cfg_updates := t # cfg_updates c\<rparr>)"
| step_update: "cfg_updates c = ts @ t # ts' \<Longrightarrow>
    update_step micros t (cfg_state c) = (ps, rest) \<Longrightarrow>
    access_step grants as_str parse c
      (c\<lparr>cfg_state := ps, cfg_updates := ts @ (case rest of None \<Rightarrow> [] | Some t' \<Rightarrow> [t']) @ ts'\<rparr>)"

definition access_start :: access_config where
  "access_start = \<lparr>cfg_state = profile_state_empty, cfg_looking = [], cfg_waiting = [], cfg_running = [],
     cfg_refunding = [], cfg_updates = []\<rparr>"

text \<open>The operations as the code composes them, undisturbed, are runs of the machine.\<close>

lemma undisturbed_look_up:
  assumes "look_up_alone as_str parse t (cfg_state c) = Ok us" and "cfg_looking c = t # ls"
  shows "(access_step grants as_str parse)\<^sup>*\<^sup>* c (c\<lparr>cfg_looking := ls,
    cfg_waiting := (req_method (look_up_request t), us) # cfg_waiting c\<rparr>)"
  using assms
proof (induction as_str parse t "cfg_state c" arbitrary: c rule: look_up_alone.induct)
  case (1 as_str parse t)
  show ?case
  proof (cases "look_up_step as_str parse t (cfg_state c)")
    case (Next_look_up t')
    let ?c = "c\<lparr>cfg_looking := t' # ls\<rparr>"
    have "access_step grants as_str parse c ?c"
      using step_look_up [of c "[]" t ls] 1 Next_look_up by simp
    moreover have "(access_step grants as_str parse)\<^sup>*\<^sup>* ?c (?c\<lparr>cfg_looking := ls,
        cfg_waiting := (req_method (look_up_request t'), us) # cfg_waiting ?c\<rparr>)"
      using "1.prems" Next_look_up
      by (intro "1.hyps" [OF Next_look_up]) (simp_all add: look_up_alone.simps [of _ _ t])
    ultimately show ?thesis
      using look_up_step_advances [OF Next_look_up] by (simp add: converse_rtranclp_into_rtranclp)
  next
    case (Found vs)
    with 1 show ?thesis
      using step_found [of c "[]" t ls] by (auto simp: look_up_alone.simps [of _ _ t])
  next
    case (Turned_away resp)
    with 1 show ?thesis by (simp add: look_up_alone.simps [of _ _ t])
  qed
qed

lemma undisturbed_update:
  assumes "cfg_updates c = t # ts"
  shows "(access_step grants as_str parse)\<^sup>*\<^sup>* c
    (c\<lparr>cfg_state := update_alone micros t (cfg_state c), cfg_updates := ts\<rparr>)"
  using assms
proof (induction micros t "cfg_state c" arbitrary: c rule: update_alone.induct)
  case (1 micros t)
  obtain ps rest where u: "update_step micros t (cfg_state c) = (ps, rest)" by fastforce
  let ?c = "c\<lparr>cfg_state := ps, cfg_updates := (case rest of None \<Rightarrow> [] | Some t' \<Rightarrow> [t']) @ ts\<rparr>"
  have step: "access_step grants as_str parse c ?c"
    using step_update [of c "[]" t ts, OF _ u] 1 by simp
  show ?case
  proof (cases rest)
    case None
    with step u show ?thesis by (simp add: update_alone.simps [of micros t] r_into_rtranclp)
  next
    case (Some t')
    then have "(access_step grants as_str parse)\<^sup>*\<^sup>* ?c
        (?c\<lparr>cfg_state := update_alone micros t' (cfg_state ?c), cfg_updates := ts\<rparr>)"
      using u by (intro "1.hyps" [where y = rest]) simp_all
    with step u Some show ?thesis
      by (simp add: update_alone.simps [of micros t] converse_rtranclp_into_rtranclp)
  qed
qed

lemma undisturbed_grant:
  assumes "grants target p" and "wf_profile p"
  shows "(access_step grants as_str parse)\<^sup>*\<^sup>* c
    (c\<lparr>cfg_state := upsert_usage_profile_and_reset_states target p micros (cfg_state c)\<rparr>)"
proof -
  let ?c = "c\<lparr>cfg_updates := Clear_rates target p # cfg_updates c\<rparr>"
  have "access_step grants as_str parse c ?c" using assms by (rule step_grant)
  moreover have "(access_step grants as_str parse)\<^sup>*\<^sup>* ?c
      (?c\<lparr>cfg_state := update_alone micros (Clear_rates target p) (cfg_state ?c), cfg_updates := cfg_updates c\<rparr>)"
    by (rule undisturbed_update) simp
  ultimately show ?thesis by (simp add: update_alone_upserts converse_rtranclp_into_rtranclp)
qed

lemma undisturbed_request:
  assumes "prepare_updates as_str parse req caller (cfg_state c) = Ok us"
  shows "(access_step grants as_str parse)\<^sup>*\<^sup>* c (c\<lparr>cfg_waiting := (req_method req, us) # cfg_waiting c\<rparr>)"
proof -
  let ?c = "c\<lparr>cfg_looking := Read_profile req caller # cfg_looking c\<rparr>"
  have "access_step grants as_str parse c ?c" by (rule step_request)
  moreover have "(access_step grants as_str parse)\<^sup>*\<^sup>* ?c (?c\<lparr>cfg_looking := cfg_looking c,
      cfg_waiting := (req_method (look_up_request (Read_profile req caller)), us) # cfg_waiting ?c\<rparr>)"
    by (rule undisturbed_look_up) (simp_all add: look_up_alone_prepares assms)
  ultimately show ?thesis by (simp add: converse_rtranclp_into_rtranclp)
qed

end
