(* ===== verification/Access_Interleaving.thy ===== *)
theory Access_Interleaving
  imports Access_Machine
begin

section \<open>What holds in every interleaving\<close>

text \<open>
  The invariant of the machine of \<open>Access_Machine\<close>, and what follows from it: the bounds of the
  buckets, and that requests which take their locks at once never deadlock.
\<close>

subsection \<open>What every bucket was filled by\<close>

text \<open>
  Tasks that interleave can run with the rule of a profile that is replaced meanwhile. What
  remains is the set of profiles ever granted: a bucket was filled up to the capacity of a
  rule that one of them gives its key.
\<close>

definition rule_for_key :: "usage_profile \<Rightarrow> access_key \<Rightarrow> rate_limit_rule option" where
  "rule_for_key p key =
     (case key of
        AccessKey_Method pk m \<Rightarrow>
          (case method_rule_for m p of Err _ \<Rightarrow> None | Ok mr \<Rightarrow> Option.bind mr rule_access_rate)
      | AccessKey_Quota pk \<Rightarrow> profile_quota p)"

definition granted_rule ::
    "(pubkey \<Rightarrow> usage_profile \<Rightarrow> bool) \<Rightarrow> access_key \<Rightarrow> rate_limit_rule \<Rightarrow> bool" where
  "granted_rule grants key rule \<longleftrightarrow>
     (\<exists>p. grants (access_key_pubkey key) p \<and> rule_for_key p key = Some rule)"

definition filled_by_grant ::
    "(pubkey \<Rightarrow> usage_profile \<Rightarrow> bool) \<Rightarrow> access_key \<Rightarrow> rate_state \<Rightarrow> bool" where
  "filled_by_grant grants key s \<longleftrightarrow> (\<exists>rule. granted_rule grants key rule \<and> bucket_ok rule s)"

lemma filled_by_grantI: "granted_rule grants key rule \<Longrightarrow> bucket_ok rule s \<Longrightarrow> filled_by_grant grants key s"
  by (auto simp: filled_by_grant_def)

lemma filled_nonneg: "filled_by_grant grants key s \<Longrightarrow> 0 \<le> sint (balance s)"
  by (auto simp: filled_by_grant_def bucket_ok_def)

lemma filled_withdraw:
  assumes "filled_by_grant grants key s" and "granted_rule grants key rule"
  shows "filled_by_grant grants key (snd (withdraw_after_refill s amount now rule))"
  by (cases rule: withdraw_any_rule [OF filled_nonneg [OF assms(1)], of amount now rule])
    (use assms in \<open>auto intro: filled_by_grantI\<close>)

lemma filled_refund:
  assumes "filled_by_grant grants key s" and "granted_rule grants key rule"
  shows "filled_by_grant grants key (snd (refund s amount rule))"
  by (cases rule: refund_any_rule [OF filled_nonneg [OF assms(1)], of amount rule])
    (use assms in \<open>auto intro: filled_by_grantI\<close>)

text \<open>The key of every handle, in the maps or in the hands of a request.\<close>

definition known_handles :: "profile_state \<Rightarrow> state_update_request set \<Rightarrow> (access_key \<times> addr) set" where
  "known_handles ps U = handles (access ps) \<union> (\<lambda>u. (upd_key u, upd_state u)) ` U"

definition store_ok ::
    "(pubkey \<Rightarrow> usage_profile \<Rightarrow> bool) \<Rightarrow> profile_state \<Rightarrow> state_update_request set \<Rightarrow> bool" where
  "store_ok grants ps U \<longleftrightarrow>
     wf_access_state (access ps) \<and> unpoisoned (access ps) \<and>
     (\<forall>pk p. usage_profiles ps pk = Some p \<longrightarrow> grants pk p) \<and>
     (\<forall>u \<in> U. granted_rule grants (upd_key u) (upd_rule u)) \<and>
     (\<forall>(k, a) \<in> known_handles ps U. \<exists>s. lock_cell (access ps) a = Some s \<and> filled_by_grant grants k s) \<and>
     (\<forall>(k, a) \<in> known_handles ps U. \<forall>k'. (k', a) \<in> known_handles ps U \<longrightarrow> k = k')"

lemma store_okI:
  assumes "wf_access_state (access ps)" and "unpoisoned (access ps)"
    and "\<And>pk p. usage_profiles ps pk = Some p \<Longrightarrow> grants pk p"
    and "\<And>u. u \<in> U \<Longrightarrow> granted_rule grants (upd_key u) (upd_rule u)"
    and "\<And>k a. (k, a) \<in> known_handles ps U \<Longrightarrow> \<exists>s. lock_cell (access ps) a = Some s \<and> filled_by_grant grants k s"
    and "\<And>k k' a. (k, a) \<in> known_handles ps U \<Longrightarrow> (k', a) \<in> known_handles ps U \<Longrightarrow> k = k'"
  shows "store_ok grants ps U"
  using assms unfolding store_ok_def by blast

lemma store_okD:
  assumes "store_ok grants ps U"
  shows "wf_access_state (access ps)" and "unpoisoned (access ps)"
    and "usage_profiles ps pk = Some p \<Longrightarrow> grants pk p"
    and "u \<in> U \<Longrightarrow> granted_rule grants (upd_key u) (upd_rule u)"
    and "(k, a) \<in> known_handles ps U \<Longrightarrow> \<exists>s. lock_cell (access ps) a = Some s \<and> filled_by_grant grants k s"
    and "(k, a) \<in> known_handles ps U \<Longrightarrow> (k', a) \<in> known_handles ps U \<Longrightarrow> k = k'"
  using assms unfolding store_ok_def by blast+

lemma known_handlesI:
  "(k, a) \<in> handles (access ps) \<Longrightarrow> (k, a) \<in> known_handles ps U"
  "u \<in> U \<Longrightarrow> (upd_key u, upd_state u) \<in> known_handles ps U"
  by (auto simp: known_handles_def)

lemma store_ok_empty: "store_ok grants profile_state_empty {}"
  by (rule store_okI)
    (auto simp: profile_state_empty_def wf_empty known_handles_def access_state_empty_def unpoisoned_def handles_def
      intro: wf_empty [unfolded access_state_empty_def])

text \<open>Fewer handles, the same cells.\<close>

lemma store_ok_fewer:
  assumes "store_ok grants ps U" and "wf_access_state (access ps')"
    and "handles (access ps') \<subseteq> handles (access ps)" and "heap (access ps') = heap (access ps)"
    and "U' \<subseteq> U" and "\<And>pk p. usage_profiles ps' pk = Some p \<Longrightarrow> grants pk p"
  shows "store_ok grants ps' U'"
proof -
  note ok = store_okD [OF assms(1)]
  have known: "(k, a) \<in> known_handles ps' U' \<Longrightarrow> (k, a) \<in> known_handles ps U" for k a
    using assms(3,5) by (auto simp: known_handles_def)
  have "lock_cell (access ps') = lock_cell (access ps)"
    using assms(4) by (simp add: lock_cell_def [abs_def])
  note cells = this
  show ?thesis
  proof (rule store_okI)
    show "unpoisoned (access ps')" using ok(2) assms(4) by (simp add: unpoisoned_def)
    show "\<exists>s. lock_cell (access ps') a = Some s \<and> filled_by_grant grants k s"
      if "(k, a) \<in> known_handles ps' U'" for k a
      using ok(5) [OF known [OF that]] cells by simp
    show "k = k'" if "(k, a) \<in> known_handles ps' U'" "(k', a) \<in> known_handles ps' U'" for k k' a
      using ok(6) [OF known [OF that(1)] known [OF that(2)]] .
  qed (use assms ok(4) in auto)
qed

text \<open>A request gets hold of a handle.\<close>

lemma store_ok_found:
  assumes "store_ok grants ps U" and "\<forall>u \<in> V. (upd_key u, upd_state u) \<in> handles (access ps) \<and>
      granted_rule grants (upd_key u) (upd_rule u)"
  shows "store_ok grants ps (V \<union> U)"
proof -
  have "known_handles ps (V \<union> U) = known_handles ps U"
    using assms(2) by (auto simp: known_handles_def)
  with assms store_okD [OF assms(1)] show ?thesis by (intro store_okI) auto
qed

text \<open>A write through a handle.\<close>

lemma store_ok_write:
  assumes "store_ok grants ps U" and "(k, a) \<in> known_handles ps U" and "filled_by_grant grants k s"
  shows "store_ok grants (with_access ps (store_cell a s (access ps))) U"
proof -
  note ok = store_okD [OF assms(1)]
  have known: "known_handles (with_access ps (store_cell a s (access ps))) U = known_handles ps U"
    by (simp add: known_handles_def)
  have "heap (access ps) a \<noteq> None" using ok(5) [OF assms(2)] by (auto simp: lock_cell_def split: option.splits)
  then have wf: "wf_access_state (store_cell a s (access ps))" using ok(1) by (simp add: wf_store_cell)
  have cell: "lock_cell (store_cell a s (access ps)) b = (if b = a then Some s else lock_cell (access ps) b)" for b
    by (simp add: lock_cell_def)
  show ?thesis
  proof (rule store_okI, unfold known with_access_simps)
    show "\<exists>s'. lock_cell (store_cell a s (access ps)) b = Some s' \<and> filled_by_grant grants k' s'"
      if h: "(k', b) \<in> known_handles ps U" for k' b
      using ok(5) [OF h] ok(6) [OF assms(2), of k'] assms(3) h cell by (cases "b = a") auto
    show "unpoisoned (store_cell a s (access ps))" using ok(2) by (rule unpoisoned_store_cell)
  qed (use wf ok in \<open>blast+\<close>)
qed

text \<open>The locked part of \<open>verify_access\<close>, and the refund of a bucket.\<close>

lemma store_ok_drop_guards:
  assumes "store_ok grants ps U" and "gu_update ` set gs \<subseteq> U"
    and "\<forall>g \<in> set gs. filled_by_grant grants (upd_key (gu_update g)) (gu_guard g)"
  shows "store_ok grants (with_access ps (drop_guards gs (access ps))) U"
  using assms
proof (induction gs arbitrary: ps)
  case Nil
  then show ?case by simp
next
  case (Cons g gs)
  let ?ps = "with_access ps (store_cell (upd_state (gu_update g)) (gu_guard g) (access ps))"
  have "store_ok grants ?ps U"
    using Cons.prems by (intro store_ok_write [where k = "upd_key (gu_update g)"]) (auto intro: known_handlesI)
  then have "store_ok grants (with_access ?ps (drop_guards gs (access ?ps))) U"
    by (rule Cons.IH) (use Cons.prems in auto)
  then show ?case by simp
qed

lemma debit_all_filled:
  assumes "\<forall>g \<in> set gs. granted_rule grants (upd_key (gu_update g)) (upd_rule (gu_update g)) \<and>
      filled_by_grant grants (upd_key (gu_update g)) (gu_guard g)"
  shows "\<forall>g \<in> set (snd (debit_all m now gs)). filled_by_grant grants (upd_key (gu_update g)) (gu_guard g)"
  using assms
proof (induction gs)
  case Nil
  then show ?case by simp
next
  case (Cons g gs)
  then show ?case
    using filled_withdraw [of grants "upd_key (gu_update g)" "gu_guard g" "upd_rule (gu_update g)" "upd_amount (gu_update g)" now]
    by (auto split: prod.splits sum.splits)
qed

lemma store_ok_settle:
  assumes "store_ok grants ps U" and "set us \<subseteq> U"
  shows "store_ok grants (with_access ps (snd (settle m now us (access ps)))) U"
proof (cases "lock_all m (access ps) us")
  case (Inl e)
  with assms show ?thesis by (simp add: settle_def)
next
  case (Inr gs)
  note cells = lock_all_cells [OF Inr] and ok = store_okD [OF assms(1)]
  have "granted_rule grants (upd_key (gu_update g)) (upd_rule (gu_update g)) \<and>
      filled_by_grant grants (upd_key (gu_update g)) (gu_guard g)" if "g \<in> set gs" for g
  proof -
    have u: "gu_update g \<in> U" using cells assms(2) that by auto
    then obtain s where "lock_cell (access ps) (upd_state (gu_update g)) = Some s"
      "filled_by_grant grants (upd_key (gu_update g)) s" using ok(5) [OF known_handlesI(2)] by blast
    with cells that ok(4) [OF u] show ?thesis by auto
  qed
  then have "\<forall>g \<in> set (snd (debit_all m now gs)). filled_by_grant grants (upd_key (gu_update g)) (gu_guard g)"
    by (intro debit_all_filled) blast
  moreover have "gu_update ` set (snd (debit_all m now gs)) \<subseteq> U"
    using cells debit_all_updates assms(2) by (metis list.set_map)
  ultimately have "store_ok grants (with_access ps (drop_guards (snd (debit_all m now gs)) (access ps))) U"
    using assms(1) by (intro store_ok_drop_guards)
  with Inr assms(1) show ?thesis
    by (cases "debit_all m now gs") (simp add: settle_def split: sum.splits)
qed

lemma store_ok_refund:
  assumes "store_ok grants ps U" and "u \<in> U"
  shows "store_ok grants (with_access ps (refund_applied_state_updates [u] (access ps))) U"
proof -
  note ok = store_okD [OF assms(1)]
  note h = known_handlesI(2) [OF assms(2), of ps]
  from ok(5) [OF h] obtain s where s: "lock_cell (access ps) (upd_state u) = Some s"
    "filled_by_grant grants (upd_key u) s" by blast
  from store_ok_write [OF assms(1) h filled_refund [OF s(2) ok(4) [OF assms(2)]]] s(1) show ?thesis by simp
qed

text \<open>A new bucket, under a key of the profile it is made for.\<close>

lemma store_ok_insert:
  assumes "store_ok grants ps U" and "filled_by_grant grants key s"
    and "wf_access_state st" and "handles st \<subseteq> insert (key, next_addr (access ps)) (handles (access ps))"
    and "heap st = (heap (access ps))(next_addr (access ps) \<mapsto> \<lparr>cell_state = s, cell_poisoned = False\<rparr>)"
  shows "store_ok grants (ps\<lparr>access := st\<rparr>) U"
proof -
  let ?a = "next_addr (access ps)"
  note ok = store_okD [OF assms(1)]
  have old: "b \<noteq> ?a" if "(k, b) \<in> known_handles ps U" for k b
  proof -
    from ok(5) [OF that] have "heap (access ps) b \<noteq> None" by (auto simp: lock_cell_def split: option.splits)
    then show ?thesis using wf_access_stateD(2) [OF ok(1)] by fastforce
  qed
  have known: "(k, b) \<in> known_handles (ps\<lparr>access := st\<rparr>) U \<Longrightarrow> (k, b) \<in> known_handles ps U \<or> k = key \<and> b = ?a" for k b
    using assms(4) by (auto simp: known_handles_def)
  have cell: "lock_cell st b = (if b = ?a then Some s else lock_cell (access ps) b)" for b
    using assms(5) by (simp add: lock_cell_def)
  show ?thesis
  proof (rule store_okI)
    show "unpoisoned (access (ps\<lparr>access := st\<rparr>))" using ok(2) assms(5) by (auto simp: unpoisoned_def)
    show "\<exists>s. lock_cell (access (ps\<lparr>access := st\<rparr>)) b = Some s \<and> filled_by_grant grants k s"
      if "(k, b) \<in> known_handles (ps\<lparr>access := st\<rparr>) U" for k b
      using known [OF that] ok(5) [of k b] old [of k b] assms(2) cell by auto
    show "k = k'" if "(k, b) \<in> known_handles (ps\<lparr>access := st\<rparr>) U"
      "(k', b) \<in> known_handles (ps\<lparr>access := st\<rparr>) U" for k k' b
      using known [OF that(1)] known [OF that(2)] ok(6) [of k b k'] old by blast
  qed (use assms(3) ok in auto)
qed

lemma granted_method_rule:
  assumes "grants target p" and "wf_profile p" and "profile_methods p = Some ms" and "(m, r) \<in> set ms"
    and "rule_access_rate r = Some rule"
  shows "granted_rule grants (AccessKey_Method target m) rule"
proof -
  have "map_of ms m = Some r" using assms by (intro map_of_is_SomeI) (simp_all add: wf_profile_def)
  moreover from this have "ms \<noteq> []" by auto
  ultimately have "rule_for_key p (AccessKey_Method target m) = Some rule"
    using assms by (simp add: rule_for_key_def method_rule_for_def)
  with assms(1) show ?thesis by (auto simp: granted_rule_def)
qed

lemma store_ok_fresh:
  assumes "store_ok grants ps U" and "granted_rule grants (AccessKey_Method target m) rule"
    and "from_rule now rule = Ok s"
  shows "store_ok grants (ps\<lparr>access := snd (insert_access_rate_state (AccessKey_Method target m) s (access ps))\<rparr>) U"
proof (rule store_ok_insert [OF assms(1) filled_by_grantI [OF assms(2) from_rule_ok [OF assms(3)]]])
  show "wf_access_state (snd (insert_access_rate_state (AccessKey_Method target m) s (access ps)))"
    using store_okD(1) [OF assms(1)] by (simp add: wf_intros)
qed (auto simp: insert_eqs handles_def split: if_splits)

lemma store_ok_fresh_quota:
  assumes "store_ok grants ps U" and "granted_rule grants (AccessKey_Quota target) rule"
    and "from_rule now rule = Ok s"
  shows "store_ok grants (ps\<lparr>access := snd (insert_quota_state (AccessKey_Quota target) s (access ps))\<rparr>) U"
proof (rule store_ok_insert [OF assms(1) filled_by_grantI [OF assms(2) from_rule_ok [OF assms(3)]]])
  show "wf_access_state (snd (insert_quota_state (AccessKey_Quota target) s (access ps)))"
    using store_okD(1) [OF assms(1)] by (simp add: wf_intros)
qed (auto simp: insert_eqs handles_def split: if_splits)

lemma removals:
  "handles (retain_access_rate_states keep st) \<subseteq> handles st" "heap (retain_access_rate_states keep st) = heap st"
  "handles (retain_quota_states keep st) \<subseteq> handles st" "heap (retain_quota_states keep st) = heap st"
  "handles (clear_access_rate_states st) \<subseteq> handles st" "heap (clear_access_rate_states st) = heap st"
  "handles (clear_quota_states st) \<subseteq> handles st" "heap (clear_quota_states st) = heap st"
  by (auto simp: retain_access_rate_states_def retain_quota_states_def clear_access_rate_states_def
      clear_quota_states_def handles_def map_retain_def split: option.splits if_splits)

lemmas removed_handles = removals(1,3,5,7) [THEN subsetD]

lemma store_ok_removals:
  assumes "store_ok grants ps U"
  shows "store_ok grants (ps\<lparr>access := retain_access_rate_states keep (access ps)\<rparr>) U"
    and "store_ok grants (ps\<lparr>access := retain_quota_states keep (access ps)\<rparr>) U"
    and "store_ok grants (ps\<lparr>access := clear_access_rate_states (access ps)\<rparr>) U"
    and "store_ok grants (ps\<lparr>access := clear_quota_states (access ps)\<rparr>) U"
  using store_okD(1,3) [OF assms]
  by (auto intro!: store_ok_fewer [OF assms] intro: wf_intros simp: removals(2,4,6,8) dest: removed_handles)

lemma store_ok_profiles:
  assumes "store_ok grants ps U" and "\<And>pk p. profiles pk = Some p \<Longrightarrow> grants pk p"
  shows "store_ok grants (ps\<lparr>usage_profiles := profiles\<rparr>) U"
  using assms(2) store_okD(1) [OF assms(1)] by (intro store_ok_fewer [OF assms(1)]) auto

text \<open>What an update under way carries was granted.\<close>

fun update_ok :: "(pubkey \<Rightarrow> usage_profile \<Rightarrow> bool) \<Rightarrow> profile_update \<Rightarrow> bool" where
  "update_ok grants (Clear_rates target p) \<longleftrightarrow> grants target p \<and> wf_profile p"
| "update_ok grants (Clear_quotas target p) \<longleftrightarrow> grants target p \<and> wf_profile p"
| "update_ok grants (Fill_methods target p now ms) \<longleftrightarrow> grants target p \<and> wf_profile p \<and>
     set ms \<subseteq> set (case profile_methods p of None \<Rightarrow> [] | Some ms \<Rightarrow> ms)"
| "update_ok grants (Fill_quota target p now) \<longleftrightarrow> grants target p"
| "update_ok grants (Write_profile target p) \<longleftrightarrow> grants target p"
| "update_ok grants _ \<longleftrightarrow> True"

lemma store_ok_update:
  assumes "store_ok grants ps U" and "update_ok grants t" and "update_step micros t ps = (ps', rest)"
  shows "store_ok grants ps' U \<and> (\<forall>t'. rest = Some t' \<longrightarrow> update_ok grants t')"
  using assms
proof (induction micros t ps rule: update_step.induct)
  case (3 micros target p now e ms ps)
  obtain m r where e: "e = (m, r)" by fastforce
  then obtain mss where "profile_methods p = Some mss" "(m, r) \<in> set mss"
    using "3.prems"(2) by (cases "profile_methods p") auto
  with "3.prems" granted_method_rule [of grants target p mss m r] e
  show ?case by (auto simp: initialize_method_states.simps store_ok_fresh split: option.splits sum.splits)
next
  case (5 micros target p now ps)
  have "granted_rule grants (AccessKey_Quota target) rule" if "profile_quota p = Some rule" for rule
    using "5.prems"(2) that by (auto simp: granted_rule_def rule_for_key_def)
  with "5.prems" show ?case
    by (auto simp: initialize_quota_state_def store_ok_fresh_quota split: option.splits sum.splits)
next
  case (6 micros target p ps)
  then show ?case
    by (auto intro!: store_ok_profiles dest: store_okD(3) simp: upsert_usage_profile_def split: if_splits)
next
  case (7 micros ps)
  then show ?case by (auto intro!: store_ok_profiles simp: clear_usage_profiles_store_def)
qed (auto simp: store_ok_removals split: option.splits)

subsection \<open>The invariant of the machine\<close>

fun look_up_updates :: "look_up \<Rightarrow> state_update_request list" where
  "look_up_updates (Find_quota req caller p us) = us"
| "look_up_updates _ = []"

definition request_updates :: "access_config \<Rightarrow> state_update_request list set" where
  "request_updates c = snd ` set (cfg_waiting c) \<union> set (cfg_running c) \<union> set (cfg_refunding c)"

definition updates_in :: "access_config \<Rightarrow> state_update_request set" where
  "updates_in c = \<Union> (set ` (look_up_updates ` set (cfg_looking c) \<union> request_updates c))"

fun look_up_ok :: "(pubkey \<Rightarrow> usage_profile \<Rightarrow> bool) \<Rightarrow> look_up \<Rightarrow> bool" where
  "look_up_ok grants (Read_profile req caller) \<longleftrightarrow> True"
| "look_up_ok grants (Find_rate req caller p mr) \<longleftrightarrow>
     grants caller p \<and> method_rule_for (req_method req) p = Ok mr"
| "look_up_ok grants (Find_quota req caller p us) \<longleftrightarrow>
     grants caller p \<and> (\<exists>r. us = updates_of (req_method req) caller 0 r None)"

definition access_inv ::
    "(pubkey \<Rightarrow> usage_profile \<Rightarrow> bool) \<Rightarrow> (nip47_method \<Rightarrow> string) \<Rightarrow> access_config \<Rightarrow> bool" where
  "access_inv grants as_str c \<longleftrightarrow> store_ok grants (cfg_state c) (updates_in c) \<and>
     (\<forall>t \<in> set (cfg_looking c). look_up_ok grants t) \<and>
     (\<forall>t \<in> set (cfg_updates c). update_ok grants t) \<and>
     (\<forall>us \<in> request_updates c. sorted_wrt (key_before as_str) us)"

lemma access_inv_start: "access_inv grants as_str access_start"
  by (simp add: access_inv_def access_start_def updates_in_def request_updates_def store_ok_empty)

text \<open>What a step of a look-up finds is a handle in the map, for a rule of the profile it read.\<close>

lemma look_up_step_next:
  assumes "look_up_step as_str parse t ps = Next_look_up t'" and "store_ok grants ps U" and "look_up_ok grants t"
  shows "look_up_ok grants t' \<and> (\<forall>u \<in> set (look_up_updates t') - set (look_up_updates t).
    (upd_key u, upd_state u) \<in> handles (access ps) \<and> granted_rule grants (upd_key u) (upd_rule u))"
proof (cases t)
  case (Read_profile req caller)
  with assms show ?thesis
    using store_okD(3) [OF assms(2), of caller]
    by (auto simp: get_usage_profile_def split: option.splits sum.splits)
next
  case (Find_rate req caller p mr)
  let ?m = "req_method req"
  from assms(1) Find_rate obtain us where us: "access_rate_updates ?m caller mr (access ps) = Ok us"
    and t': "t' = Find_quota req caller p us" by (auto split: sum.splits)
  show ?thesis
  proof (cases "Option.bind mr rule_access_rate")
    case None
    then have "us = updates_of ?m caller 0 None None" using us by (simp add: access_rate_updates_cases updates_of_def)
    moreover have "us = []" using None us by (simp add: access_rate_updates_cases)
    ultimately have "\<exists>r. [] = updates_of ?m caller 0 r None" by metis
    with \<open>us = []\<close> show ?thesis using assms(3) Find_rate t' by simp
  next
    case (Some rule)
    then obtain a where a: "access_rate (access ps) (AccessKey_Method caller ?m) = Some a"
      "us = [rate_update ?m caller rule a]" using us by (auto simp: access_rate_updates_cases split: option.splits)
    then have "\<exists>r. [rate_update ?m caller rule a] = updates_of ?m caller 0 r None"
      by (intro exI [of _ "Some (rule, a)"]) (simp add: updates_of_def)
    moreover have "granted_rule grants (AccessKey_Method caller ?m) rule"
      using assms(3) Find_rate Some by (auto simp: granted_rule_def rule_for_key_def)
    ultimately show ?thesis
      using assms(3) Find_rate t' a(2) handlesI(1) [OF a(1)] by auto
  qed
qed (use assms in \<open>auto split: sum.splits\<close>)

lemma look_up_step_found:
  assumes "look_up_step as_str parse t ps = Found us" and "look_up_ok grants t"
  shows "sorted_wrt (key_before as_str) us \<and> (\<forall>u \<in> set us - set (look_up_updates t).
    (upd_key u, upd_state u) \<in> handles (access ps) \<and> granted_rule grants (upd_key u) (upd_rule u))"
proof (cases t)
  case (Find_quota req caller p rs)
  let ?m = "req_method req" and ?amount = "spend_of parse req"
  from assms(2) Find_quota obtain r where r: "grants caller p" "rs = updates_of ?m caller 0 r None" by auto
  from assms(1) Find_quota obtain vs where vs: "quota_updates ?m caller ?amount (profile_quota p) (access ps) = Ok vs"
    "us = sort_by (\<lambda>a b. compare_access_keys as_str (upd_key a) (upd_key b)) (rs @ vs)"
    by (auto simp: spend_of_def split: sum.splits)
  show ?thesis
  proof (cases "quota_rule_for ?amount p")
    case None
    then have "rs @ vs = updates_of ?m caller ?amount r None"
      using vs r by (simp add: quota_updates_cases updates_of_def)
    then show ?thesis using vs(1,2) r None Find_quota by (auto simp: sort_updates_of updates_of_ascend quota_updates_cases)
  next
    case (Some rule)
    then obtain a where a: "quota (access ps) (AccessKey_Quota caller) = Some a" "vs = [quota_update caller ?amount rule a]"
      using vs(1) by (auto simp: quota_updates_cases split: option.splits)
    then have "rs @ vs = updates_of ?m caller ?amount r (Some (rule, a))" using r by (simp add: updates_of_def)
    moreover have "set us = set rs \<union> set vs" using vs(2) by simp
    moreover have "granted_rule grants (AccessKey_Quota caller) rule"
      using r(1) Some by (auto simp: granted_rule_def rule_for_key_def quota_rule_for_def split: if_splits)
    ultimately show ?thesis
      using vs(2) a(2) Find_quota handlesI(2) [OF a(1)] by (auto simp: sort_updates_of updates_of_ascend)
  qed
qed (use assms in \<open>auto split: option.splits sum.splits\<close>)

text \<open>Every step keeps the invariant.\<close>

lemma access_inv_update:
  assumes "access_inv grants as_str c" and "store_ok grants (cfg_state c') (updates_in c')"
    and "set (cfg_looking c') \<subseteq> set (cfg_looking c) \<union> {t. look_up_ok grants t}"
    and "set (cfg_updates c') \<subseteq> set (cfg_updates c) \<union> {t. update_ok grants t}"
    and "request_updates c' \<subseteq> request_updates c \<union> {us. sorted_wrt (key_before as_str) us}"
  shows "access_inv grants as_str c'"
  using assms unfolding access_inv_def by blast

lemma store_ok_mono:
  assumes "store_ok grants ps U" and "U' \<subseteq> U"
  shows "store_ok grants ps U'"
  using assms(2) store_okD(1,3) [OF assms(1)] by (intro store_ok_fewer [OF assms(1)]) simp_all

lemma access_inv_step:
  assumes "access_step grants as_str parse c c'" and "access_inv grants as_str c"
  shows "access_inv grants as_str c'"
  using assms
proof (induction rule: access_step.induct)
  case (step_look_up c ls t ls' t')
  then have ok: "store_ok grants (cfg_state c) (updates_in c)" "look_up_ok grants t"
    by (auto simp: access_inv_def)
  note new = look_up_step_next [OF step_look_up.hyps(2) ok]
  let ?V = "set (look_up_updates t') - set (look_up_updates t)"
  have "store_ok grants (cfg_state c) (?V \<union> updates_in c)" using new by (intro store_ok_found [OF ok(1)]) blast
  then have "store_ok grants (cfg_state c) (updates_in (c\<lparr>cfg_looking := ls @ t' # ls'\<rparr>))"
    by (rule store_ok_mono) (use step_look_up.hyps(1) in \<open>auto simp: updates_in_def request_updates_def\<close>)
  with new step_look_up.hyps(1) show ?case
    by (intro access_inv_update [OF step_look_up.prems]) (auto simp: request_updates_def)
next
  case (step_found c ls t ls' us)
  let ?c = "c\<lparr>cfg_looking := ls @ ls', cfg_waiting := (req_method (look_up_request t), us) # cfg_waiting c\<rparr>"
  from step_found have ok: "store_ok grants (cfg_state c) (updates_in c)" "look_up_ok grants t"
    by (auto simp: access_inv_def)
  note new = look_up_step_found [OF step_found.hyps(2) ok(2)]
  let ?V = "set us - set (look_up_updates t)"
  have "store_ok grants (cfg_state c) (?V \<union> updates_in c)" using new by (intro store_ok_found [OF ok(1)]) blast
  then have "store_ok grants (cfg_state c) (updates_in ?c)"
    by (rule store_ok_mono) (use step_found.hyps(1) in \<open>auto simp: updates_in_def request_updates_def\<close>)
  with new step_found.hyps(1) show ?case
    by (intro access_inv_update [OF step_found.prems]) (auto simp: request_updates_def)
next
  case (step_admit c ws m us ws' micros st)
  then have "store_ok grants (cfg_state c) (updates_in c)" "set us \<subseteq> updates_in c"
    by (auto simp: access_inv_def updates_in_def request_updates_def)
  from store_ok_settle [OF this, of m "now_micros micros"] step_admit.hyps
  have "store_ok grants (cfg_state c\<lparr>access := st\<rparr>) (updates_in c)" by (simp add: with_access_def)
  with step_admit.hyps show ?case
    by (intro access_inv_update [OF step_admit.prems])
      (auto simp: request_updates_def updates_in_def insert_commute elim!: store_ok_mono)
next
  case (step_refuse c ws m us ws' micros resp st)
  then have "store_ok grants (cfg_state c) (updates_in c)" "set us \<subseteq> updates_in c"
    by (auto simp: access_inv_def updates_in_def request_updates_def)
  from store_ok_settle [OF this, of m "now_micros micros"] step_refuse.hyps
  have "store_ok grants (cfg_state c\<lparr>access := st\<rparr>) (updates_in c)" by (simp add: with_access_def)
  with step_refuse.hyps show ?case
    by (intro access_inv_update [OF step_refuse.prems])
      (auto simp: request_updates_def updates_in_def elim!: store_ok_mono)
next
  case (step_refund c fs u us fs')
  then have "store_ok grants (cfg_state c) (updates_in c)" "u \<in> updates_in c"
    by (auto simp: access_inv_def updates_in_def request_updates_def)
  from store_ok_refund [OF this]
  have "store_ok grants (cfg_state c\<lparr>access := refund_applied_state_updates [u] (access (cfg_state c))\<rparr>) (updates_in c)"
    by (simp add: with_access_def)
  moreover have "sorted_wrt (key_before as_str) us"
    using step_refund by (force simp: access_inv_def request_updates_def)
  ultimately show ?case
    using step_refund.hyps by (intro access_inv_update [OF step_refund.prems])
      (auto simp: request_updates_def updates_in_def simp del: refund_applied_state_updates.simps elim!: store_ok_mono)
next
  case (step_update c ts t ts' micros ps rest)
  then have "store_ok grants (cfg_state c) (updates_in c)" "update_ok grants t" by (auto simp: access_inv_def)
  from store_ok_update [OF this step_update.hyps(2)] step_update.hyps(1) show ?case
    by (intro access_inv_update [OF step_update.prems])
      (auto simp: request_updates_def updates_in_def split: option.splits)
qed (auto intro!: access_inv_update simp: access_inv_def request_updates_def updates_in_def elim!: store_ok_mono)

lemma access_inv_reachable:
  "(access_step grants as_str parse)\<^sup>*\<^sup>* access_start c \<Longrightarrow> access_inv grants as_str c"
  by (induction rule: rtranclp_induct) (auto intro: access_inv_start access_inv_step)

subsection \<open>The bounds of the buckets\<close>

text \<open>C9: however requests, refunds, grants and resets interleave, one critical section at a time, no
  bucket is ever negative, and none holds more than the capacity of a valid rule that some profile
  granted to its caller gives its key.\<close>

theorem buckets_within_capacity:
  assumes "(access_step grants as_str parse)\<^sup>*\<^sup>* access_start c"
    and "bucket_at (cfg_state c) key = Some s"
  shows "\<exists>rule. granted_rule grants key rule \<and> valid_rule rule \<and>
    0 \<le> sint (balance s) \<and> sint (balance s) \<le> sint (max_capacity rule)"
proof -
  let ?ps = "cfg_state c"
  from access_inv_reachable [OF assms(1)] have ok: "store_ok grants ?ps (updates_in c)" by (simp add: access_inv_def)
  from assms(2) obtain a where a: "(key, a) \<in> handles (access ?ps)" "map_option cell_state (heap (access ?ps) a) = Some s"
    by (cases key) (auto simp: access_rate_bucket_def quota_bucket_def deref_def Option.bind_eq_Some_conv)
  then have "lock_cell (access ?ps) a = Some s"
    using store_okD(2) [OF ok] by (auto simp: lock_cell_def unpoisoned_def)
  with store_okD(5) [OF ok known_handlesI(1) [OF a(1)]] show ?thesis
    by (auto simp: filled_by_grant_def bucket_ok_def valid_rule_def)
qed

definition demo_grants :: "pubkey \<Rightarrow> usage_profile \<Rightarrow> bool" where
  "demo_grants pk p \<longleftrightarrow> pk = ''alice'' \<and> p = demo_profile"

definition demo_config :: access_config where
  "demo_config = access_start\<lparr>cfg_state := demo_state\<rparr>"

lemma demo_reachable: "(access_step demo_grants demo_as_str demo_parse)\<^sup>*\<^sup>* access_start demo_config"
proof -
  have "demo_grants ''alice'' demo_profile" "wf_profile demo_profile"
    by (simp_all add: demo_grants_def wf_profile_def demo_profile_def)
  from undisturbed_grant [where grants = demo_grants, OF this, of demo_as_str demo_parse access_start 7] show ?thesis
    by (simp add: demo_config_def demo_state_def) (simp add: access_start_def)
qed

lemma demo_granted_quota: "granted_rule demo_grants (AccessKey_Quota ''alice'') rule \<longleftrightarrow> rule = demo_quota"
  by (auto simp: granted_rule_def demo_grants_def rule_for_key_def demo_profile_def)

theorem buckets_within_capacity_witness:
  "bucket_at demo_state (AccessKey_Quota ''alice'') = Some \<lparr>balance = 5000, last_refill_micros = 7\<rparr> \<and>
   (\<exists>rule. granted_rule demo_grants (AccessKey_Quota ''alice'') rule \<and> 5000 \<le> sint (max_capacity rule))"
proof -
  have b: "bucket_at demo_state (AccessKey_Quota ''alice'') = Some \<lparr>balance = 5000, last_refill_micros = 7\<rparr>"
    by (simp add: demo_state_eq quota_bucket_def deref_def)
  with buckets_within_capacity [OF demo_reachable, of "AccessKey_Quota ''alice''"] show ?thesis
    by (auto simp: demo_config_def simp del: bucket_at.simps)
qed

subsection \<open>Requests that lock at once\<close>

text \<open>The requests that wait in a configuration, as threads that hold nothing yet.\<close>

definition lock_threads ::
    "(nip47_method \<times> state_update_request list) list \<Rightarrow> state_update_request lock_thread list" where
  "lock_threads ws = map (\<lambda>(m, us). ([], us)) ws"

lemma waiting_disciplined:
  assumes "(access_step grants as_str parse)\<^sup>*\<^sup>* access_start c"
  shows "key_locks.disciplined as_str (lock_threads (cfg_waiting c))"
proof -
  let ?ts = "lock_threads (cfg_waiting c)"
  note inv = access_inv_reachable [OF assms, unfolded access_inv_def]
  have sub: "lock_requests ?ts \<subseteq> updates_in c"
    by (force simp: lock_requests_def lock_threads_def updates_in_def request_updates_def)
  have "upd_key u = upd_key v" if "u \<in> updates_in c" "v \<in> updates_in c" "upd_state u = upd_state v" for u v
    using store_okD(6) [OF conjunct1 [OF inv] known_handlesI(2) [OF that(1)]] known_handlesI(2) [OF that(2)] that(3) by metis
  with sub have "key_locks.coherent as_str (lock_requests ?ts)"
    unfolding key_locks.coherent_def key_before_def by (metis subsetD)
  moreover have "\<forall>t \<in> set ?ts. sorted_wrt (key_before as_str) (fst t @ snd t)"
    using inv by (force simp: lock_threads_def request_updates_def)
  ultimately show ?thesis by (simp add: key_locks.disciplined_def)
qed

lemma disciplined_run:
  "(lock_step upd_state)\<^sup>*\<^sup>* ts ts' \<Longrightarrow> key_locks.disciplined as_str ts \<Longrightarrow>
     key_locks.disciplined as_str ts'"
  by (induction rule: rtranclp_induct) (auto intro: key_locks.disciplined_step)

text \<open>C11: requests that take their locks at the same time never deadlock: from the waiting
  requests of a reachable configuration, however the acquisitions interleave, either every
  request has finished or some request can take its next lock or release its locks; and every
  interleaving ends.\<close>

theorem concurrent_requests_never_deadlock:
  assumes "(access_step grants as_str parse)\<^sup>*\<^sup>* access_start c"
    and "(lock_step upd_state ^^ n) (lock_threads (cfg_waiting c)) ts"
  shows "(all_finished ts \<or> (\<exists>ts'. lock_step upd_state ts ts')) \<and>
    n \<le> lock_work (lock_threads (cfg_waiting c))"
proof -
  from assms(2) have "(lock_step upd_state)\<^sup>*\<^sup>* (lock_threads (cfg_waiting c)) ts"
    by (rule relpowp_imp_rtranclp)
  then have "key_locks.disciplined as_str ts"
    using waiting_disciplined [OF assms(1)] by (rule disciplined_run)
  with lock_runs_bounded [OF assms(2)] show ?thesis using key_locks.not_stuck by auto
qed

theorem concurrent_requests_never_deadlock_witness:
  "\<exists>(c :: access_config) ts. length (cfg_waiting c) = 2 \<and> lock_step upd_state (lock_threads (cfg_waiting c)) ts \<and>
     (\<exists>ts'. lock_step upd_state ts ts')"
proof -
  let ?us = "updates_of Method_PayKeysend ''alice'' 1000 (Some (demo_rule, 0)) (Some (demo_quota, 1))"
  let ?w = "(Method_PayKeysend, ?us)"
  let ?c = "demo_config\<lparr>cfg_waiting := [?w, ?w]\<rparr>"
  have prep: "prepare_updates demo_as_str demo_parse (demo_request 1000) ''alice'' (cfg_state c) = Ok ?us"
    if "cfg_state c = demo_state" for c using verify_access_Ok(1) [OF demo_granted] that by simp
  have w: "(req_method (demo_request 1000), ?us) = ?w" "cfg_waiting demo_config = []" "cfg_state demo_config = demo_state"
    by (simp_all add: demo_request_def demo_config_def access_start_def)
  have "(access_step demo_grants demo_as_str demo_parse)\<^sup>*\<^sup>* demo_config ?c"
    using undisturbed_request [OF prep, of demo_config demo_grants]
      undisturbed_request [OF prep, of "demo_config\<lparr>cfg_waiting := [?w]\<rparr>" demo_grants] w
    by simp
  with demo_reachable have "(access_step demo_grants demo_as_str demo_parse)\<^sup>*\<^sup>* access_start ?c"
    by (rule rtranclp_trans)
  note no_deadlock = concurrent_requests_never_deadlock [OF this, of 1]
  let ?r = "rate_update Method_PayKeysend ''alice'' demo_rule 0"
  let ?q = "quota_update ''alice'' 1000 demo_quota 1"
  have us: "lock_threads (cfg_waiting ?c) = [([], [?r, ?q]), ([], [?r, ?q])]"
    by (simp add: lock_threads_def updates_of_def)
  have step: "lock_step upd_state ([] @ ([], ?r # [?q]) # [([], [?r, ?q])])
      ([] @ ([] @ [?r], [?q]) # [([], [?r, ?q])])"
    by (rule lock_step.acquire) (simp add: held_locks_def)
  then have "(lock_step upd_state ^^ 1) (lock_threads (cfg_waiting ?c))
      [([?r], [?q]), ([], [?r, ?q])]" unfolding us relpowp_1 by simp
  from no_deadlock [OF this] have "\<exists>ts'. lock_step upd_state [([?r], [?q]), ([], [?r, ?q])] ts'"
    by (simp add: all_finished_def)
  with step show ?thesis
    by (intro exI [of _ ?c] exI [of _ "[([?r], [?q]), ([], [?r, ?q])]"])
      (simp add: lock_threads_def updates_of_def)
qed

end
