(* ===== verification/Spending.thy ===== *)
theory Spending
  imports Access_Interleaving
begin

section \<open>Spending while requests interleave\<close>

text \<open>
  The account of one bucket over a run of the access layer's machine: what is in it, what the
  requests in progress have taken and may still give back, and what answered requests have
  spent. Without refill the sum never grows, in whatever order requests read the profile, look
  up their handles, are admitted, fail, are refunded and answered, and whatever profiles are
  updated and reset in between, also that of the bucket's caller.
\<close>

subsection \<open>The share of a request\<close>

definition owed :: "addr \<Rightarrow> state_update_request list \<Rightarrow> nat" where
  "owed a us = (\<Sum>u\<leftarrow>us. if upd_state u = a then unat (upd_amount u) else 0)"

definition outstanding :: "addr \<Rightarrow> state_update_request list list \<Rightarrow> nat" where
  "outstanding a rs = (\<Sum>us\<leftarrow>rs. owed a us)"

lemma owed_simps [simp]:
  "owed a [] = 0"
  "owed a (u # us) = (if upd_state u = a then unat (upd_amount u) else 0) + owed a us"
  by (simp_all add: owed_def)

lemma outstanding_simps [simp]:
  "outstanding a [] = 0" "outstanding a (us # rs) = owed a us + outstanding a rs"
  "outstanding a (rs @ rs') = outstanding a rs + outstanding a rs'"
  by (simp_all add: outstanding_def)

lemma owed_elsewhere: "\<forall>u \<in> set us. upd_state u \<noteq> a \<Longrightarrow> owed a us = 0"
  by (induction us) simp_all

lemma owed_find:
  "distinct (map upd_state us) \<Longrightarrow>
     owed a us = (case find (\<lambda>u. upd_state u = a) us of None \<Rightarrow> 0 | Some u \<Rightarrow> unat (upd_amount u))"
proof (induction us)
  case (Cons u us)
  show ?case
  proof (cases "upd_state u = a")
    case True
    with Cons.prems have "\<forall>v \<in> set us. upd_state v \<noteq> a" by (auto simp: rev_image_eqI)
    then have "owed a us = 0" by (rule owed_elsewhere)
    with True show ?thesis by simp
  next
    case False
    with Cons show ?thesis by simp
  qed
qed simp

subsection \<open>What the steps do to a cell\<close>

lemma lock_store_cell: "lock_cell (store_cell b s st) a = (if a = b then Some s else lock_cell st a)"
  by (simp add: lock_cell_def)

lemma lock_all_map:
  "lock_all m st us = Ok gs \<Longrightarrow>
     gs = map (\<lambda>u. \<lparr>gu_update = u, gu_guard = the (lock_cell st (upd_state u))\<rparr>) us"
  by (induction us arbitrary: gs) (auto simp: rbind_eq_Ok split: option.splits)

text \<open>A guard after its debit.\<close>

definition after_debit :: "u64 \<Rightarrow> guarded_state_update \<Rightarrow> (rate_state_error + unit) \<times> rate_state" where
  "after_debit now g = withdraw_after_refill (gu_guard g) (upd_amount (gu_update g)) now (upd_rule (gu_update g))"

lemma debit_all_map:
  "debit_all m now gs = (Ok (), gs') \<Longrightarrow>
     gs' = map (\<lambda>g. g\<lparr>gu_guard := snd (after_debit now g)\<rparr>) gs \<and> (\<forall>g \<in> set gs. fst (after_debit now g) = Ok ())"
  by (induction gs arbitrary: gs') (auto simp: after_debit_def split: prod.splits sum.splits)

lemma drop_guards_cell:
  "distinct (map (\<lambda>g. upd_state (gu_update g)) gs) \<Longrightarrow>
     lock_cell (drop_guards gs st) a =
       (case find (\<lambda>g. upd_state (gu_update g) = a) gs of None \<Rightarrow> lock_cell st a | Some g \<Rightarrow> Some (gu_guard g))"
proof (induction gs arbitrary: st)
  case (Cons g gs)
  show ?case
  proof (cases "upd_state (gu_update g) = a")
    case True
    with Cons.prems have "find (\<lambda>g. upd_state (gu_update g) = a) gs = None"
      by (auto simp: find_None_iff rev_image_eqI)
    with Cons True show ?thesis by (simp add: lock_store_cell)
  next
    case False
    with Cons show ?thesis by (simp add: lock_store_cell split: option.split)
  qed
qed simp

lemma settle_refused: "settle m now us st = (Err e, st') \<Longrightarrow> st' = st"
  using verified_debits_succeed [of m now]
  by (auto simp: settle_def split: sum.splits prod.splits) (metis fst_conv sum.distinct(1))

lemma find_map: "find P (map f xs) = map_option f (find (\<lambda>x. P (f x)) xs)"
  by (induction xs) simp_all

lemma level_at_most:
  "rate_per_micro rule = 0 \<Longrightarrow> level_at s now rule \<le> sint (balance s)"
  by (simp add: level_at_def refilled_tokens_def)

lemma settle_cell_find:
  assumes "settle m now us st = (Ok (), st')" and "distinct (map upd_state us)" and "lock_cell st a = Some s"
  shows "case find (\<lambda>u. upd_state u = a) us of
      None \<Rightarrow> lock_cell st' a = Some s
    | Some u \<Rightarrow> fst (withdraw_after_refill s (upd_amount u) now (upd_rule u)) = Ok () \<and>
        lock_cell st' a = Some (snd (withdraw_after_refill s (upd_amount u) now (upd_rule u)))"
proof -
  from assms(1) obtain gs gs' where gs: "lock_all m st us = Ok gs"
    "debit_all m now gs = (Ok (), gs')" "st' = drop_guards gs' st"
    by (auto simp: settle_def split: sum.splits prod.splits)
  note maps = lock_all_map [OF gs(1)] debit_all_map [OF gs(2)]
  have d: "distinct (map (\<lambda>g. upd_state (gu_update g)) gs')"
    using assms(2) maps by (simp add: comp_def)
  note at = drop_guards_cell [OF d, of st a, folded gs(3)]
  show ?thesis
  proof (cases "find (\<lambda>u. upd_state u = a) us")
    case None
    then show ?thesis using maps assms(3) unfolding at by (simp add: find_map comp_def)
  next
    case (Some u)
    then have u: "u \<in> set us" "upd_state u = a" by (auto simp: find_Some_iff)
    have "lock_cell st' a = Some (snd (withdraw_after_refill s (upd_amount u) now (upd_rule u)))"
      using maps assms(3) Some u(2) unfolding at by (simp add: find_map comp_def after_debit_def)
    moreover have "fst (withdraw_after_refill s (upd_amount u) now (upd_rule u)) = Ok ()"
      using maps assms(3) u by (auto simp: after_debit_def)
    ultimately show ?thesis using Some by simp
  qed
qed

lemma settle_cell:
  assumes "settle m now us st = (Ok (), st')" and "distinct (map upd_state us)"
    and "lock_cell st a = Some s"
    and pos: "0 \<le> sint (balance s)"
    and rate: "\<And>u. u \<in> set us \<Longrightarrow> upd_state u = a \<Longrightarrow> rate_per_micro (upd_rule u) = 0"
  shows "\<exists>s'. lock_cell st' a = Some s' \<and> 0 \<le> sint (balance s') \<and> sint (balance s') + int (owed a us) \<le> sint (balance s)"
proof (cases "find (\<lambda>u. upd_state u = a) us")
  case None
  with settle_cell_find [OF assms(1-3)] owed_find [OF assms(2), of a] pos show ?thesis by simp
next
  case (Some u)
  then have u: "u \<in> set us" "upd_state u = a" by (auto simp: find_Some_iff)
  from pos show ?thesis
  proof (cases rule: withdraw_any_rule [of s "upd_amount u" now "upd_rule u"])
    case (refused e)
    with Some settle_cell_find [OF assms(1-3)] show ?thesis by simp
  next
    case (granted s')
    with Some settle_cell_find [OF assms(1-3)] owed_find [OF assms(2), of a] level_at_most [OF rate [OF u], of s now]
    show ?thesis by (intro exI [of _ s']) (simp add: bucket_ok_def del: of_nat_unat)
  qed
qed

lemma refund_cell:
  assumes "lock_cell st a = Some s" and "0 \<le> sint (balance s)"
  shows "\<exists>s'. lock_cell (refund_applied_state_updates [u] st) a = Some s' \<and> 0 \<le> sint (balance s') \<and>
    sint (balance s') \<le> sint (balance s) + int (owed a [u])"
proof (cases "upd_state u = a")
  case True
  with assms show ?thesis
    by (cases rule: refund_any_rule [OF assms(2), of "upd_amount u" "upd_rule u"])
      (simp_all add: lock_store_cell bucket_ok_def del: of_nat_unat)
next
  case False
  with assms show ?thesis by (auto simp: lock_store_cell split: option.split)
qed

text \<open>An update of a profile changes no bucket: it makes new ones and drops handles to old ones.\<close>

lemma lock_cell_insert:
  "lock_cell st a = Some s \<Longrightarrow> wf_access_state st \<Longrightarrow>
     lock_cell (snd (insert_access_rate_state k t st)) a = Some s \<and>
     lock_cell (snd (insert_quota_state k t st)) a = Some s"
  using wf_access_stateD(2) [of st a] by (auto simp: lock_cell_def insert_eqs split: option.splits)

lemma update_step_cell:
  assumes "update_step micros t ps = (ps', rest)" and "lock_cell (access ps) a = Some s"
    and "wf_access_state (access ps)"
  shows "lock_cell (access ps') a = Some s"
proof -
  have same: "lock_cell st' = lock_cell st" if "heap st' = heap st" for st st'
    using that by (simp add: lock_cell_def [abs_def])
  note removed = same [OF removals(2)] same [OF removals(4)] same [OF removals(6)] same [OF removals(8)]
  show ?thesis
    using assms
  proof (induction micros t ps rule: update_step.induct)
    case (3 micros target p now e ms ps)
    then show ?case
      by (cases e) (auto simp: initialize_method_states.simps lock_cell_insert split: option.splits sum.splits)
  next
    case (5 micros target p now ps)
    then show ?case by (auto simp: initialize_quota_state_def lock_cell_insert split: option.splits sum.splits)
  qed (auto simp: removed upsert_usage_profile_def clear_usage_profiles_store_def split: option.splits)
qed

subsection \<open>The account of a bucket\<close>

text \<open>What requests in progress may still give back to a bucket.\<close>

definition in_progress :: "addr \<Rightarrow> access_config \<Rightarrow> nat" where
  "in_progress a c = outstanding a (cfg_running c) + outstanding a (cfg_refunding c)"

definition account :: "addr \<Rightarrow> int \<Rightarrow> access_config \<Rightarrow> bool" where
  "account a limit c \<longleftrightarrow> (\<exists>s. lock_cell (access (cfg_state c)) a = Some s \<and> 0 \<le> sint (balance s) \<and>
     int (in_progress a c) + sint (balance s) \<le> limit)"

lemma apart_distinct: "sorted_wrt (\<lambda>u v. f u \<noteq> f v) xs \<Longrightarrow> distinct (map f xs)"
  by (induction xs) auto

lemma waiting_cells_apart:
  assumes "access_inv grants as_str c" and "(m, us) \<in> set (cfg_waiting c)"
  shows "distinct (map upd_state us)"
proof -
  have us: "us \<in> request_updates c" using assms(2) by (force simp: request_updates_def)
  then have sub: "set us \<subseteq> updates_in c" by (auto simp: updates_in_def)
  have ok: "store_ok grants (cfg_state c) (updates_in c)" "sorted_wrt (key_before as_str) us"
    using assms(1) us by (auto simp: access_inv_def)
  have apart: "upd_state u \<noteq> upd_state v" if uv: "key_before as_str u v" "u \<in> set us" "v \<in> set us" for u v
  proof
    assume eq: "upd_state u = upd_state v"
    have "u \<in> updates_in c" "v \<in> updates_in c" using uv(2,3) sub by blast+
    from known_handlesI(2) [OF this(1)] known_handlesI(2) [OF this(2), folded eq]
    have "upd_key u = upd_key v" by (rule store_okD(6) [OF ok(1)])
    with uv(1) show False
      using update_order.cmp_self [of as_str v] by (simp add: key_before_def)
  qed
  have "sorted_wrt (\<lambda>u v. upd_state u \<noteq> upd_state v) us"
    by (rule sorted_wrt_mono_rel [OF _ ok(2)]) (use apart in blast)
  then show ?thesis by (rule apart_distinct)
qed

text \<open>No profile ever granted refills the key.\<close>

definition never_refilled :: "(pubkey \<Rightarrow> usage_profile \<Rightarrow> bool) \<Rightarrow> access_key \<Rightarrow> bool" where
  "never_refilled grants key \<longleftrightarrow> (\<forall>rule. granted_rule grants key rule \<longrightarrow> rate_per_micro rule = 0)"

text \<open>A cell keeps its key: handles to it are only lost, or copied from the maps.\<close>

definition handles_of :: "access_config \<Rightarrow> (access_key \<times> addr) set" where
  "handles_of c = known_handles (cfg_state c) (updates_in c)"

lemma handles_update_step:
  assumes "update_step micros t ps = (ps', rest)"
  shows "handles (access ps') \<subseteq> handles (access ps) \<union> {(k, b). b = next_addr (access ps)}"
  using assms
proof (induction micros t ps rule: update_step.induct)
  case (3 micros target p now e ms ps)
  then show ?case
    by (cases e) (auto simp: initialize_method_states.simps insert_eqs handles_def split: option.splits sum.splits if_splits)
next
  case (5 micros target p now ps)
  then show ?case
    by (auto simp: initialize_quota_state_def insert_eqs handles_def split: option.splits sum.splits if_splits)
qed (auto simp: upsert_usage_profile_def clear_usage_profiles_store_def dest: removed_handles split: option.splits)

lemma handles_of_mono:
  assumes "handles (access (cfg_state c')) \<subseteq> handles (access (cfg_state c)) \<union> N"
    and "\<And>u. u \<in> updates_in c' \<Longrightarrow> u \<notin> updates_in c \<Longrightarrow> (upd_key u, upd_state u) \<in> handles (access (cfg_state c))"
  shows "handles_of c' \<subseteq> handles_of c \<union> N"
  using assms unfolding handles_of_def known_handles_def by blast

lemmas updates_of_config = updates_in_def request_updates_def

lemma handles_of_step:
  assumes "access_step grants as_str parse c c'" and "access_inv grants as_str c"
  shows "handles_of c' \<subseteq> handles_of c \<union> {(k, b). b = next_addr (access (cfg_state c))}"
  using assms
proof (induction rule: access_step.induct)
  case (step_look_up c ls t ls' t')
  from step_look_up have ok: "store_ok grants (cfg_state c) (updates_in c)" "look_up_ok grants t"
    by (auto simp: access_inv_def)
  note new = look_up_step_next [OF step_look_up.hyps(2) ok]
  show ?case
    by (rule handles_of_mono) (use new step_look_up.hyps(1) in \<open>auto simp: updates_of_config\<close>)
next
  case (step_found c ls t ls' us)
  from step_found have ok: "look_up_ok grants t" by (auto simp: access_inv_def)
  note new = look_up_step_found [OF step_found.hyps(2) ok]
  show ?case
    by (rule handles_of_mono) (use new step_found.hyps(1) in \<open>auto simp: updates_of_config\<close>)
next
  case (step_admit c ws m us ws' micros st)
  have "handles st = handles (access (cfg_state c))"
    using settle_handles [of m "now_micros micros" us "access (cfg_state c)"] step_admit.hyps by simp
  with step_admit.hyps show ?case
    by (intro handles_of_mono) (auto simp: updates_of_config)
next
  case (step_refuse c ws m us ws' micros resp st)
  with settle_refused [OF step_refuse.hyps(2)] show ?case
    by (intro handles_of_mono) (auto simp: updates_of_config)
next
  case (step_refund c fs u us fs')
  have "handles (refund_applied_state_updates [u] st) = handles st" for st by (simp split: option.split)
  with step_refund.hyps show ?case
    by (intro handles_of_mono) (auto simp: updates_of_config simp del: refund_applied_state_updates.simps)
next
  case (step_update c ts t ts' micros ps rest)
  from handles_update_step [OF step_update.hyps(2)] show ?case
    by (intro handles_of_mono) (auto simp: updates_of_config)
qed (intro handles_of_mono; auto simp: updates_of_config)+

text \<open>No step of the machine lets the account grow, as long as no grant refills the key.\<close>

lemma step_keeps_account:
  assumes "access_step grants as_str parse c c'" and "access_inv grants as_str c"
    and "account a limit c" and "\<forall>(k, b) \<in> handles_of c. b = a \<longrightarrow> k = key" and "never_refilled grants key"
  shows "account a limit c'"
  using assms
proof (induction rule: access_step.induct)
  case (step_admit c ws m us ws' micros st)
  then obtain s where s: "lock_cell (access (cfg_state c)) a = Some s" "0 \<le> sint (balance s)"
    "int (in_progress a c) + sint (balance s) \<le> limit" by (auto simp: account_def)
  have us: "us \<in> request_updates c" using step_admit.hyps(1) by (force simp: request_updates_def)
  have ok: "store_ok grants (cfg_state c) (updates_in c)" using step_admit.prems(1) by (simp add: access_inv_def)
  have rate: "rate_per_micro (upd_rule u) = 0" if u: "u \<in> set us" "upd_state u = a" for u
  proof -
    have "u \<in> updates_in c" using us u(1) by (auto simp: updates_in_def)
    with known_handlesI(2) [OF this] store_okD(4) [OF ok this] step_admit.prems(3,4) u(2) show ?thesis
      by (fastforce simp: handles_of_def never_refilled_def)
  qed
  have "distinct (map upd_state us)"
    using waiting_cells_apart [OF step_admit.prems(1), of m us] step_admit.hyps(1) by simp
  from settle_cell [OF step_admit.hyps(2) this s(1,2) rate] s(3) show ?case
    by (auto simp: account_def in_progress_def)
next
  case (step_refuse c ws m us ws' micros resp st)
  with settle_refused [OF step_refuse.hyps(2)] show ?case by (auto simp: account_def in_progress_def)
next
  case (step_refund c fs u us fs')
  then obtain s where s: "lock_cell (access (cfg_state c)) a = Some s" "0 \<le> sint (balance s)"
    "int (in_progress a c) + sint (balance s) \<le> limit" by (auto simp: account_def)
  from refund_cell [OF s(1,2), of u] s(3) step_refund.hyps show ?case
    by (auto simp: account_def in_progress_def simp del: refund_applied_state_updates.simps)
next
  case (step_update c ts t ts' micros ps rest)
  have "wf_access_state (access (cfg_state c))"
    using step_update.prems(1) store_okD(1) by (auto simp: access_inv_def)
  with update_step_cell [OF step_update.hyps(2)] step_update.prems(2) show ?case
    by (auto simp: account_def in_progress_def)
qed (auto simp: account_def in_progress_def)

subsection \<open>Runs that count what is answered\<close>

text \<open>
  A run from a configuration with what the requests answered on the way have taken from a cell.
  Every answer may be counted, and only answers are.
\<close>

inductive spending_run ::
    "(pubkey \<Rightarrow> usage_profile \<Rightarrow> bool) \<Rightarrow> (nip47_method \<Rightarrow> string) \<Rightarrow> bip321_parser \<Rightarrow> addr \<Rightarrow>
       access_config \<Rightarrow> nat \<Rightarrow> access_config \<Rightarrow> bool"
  for grants :: "pubkey \<Rightarrow> usage_profile \<Rightarrow> bool" and as_str :: "nip47_method \<Rightarrow> string"
    and parse :: bip321_parser and a :: addr and c :: access_config where
  run_start: "spending_run grants as_str parse a c 0 c"
| run_step: "spending_run grants as_str parse a c n c' \<Longrightarrow> access_step grants as_str parse c' c'' \<Longrightarrow>
    spending_run grants as_str parse a c n c''"
| run_answer: "spending_run grants as_str parse a c n c' \<Longrightarrow> cfg_running c' = rs @ us # rs' \<Longrightarrow>
    spending_run grants as_str parse a c (n + owed a us) (c'\<lparr>cfg_running := rs @ rs'\<rparr>)"

lemma run_steps:
  "(access_step grants as_str parse)\<^sup>*\<^sup>* c' c'' \<Longrightarrow> spending_run grants as_str parse a c n c' \<Longrightarrow>
     spending_run grants as_str parse a c n c''"
  by (induction rule: rtranclp_induct) (auto intro: run_step)

lemma spending_run_account:
  assumes "spending_run grants as_str parse a c n c'" and "access_inv grants as_str c"
    and "account a limit c" and "\<forall>(k, b) \<in> handles_of c. b = a \<longrightarrow> k = key" and "never_refilled grants key"
  shows "access_inv grants as_str c' \<and> account a (limit - int n) c' \<and> (\<forall>(k, b) \<in> handles_of c'. b = a \<longrightarrow> k = key)"
  using assms(1)
proof (induction rule: spending_run.induct)
  case run_start
  then show ?case using assms by simp
next
  case (run_step n c' c'')
  then have inv: "access_inv grants as_str c'" and acc: "account a (limit - int n) c'"
    and key: "\<forall>(k, b) \<in> handles_of c'. b = a \<longrightarrow> k = key" by blast+
  have "wf_access_state (access (cfg_state c'))" using inv store_okD(1) by (auto simp: access_inv_def)
  then have "a \<noteq> next_addr (access (cfg_state c'))"
    using acc wf_access_stateD(2) by (fastforce simp: account_def lock_cell_def split: option.splits)
  with key handles_of_step [OF run_step.hyps(2) inv] have "\<forall>(k, b) \<in> handles_of c''. b = a \<longrightarrow> k = key" by blast
  with access_inv_step [OF run_step.hyps(2) inv] step_keeps_account [OF run_step.hyps(2) inv acc key assms(5)]
  show ?case by blast
next
  case (run_answer n c' rs us rs')
  let ?c = "c'\<lparr>cfg_running := rs @ rs'\<rparr>"
  have step: "access_step grants as_str parse c' ?c" using run_answer.hyps(2) by (rule step_answer)
  have inv: "access_inv grants as_str ?c" using access_inv_step [OF step] run_answer.IH by blast
  have "handles_of ?c \<subseteq> handles_of c'"
    using run_answer.hyps(2) handles_of_mono [of ?c c' "{}"] by (auto simp: updates_of_config)
  moreover have "account a (limit - int (n + owed a us)) ?c"
    using run_answer.IH run_answer.hyps(2) by (auto simp: account_def in_progress_def)
  ultimately show ?case using run_answer.IH inv by blast
qed

subsection \<open>The guarantee\<close>

text \<open>C4: requests cannot overspend a bucket by interleaving, if no profile ever granted to its caller
  refills it: in any run from a reachable configuration, however requests read profiles, look up
  their handles, are admitted, fail and are refunded in between, and whatever profiles are updated
  meanwhile, also the caller's own, what the answered requests took from the bucket, what those still
  running have taken and what is left add up to no more than the same sum at the start.\<close>

theorem interleaved_requests_cannot_overspend:
  assumes "(access_step grants as_str parse)\<^sup>*\<^sup>* access_start c" and "never_refilled grants key"
    and "(key, a) \<in> handles (access (cfg_state c))" and "lock_cell (access (cfg_state c)) a = Some s"
    and "spending_run grants as_str parse a c n c'"
  shows "\<exists>s'. lock_cell (access (cfg_state c')) a = Some s' \<and> 0 \<le> sint (balance s') \<and>
    int n + int (outstanding a (cfg_running c' @ cfg_refunding c')) + sint (balance s')
      \<le> int (outstanding a (cfg_running c @ cfg_refunding c)) + sint (balance s)"
proof -
  let ?limit = "int (in_progress a c) + sint (balance s)"
  note inv = access_inv_reachable [OF assms(1)]
  have ok: "store_ok grants (cfg_state c) (updates_in c)" using inv by (simp add: access_inv_def)
  have "\<forall>(k, b) \<in> handles_of c. b = a \<longrightarrow> k = key"
    using store_okD(6) [OF ok _ known_handlesI(1) [OF assms(3)]] by (auto simp: handles_of_def)
  moreover have "account a ?limit c"
    using assms(4) store_okD(5) [OF ok known_handlesI(1) [OF assms(3)]] by (auto simp: account_def filled_nonneg)
  ultimately have "account a (?limit - int n) c'" using spending_run_account [OF assms(5) inv] assms(2) by blast
  then show ?thesis by (auto simp: account_def in_progress_def)
qed

text \<open>Alice's keysend of 1000 msat, looked up, admitted and answered.\<close>

theorem interleaved_requests_cannot_overspend_witness:
  "\<exists>c s'. spending_run demo_grants demo_as_str demo_parse 1 demo_config 1000 c \<and>
     lock_cell (access (cfg_state c)) 1 = Some s' \<and> 1000 + sint (balance s') \<le> 5000"
proof -
  let ?us = "updates_of Method_PayKeysend ''alice'' 1000 (Some (demo_rule, 0)) (Some (demo_quota, 1))"
  let ?ps = "snd (verify_access demo_as_str demo_parse (demo_request 1000) ''alice'' 9 demo_state)"
  let ?run = "spending_run demo_grants demo_as_str demo_parse 1 demo_config"
  let ?waiting = "demo_config\<lparr>cfg_waiting := [(Method_PayKeysend, ?us)]\<rparr>"
  let ?running = "demo_config\<lparr>cfg_state := ?ps, cfg_waiting := [], cfg_running := [?us]\<rparr>"
  have m: "req_method (demo_request 1000) = Method_PayKeysend" by (simp add: demo_request_def)
  have v: "verify_access demo_as_str demo_parse (demo_request 1000) ''alice'' 9 demo_state = (Ok ?us, ?ps)"
    by (simp add: demo_granted)
  note parts = verify_access_Ok [OF v, unfolded m]
  have c: "cfg_state demo_config = demo_state" "cfg_waiting demo_config = []" "cfg_running demo_config = []"
    "cfg_refunding demo_config = []" by (simp_all add: demo_config_def access_start_def)
  have "?run 0 ?waiting"
    using run_steps [OF undisturbed_request run_start, of demo_as_str demo_parse "demo_request 1000" "''alice''"
        demo_config ?us demo_grants 1] parts(1) by (simp add: c m)
  moreover have "access_step demo_grants demo_as_str demo_parse ?waiting ?running"
    using step_admit [of ?waiting "[]" Method_PayKeysend ?us "[]" 9 "access ?ps" demo_grants demo_as_str demo_parse]
      parts(2) by (simp add: c parts(3) [symmetric])
  ultimately have "?run 0 ?running" by (rule run_step)
  from run_answer [OF this, of "[]" ?us "[]"] have run: "?run 1000 (?running\<lparr>cfg_running := []\<rparr>)"
    by (simp add: updates_of_def)
  have "never_refilled demo_grants (AccessKey_Quota ''alice'')"
    by (simp add: never_refilled_def demo_granted_quota demo_quota_def)
  moreover have "(AccessKey_Quota ''alice'', 1) \<in> handles (access (cfg_state demo_config))"
    by (simp add: c demo_state_eq handles_def)
  moreover have "lock_cell (access (cfg_state demo_config)) 1 = Some \<lparr>balance = 5000, last_refill_micros = 7\<rparr>"
    by (simp add: c demo_state_eq lock_cell_def)
  ultimately obtain s' where "lock_cell (access ?ps) 1 = Some s'" "0 \<le> sint (balance s')" "1000 + sint (balance s') \<le> 5000"
    using interleaved_requests_cannot_overspend [OF demo_reachable _ _ _ run] c by fastforce
  with run show ?thesis by (intro exI [of _ "?running\<lparr>cfg_running := []\<rparr>"] exI [of _ s']) simp
qed

end
