(* ===== verification/Stale_Rules.thy ===== *)
theory Stale_Rules
  imports Access_Interleaving
begin

section \<open>A request that runs while its profile is replaced\<close>










end
