(* ===== verification/Spec2Isabelle.thy ===== *)
theory Spec2Isabelle
  imports Quota_Laws Payment_Laws Test_Seams Route_Optimal Spending Stale_Rules
begin

text \<open>
  This development models \<open>ldk-controller\<close>, a Rust program that puts a Lightning node (the
  \<open>ldk-node\<close> crate) under remote control over Nostr relays, and proves what its access layer,
  its services and its run as a whole guarantee. All paths below are under \<open>src/\<close> of the
  repository.

  \<^bold>\<open>The program.\<close> Wallet requests (Nostr Wallet Connect, kind 23194) and control requests (kind
  23198) arrive as encrypted events. Each client has a usage profile, granted by an event of
  kind 30078, with the methods it may call, an access rate per method and a quota for what it
  spends; rates and quota are token buckets. A wallet request is checked and debited, then
  validated, then executed on the node, and refunded when the execution fails. A control
  request is checked against the profile only. Events of the node become notifications for
  subscribed clients, counts of payments to offers, and a history of forwarded payments.

  \<^bold>\<open>The theories, in the order of the code.\<close>
  \<^item> \<open>Prelude\<close>, \<open>Machine_Int\<close>, \<open>Rust_String\<close>, \<open>Hash_Map\<close>: results, orderings and sorting, integers at
    their widths, strings as lists of bytes (UTF-8), hash maps as association lists with
    distinct keys in an arbitrary order.
  \<^item> \<open>Rate_State\<close> (\<open>rate_limit_rule.rs\<close>, \<open>state/rate_state.rs\<close>): rules and buckets, refill,
    withdrawal and refund at the widths of the code.
  \<^item> \<open>Nip47\<close>, \<open>Codecs\<close>: the data of the protocol; short channel ids and hexadecimal.
  \<^item> \<open>Access_Store\<close>, \<open>Usage_Profile\<close> (\<open>state/store/access_store.rs\<close>, \<open>usage_profile/\<close>): buckets behind
    shared handles (\<open>Arc<Mutex<RateState>>\<close> is an address in a heap of cells), profiles, and
    the reset of a client's buckets when its profile is replaced.
  \<^item> \<open>Subscription_Store\<close>, \<open>Forwarding_Store\<close>, \<open>Offer_Store\<close>, \<open>Address_Store\<close> (\<open>state/\<close>).
  \<^item> \<open>Access_Control\<close> (\<open>verify_access\<close> and the refund in \<open>lib.rs\<close>) with its phases prepare, lock,
    verify, debit, drop; \<open>Access_Spec\<close>: an abstract account book that it refines;
    \<open>Access_Sync\<close>: the invariant \<open>in_sync\<close>, which every operation run to its end keeps;
    \<open>Lock_Order\<close>: threads that lock buckets one at a time; \<open>Access_Laws\<close>: the properties of
    single operations.
  \<^item> \<open>Access_Machine\<close>: the same operations in tasks that interleave, as an inductive step relation
    in which every critical section is a step: the read of the profile, the look-up of either
    handle, the locked part of \<open>verify_access\<close>, the refund of one bucket, and of
    \<open>upsert_usage_profile_and_reset_states\<close> and \<open>clear_all_states\<close> each write to a map. Undisturbed,
    the steps compose to the operations. \<open>Access_Interleaving\<close>: its invariant (\<open>in_sync\<close> is not
    one), the bounds of the buckets, no deadlock; \<open>Spending\<close>: the account of one bucket over every
    run of the machine; \<open>Stale_Rules\<close>: a run in which a replaced rule fills a new bucket.
  \<^item> \<open>Grants\<close> (\<open>parse_grant_target\<close>, \<open>should_apply_grant_event\<close> and their callers in \<open>lib.rs\<close>).
  \<^item> \<open>Ldk_Node\<close>: what the program calls of the node's crate, as a record of functions on the
    node's state; \<open>Demo_Node\<close>: an instance for examples; \<open>Ldk_Service\<close>, \<open>Route_Finder\<close>
    (\<open>lightning/ldk_service.rs\<close>): the service over it and its search for routes;
    \<open>Route_Optimal\<close>: when the search finds a cheapest route, and when it misses one.
  \<^item> \<open>Handlers\<close>, \<open>Nwc_Dispatch\<close> (\<open>lib.rs\<close>): validation and execution of every wallet method over the
    process-wide state \<open>world\<close>, the dispatch with debit and refund, encryption and answer;
    \<open>Handler_Laws\<close>, \<open>Dispatch_Laws\<close>, \<open>Payment_Laws\<close>: what a handler leaves alone, and the properties.
  \<^item> \<open>Control\<close> (\<open>process_control_request\<close>, \<open>handle_control_request\<close>), \<open>Node_Events\<close> (\<open>handle_ldk_event\<close>, the
    builders and publishers), with \<open>Control_Laws\<close> and \<open>Event_Laws\<close>.
  \<^item> \<open>Service\<close> (\<open>run_nwc_service\<close>, \<open>run_nwc_service_with_ldk\<close>, \<open>main.rs\<close>): the start-up from the
    configuration and the running tasks, as a function on a sequence of inputs;
    \<open>Service_Laws\<close>: the invariants of every run; \<open>Quota_Laws\<close>: what a client can spend in one.
    \<open>Test_Seams\<close>: the functions of \<open>lib.rs\<close> for
    tests, and the example \<open>run_client\<close>.

  \<^bold>\<open>How the lemmas are organised.\<close> Interfaces are locales: comparators of the sorts, the contract
  of a store, the discipline of locking, and the invariants of a run, each interpreted on the
  model's definitions where they are declared. Each store has its \<open>store_simps\<close>, each operation
  its \<open>wf_intros\<close>; the frames of the handlers and of the control methods follow the structure
  of the code by introduction rules (\<open>frame_intros\<close>, \<open>control_frame\<close>), so that a property about
  requests needs no case for each method. Above them come the invariant \<open>in_sync\<close> (each key
  with a valid rule has a bucket within its capacity, no other key has one), which holds where
  one operation ends before the next begins, the weaker invariant \<open>access_inv\<close> of tasks that
  interleave, the refinement of the account book, freedom from deadlock, the bounds on spending
  in sequence and under interleaving, the convergence of grants, soundness, order and optimality of the routes, and
  the theorems on whole runs. Some theorems state what the code does where
  this is not what it should do: they are marked as findings in the manifest.

  \<^bold>\<open>Bounds.\<close> Nothing runs on fuel. The wait for a payment ends because time passes: it gives up
  after 60 seconds and sleeps for 100 ms at least, so it sleeps 601 times at most. The search
  for routes ends because each round shrinks the queue or visits a node with its edges. That
  the first route is a cheapest one is proved when no cheapest path has more than the six hops
  the search allows (in a graph of at most seven nodes, for one); without that a route can be
  missed, as an example of eight nodes shows. Both bounds on spending hold for quotas without
  refill: with refill the same tokens are credited again and again (\<open>refill_window_is_reused\<close>).

  \<^bold>\<open>Parameters.\<close> What is not in the repository is an argument: the calls of \<open>ldk-node\<close>, the parsers
  and printers of \<open>serde_json\<close> and of the BIP-321 crate, the encryption, the relay's client, the
  clock. Two laws are assumed of them, as hypotheses where they are needed: parsed profiles are
  maps without duplicate keys (\<open>serde\<close> fills hash maps), and the node's look-up of a payment by
  its identifier agrees with its list of payments.

  \<^bold>\<open>Choices.\<close> Sums and products that the code does not check wrap around, as in release builds. A
  poisoned lock and a panic are values. At the level of the service one input is handled to
  its end before the next, so theorems about runs of the service are about such runs; in the
  program the fetch of grants and the answers to events run beside each other, and what that
  does to the access layer is the subject of \<open>Access_Machine\<close> and its theorems, of the order of
  the locks inside \<open>verify_access\<close> that of \<open>Lock_Order\<close>. While a handler waits for a
  payment the node moves on, and so it does between inputs.

  \<^bold>\<open>Not modelled.\<close> The connection to the relay, logging, the reading of \<open>config.toml\<close> and the wait
  for Ctrl+C (I/O); the JSON of requests, responses and notifications (\<open>serde\<close>); subscription at
  the relay beyond the filters that are asked for, since the loops handle any event they are given.
\<close>

end
